(* ===== verification/Gerbil_Prelude.thy ===== *)
theory Gerbil_Prelude
  imports Complex_Main "HOL-Library.Word" "HOL-Library.Multiset" "HOL-Library.AList" "HOL-Library.Sublist"
begin

text \<open>
  Shared ground of the Gerbil development.

  \<^item> Time is an \<open>int\<close> count of nanoseconds (\<open>time.Time\<close> minus a fixed origin), durations are
    \<open>int\<close> nanoseconds (\<open>time.Duration\<close>).
  \<^item> A Go map (and a \<open>sync.Map\<close>) is an association list with distinct keys.  The order of the
    list is the order in which \<open>range\<close> / \<open>Range\<close> visits the entries; Go leaves that order
    open, so every statement is about lists in an arbitrary order.
  \<^item> A Go string and a byte slice are byte strings (\<open>string\<close> for text, \<open>8 word list\<close> for
    packets).
  \<^item> The locale \<open>go_map\<close> is the contract of a map that its clients use, the locale
    \<open>step_system\<close> is the shared shape of every safety proof about a step relation.
\<close>

type_synonym time = int
type_synonym duration = int
type_synonym byte = "8 word"
type_synonym bytes = "byte list"
type_synonym u32 = "32 word"
type_synonym ('k, 'v) gomap = "('k \<times> 'v) list"

named_theorems go_simps \<open>equations that unfold operations of the model\<close>
named_theorems inv_rules \<open>preservation of a component's invariant by one operation\<close>

abbreviation millisecond :: duration where "millisecond \<equiv> 1000000"
abbreviation second :: duration where "second \<equiv> 1000000000"
abbreviation minute :: duration where "minute \<equiv> 60000000000"

text \<open>
  \<open>time.Time.Sub\<close> saturates at the ends of the \<open>int64\<close> range and negating the least duration
  wraps to itself; \<open>zeroTime\<close> is the zero \<open>time.Time\<close> (1 January of year 1) relative to the Unix
  epoch.
\<close>

definition minDuration :: duration where "minDuration = - (2 ^ 63)"
definition maxDuration :: duration where "maxDuration = 2 ^ 63 - 1"
definition zeroTime :: time where "zeroTime = - 62135596800 * second"

definition timeSub :: "time \<Rightarrow> time \<Rightarrow> duration" where
  "timeSub t u = (if t - u < minDuration then minDuration
                  else if maxDuration < t - u then maxDuration else t - u)"

definition negDuration :: "duration \<Rightarrow> duration" where
  "negDuration d = (if d = minDuration then minDuration else - d)"

text \<open>Go maps: lookup, store, delete, \<open>LoadOrStore\<close>, and the filtering \<open>Range\<close> loops.\<close>

abbreviation Load :: "('k, 'v) gomap \<Rightarrow> 'k \<Rightarrow> 'v option" where
  "Load m k \<equiv> map_of m k"

abbreviation Store :: "'k \<Rightarrow> 'v \<Rightarrow> ('k, 'v) gomap \<Rightarrow> ('k, 'v) gomap" where
  "Store \<equiv> AList.update"

abbreviation Delete :: "'k \<Rightarrow> ('k, 'v) gomap \<Rightarrow> ('k, 'v) gomap" where
  "Delete \<equiv> AList.delete"

definition wf_map :: "('k, 'v) gomap \<Rightarrow> bool" where
  "wf_map m \<longleftrightarrow> distinct (map fst m)"

definition hasKey :: "('k, 'v) gomap \<Rightarrow> 'k \<Rightarrow> bool" where
  "hasKey m k \<longleftrightarrow> map_of m k \<noteq> None"

definition loadOrStore :: "'k \<Rightarrow> 'v \<Rightarrow> ('k, 'v) gomap \<Rightarrow> 'v \<times> bool \<times> ('k, 'v) gomap" where
  "loadOrStore k v m =
     (case map_of m k of Some w \<Rightarrow> (w, True, m) | None \<Rightarrow> (v, False, AList.update k v m))"

text \<open>
  The scan for an oldest element: the first element, replaced whenever a strictly older one
  comes along.
\<close>

fun oldestBy :: "('a \<Rightarrow> int) \<Rightarrow> 'a list \<Rightarrow> 'a option" where
  "oldestBy age [] = None"
| "oldestBy age (x # xs) = Some (fold (\<lambda>y oldest. if age y < age oldest then y else oldest) xs x)"

text \<open>Dialling a list of addresses in order until one connects, with the addresses tried.\<close>

fun dialFirst :: "(string \<Rightarrow> 'conn option) \<Rightarrow> string list \<Rightarrow> string list \<Rightarrow> 'conn option \<times> string list" where
  "dialFirst dial [] tried = (None, tried)"
| "dialFirst dial (a # as) tried =
     (case dial a of Some conn \<Rightarrow> (Some conn, tried @ [a]) | None \<Rightarrow> dialFirst dial as (tried @ [a]))"

lemma oldest_fold_mem: "fold (\<lambda>y z. if age y < age z then y else z) xs x \<in> insert x (set xs)"
  by (induction xs arbitrary: x) (simp, force)

lemma oldest_fold_min:
  fixes age :: "'a \<Rightarrow> int"
  shows "age (fold (\<lambda>y z. if age y < age z then y else z) xs x) \<le> age x
     \<and> (\<forall>y \<in> set xs. age (fold (\<lambda>y z. if age y < age z then y else z) xs x) \<le> age y)"
proof (induction xs arbitrary: x)
  case (Cons y ys)
  show ?case
  proof (cases "age y < age x")
    case True
    with Cons.IH [of y] show ?thesis by auto
  next
    case False
    with Cons.IH [of x] show ?thesis by auto
  qed
qed simp

lemma oldestBy_None [simp]: "oldestBy age xs = None \<longleftrightarrow> xs = []"
  by (cases xs) auto

lemma oldestBy_Some:
  assumes "oldestBy age xs = Some z"
  shows "z \<in> set xs" "y \<in> set xs \<Longrightarrow> age z \<le> age y"
  using assms oldest_fold_mem [of age "tl xs" "hd xs"] oldest_fold_min [of age "tl xs" "hd xs"]
  by (cases xs; auto)+

lemma timeSub_less [simp]:
  "minDuration < d \<Longrightarrow> d \<le> maxDuration \<Longrightarrow> timeSub t u < d \<longleftrightarrow> t - u < d"
  by (auto simp: timeSub_def)

lemma timeSub_ge [simp]:
  "minDuration < d \<Longrightarrow> d \<le> maxDuration \<Longrightarrow> d \<le> timeSub t u \<longleftrightarrow> d \<le> t - u"
  using timeSub_less [of d t u] by linarith

lemma timeSub_gt [simp]:
  "minDuration \<le> d \<Longrightarrow> d < maxDuration \<Longrightarrow> d < timeSub t u \<longleftrightarrow> d < t - u"
  by (auto simp: timeSub_def)

lemma duration_range [simp]:
  "minDuration < second" "second \<le> maxDuration" "minDuration < 2500 * millisecond"
  "2500 * millisecond \<le> maxDuration" "minDuration < 30 * second" "30 * second \<le> maxDuration"
  by (simp_all add: minDuration_def maxDuration_def)

lemma wf_map_Nil [simp]: "wf_map []"
  by (simp add: wf_map_def)

lemma wf_map_Store [simp, intro]: "wf_map m \<Longrightarrow> wf_map (Store k v m)"
  by (simp add: wf_map_def distinct_update)

lemma wf_map_Delete [simp, intro]: "wf_map m \<Longrightarrow> wf_map (Delete k m)"
  by (simp add: wf_map_def distinct_delete)

lemma wf_map_filter [simp, intro]: "wf_map m \<Longrightarrow> wf_map (filter P m)"
  by (simp add: wf_map_def distinct_map_filter)

lemma Load_Store: "Load (Store k v m) k' = (if k' = k then Some v else Load m k')"
  by (simp add: update_conv')

lemma Load_Delete: "Load (Delete k m) k' = (if k' = k then None else Load m k')"
  by (simp add: delete_conv')

lemma length_Store:
  "length (Store k v m) = (if hasKey m k then length m else Suc (length m))"
  by (induction m) (auto simp: hasKey_def)

lemma hasKey_iff: "hasKey m k \<longleftrightarrow> k \<in> fst ` set m"
  by (auto simp: hasKey_def map_of_eq_None_iff)

lemma hasKey_Store [simp]: "hasKey (Store k v m) k' \<longleftrightarrow> k' = k \<or> hasKey m k'"
  by (auto simp: hasKey_def Load_Store)

lemma hasKey_Delete [simp]: "hasKey (Delete k m) k' \<longleftrightarrow> k' \<noteq> k \<and> hasKey m k'"
  by (auto simp: hasKey_def Load_Delete)

lemma Delete_filter: "Delete k m = filter (\<lambda>(k', _). k' \<noteq> k) m"
  by (induction m) auto

lemma length_Delete:
  assumes "wf_map m"
  shows "length (Delete k m) = (if hasKey m k then length m - 1 else length m)"
  using assms
proof (induction m)
  case Nil
  then show ?case by (simp add: hasKey_def)
next
  case (Cons e m)
  obtain k' v where e: "e = (k', v)" by (cases e)
  from Cons have IH: "length (Delete k m) = (if hasKey m k then length m - 1 else length m)"
    by (simp add: wf_map_def)
  show ?case
  proof (cases "k' = k")
    case True
    with Cons.prems e have "\<not> hasKey m k" by (auto simp: hasKey_iff wf_map_def)
    with True IH e show ?thesis by (simp add: hasKey_def)
  next
    case False
    moreover have "hasKey m k \<Longrightarrow> m \<noteq> []" by (auto simp: hasKey_def)
    ultimately show ?thesis using IH e by (auto simp: hasKey_def)
  qed
qed

lemma hasKey_length_pos: "hasKey m k \<Longrightarrow> 0 < length m"
  by (cases m) (auto simp: hasKey_def)

lemma Load_in_set: "Load m k = Some v \<Longrightarrow> (k, v) \<in> set m"
  by (rule map_of_SomeD)

lemma wf_map_in_set: "wf_map m \<Longrightarrow> (k, v) \<in> set m \<longleftrightarrow> Load m k = Some v"
  by (auto simp: wf_map_def)

lemma set_Store_subset: "set (Store k v m) \<subseteq> insert (k, v) (set m)"
  by (induction m) auto

lemma set_Delete_subset: "set (Delete k m) \<subseteq> set m"
  by (auto simp: Delete_filter)

lemma mset_Delete:
  "wf_map m \<Longrightarrow> Load m k = Some v \<Longrightarrow> mset m = add_mset (k, v) (mset (Delete k m))"
proof (induction m)
  case (Cons e m)
  obtain k' v' where [simp]: "e = (k', v')" by (cases e)
  show ?case
  proof (cases "k' = k")
    case True
    with Cons.prems have "\<not> hasKey m k" by (auto simp: wf_map_def hasKey_iff)
    then have "Delete k m = m" by (simp add: delete_idem hasKey_iff)
    with True Cons.prems show ?thesis by simp
  next
    case False
    with Cons show ?thesis by (auto simp: wf_map_def)
  qed
qed simp

lemma Store_new: "\<not> hasKey m k \<Longrightarrow> Store k v m = m @ [(k, v)]"
  by (induction m) (auto simp: hasKey_def split: if_splits)

lemma map_Store_same:
  "Load m k = Some v \<Longrightarrow> f (k, w) = f (k, v) \<Longrightarrow> map f (Store k w m) = map f m"
  by (induction m) auto

lemma wf_map_mset: "mset m = mset m' \<Longrightarrow> wf_map m \<longleftrightarrow> wf_map m'"
  unfolding wf_map_def by (metis mset_eq_imp_distinct_iff mset_map)

text \<open>
  The contract of a map: the operations a client calls and the laws it may use.  The client
  lemmas below (\<open>store_idem\<close>, \<open>delete_store\<close>, \<open>store_commute\<close>) are proved once from the laws.
\<close>

locale go_map =
  fixes load :: "'m \<Rightarrow> 'k \<Rightarrow> 'v option"
    and store :: "'k \<Rightarrow> 'v \<Rightarrow> 'm \<Rightarrow> 'm"
    and delete :: "'k \<Rightarrow> 'm \<Rightarrow> 'm"
    and count :: "'m \<Rightarrow> nat"
    and invar :: "'m \<Rightarrow> bool"
  assumes load_store: "invar m \<Longrightarrow> load (store k v m) k' = (if k' = k then Some v else load m k')"
    and load_delete: "invar m \<Longrightarrow> load (delete k m) k' = (if k' = k then None else load m k')"
    and count_store: "invar m \<Longrightarrow> count (store k v m) = (if load m k = None then Suc (count m) else count m)"
    and count_delete: "invar m \<Longrightarrow> Suc (count (delete k m)) = (if load m k = None then Suc (count m) else count m)"
    and invar_store: "invar m \<Longrightarrow> invar (store k v m)"
    and invar_delete: "invar m \<Longrightarrow> invar (delete k m)"
begin

lemma store_idem: "invar m \<Longrightarrow> load (store k v (store k w m)) = load (store k v m)"
  by (rule ext) (simp add: load_store invar_store)

lemma delete_store: "invar m \<Longrightarrow> load (delete k (store k v m)) = load (delete k m)"
  by (rule ext) (simp add: load_store load_delete invar_store)

lemma store_commute:
  "invar m \<Longrightarrow> k \<noteq> k' \<Longrightarrow> load (store k v (store k' w m)) = load (store k' w (store k v m))"
  by (rule ext) (auto simp: load_store invar_store)

lemma count_store_le: "invar m \<Longrightarrow> count (store k v m) \<le> Suc (count m)"
  by (simp add: count_store)

lemma count_delete_le: "invar m \<Longrightarrow> count (delete k m) \<le> count m"
  using count_delete [of m k] by (cases "load m k") auto

end

interpretation gm: go_map map_of AList.update AList.delete length wf_map
proof
  fix m :: "('k \<times> 'v) list" and k
  assume wf: "wf_map m"
  show "Suc (length (Delete k m)) = (if Load m k = None then Suc (length m) else length m)"
    using length_Delete [OF wf, of k] hasKey_length_pos [of m k] by (auto simp: hasKey_def)
qed (auto simp: Load_Store Load_Delete length_Store hasKey_def)

text \<open>
  The shape of a safety argument: an invariant that every step keeps holds along every run.
\<close>

locale step_system =
  fixes step :: "'s \<Rightarrow> 's \<Rightarrow> bool" and inv :: "'s \<Rightarrow> bool"
  assumes step_inv: "step s t \<Longrightarrow> inv s \<Longrightarrow> inv t"
begin

lemma run_inv: "step\<^sup>*\<^sup>* s t \<Longrightarrow> inv s \<Longrightarrow> inv t"
  by (induction rule: rtranclp_induct) (auto intro: step_inv)

end

text \<open>What every step of a loop leaves alone, the loop leaves alone.\<close>

lemma fold_frame: "(\<And>x s. f (g x s) = f s) \<Longrightarrow> f (fold g xs s) = f s"
  by (induction xs arbitrary: s) auto

text \<open>Partitioning a list by a predicate, as every clean-up loop does.\<close>

lemma length_filter_neg: "length (filter (\<lambda>x. \<not> P x) xs) + length (filter P xs) = length xs"
  by (induction xs) auto

text \<open>
  Deleting, while walking a table, the entries that satisfy a test leaves the others.
\<close>

lemma fold_delete:
  "fold (\<lambda>(k, v) m'. if P k v then Delete k m' else m') xs m
     = filter (\<lambda>(k, _). \<not> (\<exists>(k', v') \<in> set xs. P k' v' \<and> k' = k)) m"
  by (induction xs arbitrary: m) (auto simp: Delete_filter case_prod_beta intro!: filter_cong)

lemma fold_delete_filter:
  assumes "wf_map m"
  shows "fold (\<lambda>(k, v) m'. if P k v then Delete k m' else m') m m = filter (\<lambda>(k, v). \<not> P k v) m"
  unfolding fold_delete
proof (rule filter_cong [OF refl], clarify)
  fix k v assume "(k, v) \<in> set m"
  with assms show "(\<not> (\<exists>(k', v')\<in>set m. P k' v' \<and> k' = k)) = (\<not> P k v)"
    by (auto simp: wf_map_def dest: eq_key_imp_eq_value)
qed

lemma fold_Delete_keys: "fold Delete ks m = filter (\<lambda>(k, _). k \<notin> set ks) m"
  by (induction ks arbitrary: m) (auto simp: Delete_filter case_prod_beta intro!: filter_cong)

lemma fold_Delete_filter_keys:
  assumes "wf_map m"
  shows "fold Delete (map fst (filter (\<lambda>(_, v). P v) m)) m = filter (\<lambda>(_, v). \<not> P v) m"
  unfolding fold_Delete_keys
proof (rule filter_cong [OF refl], clarify)
  fix k v assume "(k, v) \<in> set m"
  with assms show "(k \<notin> set (map fst (filter (\<lambda>(_, v). P v) m))) = (\<not> P v)"
    by (force simp: wf_map_def dest: eq_key_imp_eq_value)
qed

lemma length_filter_pairs:
  "int (length xs) - int (length (filter (\<lambda>(a, b). P a b) xs)) = int (length (filter (\<lambda>(a, b). \<not> P a b) xs))"
  by (induction xs) auto

text \<open>
  The contract shared by the periodic clean-up loops: the loop walks the table it is about to
  change (\<open>get\<close>), each round (\<open>one\<close>) deletes the visited entry if it is \<open>stale\<close> and lowers a
  meter by one for it, and keeps the rest of the state (\<open>frame\<close>).  Then a whole pass leaves
  exactly the entries that are not stale, and meter minus table size is unchanged.
\<close>

locale table_cleanup =
  fixes get :: "'s \<Rightarrow> ('k, 'v) gomap"
    and one :: "'k \<times> 'v \<Rightarrow> 's \<Rightarrow> 's"
    and stale :: "'s \<Rightarrow> 'v \<Rightarrow> bool"
    and meter :: "'s \<Rightarrow> int"
    and frame :: "'s \<Rightarrow> 's \<Rightarrow> bool"
  assumes get_one: "get (one (k, v) s) = (if stale s v then Delete k (get s) else get s)"
    and stale_one: "stale (one kv s) = stale s"
    and meter_one: "meter (one (k, v) s) = meter s - (if stale s v then 1 else 0)"
    and frame_one: "frame (one kv s) s"
    and frame_refl: "frame s s"
    and frame_trans: "frame a b \<Longrightarrow> frame b c \<Longrightarrow> frame a c"
begin

lemma fold_get: "get (fold one xs s) = fold (\<lambda>(k, v) m. if stale s v then Delete k m else m) xs (get s)"
proof (induction xs arbitrary: s)
  case (Cons x xs)
  obtain k v where "x = (k, v)" by (cases x)
  then show ?case using Cons [of "one x s"] stale_one [of "(k, v)" s] by (simp add: get_one)
qed simp

lemma fold_meter: "meter (fold one xs s) = meter s - int (length (filter (\<lambda>(_, v). stale s v) xs))"
proof (induction xs arbitrary: s)
  case (Cons x xs)
  obtain k v where "x = (k, v)" by (cases x)
  then show ?case using Cons [of "one x s"] stale_one [of "(k, v)" s] by (simp add: meter_one)
qed simp

lemma pass_frame: "frame (fold one xs s) s"
  by (induction xs arbitrary: s) (auto intro: frame_refl frame_trans frame_one)

lemma pass_table: "wf_map (get s) \<Longrightarrow> get (fold one (get s) s) = filter (\<lambda>(_, v). \<not> stale s v) (get s)"
  using fold_delete_filter [of "get s" "\<lambda>_. stale s"] by (simp add: fold_get)

lemma pass_meter:
  assumes "wf_map (get s)"
  shows "meter (fold one (get s) s) - int (length (get (fold one (get s) s))) = meter s - int (length (get s))"
  using length_filter_pairs [of "get s" "\<lambda>_. stale s"] by (simp add: pass_table [OF assms] fold_meter)

end

lemma dialFirst_split: "\<exists>ys. snd (dialFirst dial as tried) = tried @ ys \<and> set ys \<subseteq> set as"
proof (induction as arbitrary: tried)
  case (Cons a as)
  from Cons [of "tried @ [a]"] show ?case by (auto split: option.splits)
qed simp

lemma dialFirst_subset: "set (snd (dialFirst dial as [])) \<subseteq> set as"
  using dialFirst_split [of dial as "[]"] by auto

end
