(* ===== verification/Go_Strings.thy ===== *)
theory Go_Strings
  imports Gerbil_Prelude
begin

text \<open>
  What the sources use of Go's \<open>strings\<close>, \<open>strconv\<close> and \<open>fmt\<close> packages, on byte strings:
  \<open>%d\<close> / \<open>strconv.Itoa\<close>, \<open>strconv.Atoi\<close> (= \<open>ParseInt(s, 10, 64)\<close> on a 64-bit build, with
  its optional sign and its range error), \<open>strings.Cut\<close>, \<open>Split\<close>, \<open>Fields\<close>, \<open>TrimSpace\<close>,
  \<open>TrimPrefix\<close>, \<open>TrimSuffix\<close>, \<open>Contains\<close>, \<open>ToLower\<close>, \<open>ToUpper\<close>, \<open>EqualFold\<close>.
  Case mapping and white space are the ASCII ones.
  The main facts are the print/parse round trip of numbers and the shape of the printed digits.
\<close>

definition digitChar :: "nat \<Rightarrow> char" where
  "digitChar n = char_of (48 + n)"

definition isDigit :: "char \<Rightarrow> bool" where
  "isDigit c \<longleftrightarrow> 48 \<le> (of_char c :: nat) \<and> (of_char c :: nat) \<le> 57"

definition digitVal :: "char \<Rightarrow> nat" where
  "digitVal c = of_char c - 48"

fun itoaNat :: "nat \<Rightarrow> string" where
  "itoaNat n = (if n < 10 then [digitChar n] else itoaNat (n div 10) @ [digitChar (n mod 10)])"

declare itoaNat.simps [simp del]

definition Itoa :: "int \<Rightarrow> string" where
  "Itoa i = (if i < 0 then CHR ''-'' # itoaNat (nat (- i)) else itoaNat (nat i))"

fun parseDigits :: "nat \<Rightarrow> string \<Rightarrow> nat option" where
  "parseDigits acc [] = Some acc"
| "parseDigits acc (c # cs) = (if isDigit c then parseDigits (10 * acc + digitVal c) cs else None)"

definition parseUint :: "string \<Rightarrow> nat option" where
  "parseUint s = (if s = [] then None else parseDigits 0 s)"

definition int64_ok :: "int \<Rightarrow> bool" where
  "int64_ok i \<longleftrightarrow> - (2 ^ 63) \<le> i \<and> i < 2 ^ 63"

definition Atoi :: "string \<Rightarrow> int option" where
  "Atoi s =
     (let (neg, ds) = (case s of
            [] \<Rightarrow> (False, s)
          | c # cs \<Rightarrow> if c = CHR ''-'' then (True, cs) else if c = CHR ''+'' then (False, cs) else (False, s))
      in case parseUint ds of
           None \<Rightarrow> None
         | Some n \<Rightarrow> let i = (if neg then - int n else int n) in if int64_ok i then Some i else None)"

fun hasPrefix :: "string \<Rightarrow> string \<Rightarrow> bool" where
  "hasPrefix s [] = True"
| "hasPrefix [] (p # ps) = False"
| "hasPrefix (c # cs) (p # ps) = (c = p \<and> hasPrefix cs ps)"

fun contains :: "string \<Rightarrow> string \<Rightarrow> bool" where
  "contains [] sub = (sub = [])"
| "contains (c # cs) sub = (hasPrefix (c # cs) sub \<or> contains cs sub)"

fun cut :: "string \<Rightarrow> string \<Rightarrow> (string \<times> string) option" where
  "cut [] sep = (if sep = [] then Some ([], []) else None)"
| "cut (c # cs) sep =
     (if hasPrefix (c # cs) sep then Some ([], drop (length sep) (c # cs))
      else map_option (\<lambda>(a, b). (c # a, b)) (cut cs sep))"

definition trimPrefix :: "string \<Rightarrow> string \<Rightarrow> string" where
  "trimPrefix s p = (if hasPrefix s p then drop (length p) s else s)"

definition trimSuffix :: "string \<Rightarrow> string \<Rightarrow> string" where
  "trimSuffix s p = (if hasPrefix (rev s) (rev p) then take (length s - length p) s else s)"

fun splitOn :: "char \<Rightarrow> string \<Rightarrow> string list" where
  "splitOn sep [] = [[]]"
| "splitOn sep (c # cs) =
     (if c = sep then [] # splitOn sep cs
      else case splitOn sep cs of [] \<Rightarrow> [[c]] | w # ws \<Rightarrow> (c # w) # ws)"

definition isSpace :: "char \<Rightarrow> bool" where
  "isSpace c \<longleftrightarrow> c = CHR '' '' \<or> (9 \<le> (of_char c :: nat) \<and> (of_char c :: nat) \<le> 13)"

fun fieldsAcc :: "string \<Rightarrow> string \<Rightarrow> string list" where
  "fieldsAcc acc [] = (if acc = [] then [] else [rev acc])"
| "fieldsAcc acc (c # cs) =
     (if isSpace c then (if acc = [] then fieldsAcc [] cs else rev acc # fieldsAcc [] cs)
      else fieldsAcc (c # acc) cs)"

definition strFields :: "string \<Rightarrow> string list" where
  "strFields s = fieldsAcc [] s"

definition trimSpace :: "string \<Rightarrow> string" where
  "trimSpace s = rev (dropWhile isSpace (rev (dropWhile isSpace s)))"

definition toLowerC :: "char \<Rightarrow> char" where
  "toLowerC c = (if 65 \<le> (of_char c :: nat) \<and> (of_char c :: nat) \<le> 90 then char_of (of_char c + 32 :: nat) else c)"

definition toUpperC :: "char \<Rightarrow> char" where
  "toUpperC c = (if 97 \<le> (of_char c :: nat) \<and> (of_char c :: nat) \<le> 122 then char_of (of_char c - 32 :: nat) else c)"

definition toLower :: "string \<Rightarrow> string" where "toLower = map toLowerC"
definition toUpper :: "string \<Rightarrow> string" where "toUpper = map toUpperC"

definition equalFold :: "string \<Rightarrow> string \<Rightarrow> bool" where
  "equalFold s t \<longleftrightarrow> toLower s = toLower t"

definition lastIndex :: "char \<Rightarrow> string \<Rightarrow> nat option" where
  "lastIndex c s = (case filter (\<lambda>i. s ! i = c) (rev [0..<length s]) of [] \<Rightarrow> None | i # _ \<Rightarrow> Some i)"

subsection \<open>Digits and numbers\<close>

lemma of_char_digitChar: "n < 10 \<Longrightarrow> (of_char (digitChar n) :: nat) = 48 + n"
  by (simp add: digitChar_def)

lemma isDigit_digitChar [simp]: "n < 10 \<Longrightarrow> isDigit (digitChar n)"
  by (simp add: isDigit_def of_char_digitChar)

lemma digitVal_digitChar [simp]: "n < 10 \<Longrightarrow> digitVal (digitChar n) = n"
  by (simp add: digitVal_def of_char_digitChar)

lemma digitChar_eval [simp]: "digitChar 0 = CHR ''0''" "digitChar (Suc 0) = CHR ''1''" "digitChar 1 = CHR ''1''" "digitChar 2 = CHR ''2''"
  "digitChar 3 = CHR ''3''" "digitChar 4 = CHR ''4''" "digitChar 5 = CHR ''5''" "digitChar 6 = CHR ''6''"
  "digitChar 7 = CHR ''7''" "digitChar 8 = CHR ''8''" "digitChar 9 = CHR ''9''"
  by (simp_all add: digitChar_def char_of_def bit_0)

lemma itoaNat_not_Nil [simp]: "itoaNat n \<noteq> []"
  by (subst itoaNat.simps) simp

lemma itoaNat_digits: "list_all isDigit (itoaNat n)"
proof (induction n rule: itoaNat.induct)
  case (1 n)
  show ?case
  proof (cases "n < 10")
    case True
    then show ?thesis by (subst itoaNat.simps) simp
  next
    case False
    then show ?thesis using 1 by (subst itoaNat.simps) simp
  qed
qed

lemma itoaNat_isDigit: "c \<in> set (itoaNat n) \<Longrightarrow> isDigit c"
  using itoaNat_digits by (auto simp: list_all_iff)

lemma parseDigits_append:
  "parseDigits acc (xs @ ys) = Option.bind (parseDigits acc xs) (\<lambda>a. parseDigits a ys)"
  by (induction xs arbitrary: acc) auto

lemma parseDigits_itoaNat: "parseDigits 0 (itoaNat n) = Some n"
proof (induction n rule: itoaNat.induct)
  case (1 n)
  show ?case
  proof (cases "n < 10")
    case True
    then show ?thesis by (subst itoaNat.simps) simp
  next
    case False
    with 1 have "parseDigits 0 (itoaNat (n div 10)) = Some (n div 10)" by blast
    with False show ?thesis
      by (subst itoaNat.simps) (simp add: parseDigits_append)
  qed
qed

lemma parseUint_itoaNat [simp]: "parseUint (itoaNat n) = Some n"
  by (simp add: parseUint_def parseDigits_itoaNat)

lemma not_isDigit_signs [simp]: "\<not> isDigit CHR ''-''" "\<not> isDigit CHR ''+''"
    "\<not> isDigit CHR '':''" "\<not> isDigit CHR ''.''" "\<not> isDigit CHR ''[''" "\<not> isDigit CHR '']''"
  by (simp_all add: isDigit_def)

lemma isDigit_not_space: "isDigit c \<Longrightarrow> \<not> isSpace c"
  by (auto simp: isDigit_def isSpace_def)

lemma itoaNat_Cons: "\<exists>c cs. itoaNat n = c # cs \<and> isDigit c"
  using itoaNat_digits [of n] itoaNat_not_Nil [of n] by (cases "itoaNat n") auto

lemma Atoi_itoaNat: "int n < 2 ^ 63 \<Longrightarrow> Atoi (itoaNat n) = Some (int n)"
proof -
  assume n: "int n < 2 ^ 63"
  obtain c cs where c: "itoaNat n = c # cs" "isDigit c" using itoaNat_Cons by blast
  have "c \<noteq> CHR ''-''" "c \<noteq> CHR ''+''" using c(2) by auto
  moreover have "parseUint (c # cs) = Some n" using parseUint_itoaNat [of n] c by simp
  ultimately show ?thesis using n c by (simp add: Atoi_def int64_ok_def)
qed

lemma Atoi_Itoa: "int64_ok i \<Longrightarrow> Atoi (Itoa i) = Some i"
proof (cases "i < 0")
  case True
  assume ok: "int64_ok i"
  with True show ?thesis by (simp add: Itoa_def Atoi_def)
next
  case False
  assume ok: "int64_ok i"
  with False have "Atoi (itoaNat (nat i)) = Some (int (nat i))"
    by (intro Atoi_itoaNat) (simp add: int64_ok_def)
  with False show ?thesis by (simp add: Itoa_def)
qed

lemma Itoa_chars: "c \<in> set (Itoa i) \<Longrightarrow> isDigit c \<or> c = CHR ''-''"
  by (auto simp: Itoa_def dest: itoaNat_isDigit split: if_splits)

lemma Itoa_nonneg_chars: "0 \<le> i \<Longrightarrow> c \<in> set (Itoa i) \<Longrightarrow> isDigit c"
  by (auto simp: Itoa_def dest: itoaNat_isDigit)

lemma Itoa_not_Nil [simp]: "Itoa i \<noteq> []"
  by (simp add: Itoa_def)

lemma itoaNat_inject: "itoaNat m = itoaNat n \<longleftrightarrow> m = n"
  by (metis option.inject parseUint_itoaNat)

lemma itoaNat_no_lead0: "length (itoaNat n) = 1 \<or> hd (itoaNat n) \<noteq> CHR ''0''"
proof (induction n rule: itoaNat.induct)
  case (1 n)
  show ?case
  proof (cases "n < 10")
    case True then show ?thesis by (subst (1) itoaNat.simps) simp
  next
    case False
    have "hd (itoaNat (n div 10)) \<noteq> CHR ''0''"
    proof (cases "n div 10 < 10")
      case True
      have "digitChar (n div 10) \<noteq> CHR ''0''"
      proof
        assume "digitChar (n div 10) = CHR ''0''"
        then have "n div 10 = digitVal CHR ''0''" using True by (metis digitVal_digitChar)
        then have "n div 10 = 0" by (simp add: digitVal_def)
        with False show False by simp
      qed
      with True show ?thesis by (subst itoaNat.simps) simp
    next
      case F2: False
      then have "length (itoaNat (n div 10)) \<noteq> 1" by (subst itoaNat.simps) simp
      with 1 False show ?thesis by blast
    qed
    with False show ?thesis by (subst (2) itoaNat.simps) simp
  qed
qed

subsection \<open>Searching and splitting\<close>

lemma hasPrefix_iff: "hasPrefix s p \<longleftrightarrow> take (length p) s = p"
  by (induction s p rule: hasPrefix.induct) auto

lemma hasPrefix_prefix: "hasPrefix s p \<longleftrightarrow> prefix p s"
  by (induction s p rule: hasPrefix.induct) auto

lemma hasPrefix_append [simp]: "hasPrefix (p @ s) p"
  by (simp add: hasPrefix_prefix)

lemma contains_iff: "contains s sub \<longleftrightarrow> sublist sub s"
  by (induction s) (auto simp: hasPrefix_prefix sublist_Cons_right)

lemma cut_Some: "cut s sep = Some (a, b) \<Longrightarrow> s = a @ sep @ b"
  by (induction s arbitrary: a) (auto simp: hasPrefix_prefix prefix_def split: if_splits)

lemma cut_None: "cut s sep = None \<longleftrightarrow> \<not> contains s sep"
  by (induction s) (auto simp: hasPrefix_iff)

lemma cut_char: "c \<notin> set a \<Longrightarrow> cut (a @ c # b) [c] = Some (a, b)"
  by (induction a) auto

lemma splitOn_not_Nil [simp]: "splitOn sep s \<noteq> []"
  by (cases s) (auto split: list.splits)

lemma splitOn_no_sep: "w \<in> set (splitOn sep s) \<Longrightarrow> sep \<notin> set w"
  by (induction s arbitrary: w) (auto split: if_splits list.splits)

lemma splitOn_append: "sep \<notin> set a \<Longrightarrow> splitOn sep (a @ sep # b) = a # splitOn sep b"
  by (induction a) auto

lemma splitOn_single: "sep \<notin> set a \<Longrightarrow> splitOn sep a = [a]"
  by (induction a) auto

lemma fieldsAcc_word: "list_all (\<lambda>c. \<not> isSpace c) w \<Longrightarrow> fieldsAcc acc (w @ s) = fieldsAcc (rev w @ acc) s"
  by (induction w arbitrary: acc) auto

lemma isSpace_blank [simp]: "isSpace CHR '' ''"
  by (simp add: isSpace_def)

lemma strFields_Cons_word:
  assumes "list_all (\<lambda>c. \<not> isSpace c) w" "w \<noteq> []"
  shows "strFields (w @ CHR '' '' # s) = w # strFields s"
  using assms by (simp add: strFields_def fieldsAcc_word)

lemma strFields_word:
  assumes "list_all (\<lambda>c. \<not> isSpace c) w" "w \<noteq> []"
  shows "strFields w = [w]"
  using fieldsAcc_word [of w "[]" "[]"] assms by (simp add: strFields_def)

lemma fieldsAcc_no_space:
  "list_all (\<lambda>c. \<not> isSpace c) acc \<Longrightarrow> w \<in> set (fieldsAcc acc s) \<Longrightarrow> w \<noteq> [] \<and> list_all (\<lambda>c. \<not> isSpace c) w"
  by (induction acc s rule: fieldsAcc.induct) (auto split: if_splits)

lemma strFields_no_space: "w \<in> set (strFields s) \<Longrightarrow> w \<noteq> [] \<and> list_all (\<lambda>c. \<not> isSpace c) w"
  unfolding strFields_def by (rule fieldsAcc_no_space) auto

lemma trimSpace_no_space: "list_all (\<lambda>c. \<not> isSpace c) s \<Longrightarrow> trimSpace s = s"
proof -
  assume s: "list_all (\<lambda>c. \<not> isSpace c) s"
  then have "dropWhile isSpace s = s" by (cases s) auto
  moreover from s have "dropWhile isSpace (rev s) = rev s" by (cases s rule: rev_cases) auto
  ultimately show ?thesis by (simp add: trimSpace_def)
qed

end
