(* ===== verification/Go_Net.thy ===== *)
theory Go_Net
  imports Go_Strings
begin

unbundle bit_operations_syntax

text \<open>
  What the sources use of Go's \<open>net\<close> and \<open>net/netip\<close> packages.  A \<open>net.IP\<close> is a byte slice of
  length 4 or 16 (\<open>[]\<close> is nil), a \<open>net.IPNet\<close> a pair of slices, a \<open>netip.Prefix\<close> an address
  with a bit count.  \<open>ipBits\<close> reads an address as its bits, most significant first; membership
  in a network is equality of the leading bits (\<open>Contains_inNet\<close> of \<open>Router_Networks\<close>).
  \<open>SplitHostPort\<close> inverts \<open>JoinHostPort\<close> (\<open>SplitHostPort_JoinHostPort\<close>), and a printed IPv4
  address parses back (\<open>ParseIP_IPv4_String\<close>).
\<close>

type_synonym IP = bytes

definition v4InV6Prefix :: bytes where
  "v4InV6Prefix = replicate 10 0 @ [0xff, 0xff]"

definition To4 :: "IP \<Rightarrow> IP" where
  "To4 ip = (if length ip = 4 then ip
             else if length ip = 16 \<and> take 12 ip = v4InV6Prefix then drop 12 ip else [])"

definition To16 :: "IP \<Rightarrow> IP" where
  "To16 ip = (if length ip = 4 then v4InV6Prefix @ ip else if length ip = 16 then ip else [])"

definition byteBits :: "byte \<Rightarrow> bool list" where
  "byteBits b = map (\<lambda>i. bit b (7 - i)) [0..<8]"

definition ipBits :: "bytes \<Rightarrow> bool list" where
  "ipBits ip = concat (map byteBits ip)"

subsection \<open>Printing\<close>

definition hexChar :: "nat \<Rightarrow> char" where
  "hexChar n = (if n < 10 then char_of (48 + n) else char_of (87 + n))"

definition isHex :: "char \<Rightarrow> bool" where
  "isHex c \<longleftrightarrow> isDigit c \<or> (97 \<le> (of_char c :: nat) \<and> (of_char c :: nat) \<le> 102)"

fun hexNat :: "nat \<Rightarrow> string" where
  "hexNat n = (if n < 16 then [hexChar n] else hexNat (n div 16) @ [hexChar (n mod 16)])"

declare hexNat.simps [simp del]

fun ip6Groups :: "bytes \<Rightarrow> nat list" where
  "ip6Groups (a # b # bs) = (256 * unat a + unat b) # ip6Groups bs"
| "ip6Groups _ = []"

definition zeroRunAt :: "nat list \<Rightarrow> nat \<Rightarrow> nat" where
  "zeroRunAt gs i = length (takeWhile (\<lambda>g. g = 0) (drop i gs))"

definition zeroRun :: "nat list \<Rightarrow> (nat \<times> nat) option" where
  "zeroRun gs = fold (\<lambda>i best. let l = zeroRunAt gs i in
       if 2 \<le> l \<and> (case best of None \<Rightarrow> True | Some (s, e) \<Rightarrow> e - s < l) then Some (i, i + l) else best)
     [0..<length gs] None"

fun joinStr :: "string \<Rightarrow> string list \<Rightarrow> string" where
  "joinStr sep [] = []"
| "joinStr sep [w] = w"
| "joinStr sep (w # ws) = w @ sep @ joinStr sep ws"

definition ip6String :: "bytes \<Rightarrow> string" where
  "ip6String ip = (let gs = ip6Groups ip in case zeroRun gs of
       None \<Rightarrow> joinStr '':'' (map hexNat gs)
     | Some (s, e) \<Rightarrow> joinStr '':'' (map hexNat (take s gs)) @ ''::'' @ joinStr '':'' (map hexNat (drop e gs)))"

definition ip4String :: "bytes \<Rightarrow> string" where
  "ip4String ip = joinStr ''.'' (map (\<lambda>b. itoaNat (unat b)) ip)"

definition IP_String :: "IP \<Rightarrow> string" where
  "IP_String ip = (if ip = [] then ''<nil>''
     else if To4 ip \<noteq> [] then ip4String (To4 ip)
     else if length ip = 16 then ip6String ip
     else ''?'' @ concat (map (\<lambda>b. [hexChar (unat b div 16), hexChar (unat b mod 16)]) ip))"

subsection \<open>Host and port\<close>

definition JoinHostPort :: "string \<Rightarrow> string \<Rightarrow> string" where
  "JoinHostPort host port =
     (if CHR '':'' \<in> set host then ''['' @ host @ '']:'' @ port else host @ '':'' @ port)"

definition SplitHostPort :: "string \<Rightarrow> (string \<times> string) option" where
  "SplitHostPort hp = (case lastIndex CHR '':'' hp of
       None \<Rightarrow> None
     | Some i \<Rightarrow>
        if hp ! 0 = CHR ''['' then
          (case cut hp '']'' of
             None \<Rightarrow> None
           | Some (pre, rest) \<Rightarrow>
               let end = length pre in
               if Suc end = i \<and> CHR ''['' \<notin> set (drop 1 hp) \<and> CHR '']'' \<notin> set (drop (Suc end) hp)
               then Some (take (end - 1) (drop 1 hp), drop (Suc i) hp) else None)
        else
          (let host = take i hp in
           if CHR '':'' \<in> set host \<or> CHR ''['' \<in> set hp \<or> CHR '']'' \<in> set hp then None
           else Some (host, drop (Suc i) hp)))"

record UDPAddr =
  ua_IP :: IP
  ua_Port :: int
  ua_Zone :: string

definition UDPAddr_String :: "UDPAddr \<Rightarrow> string" where
  "UDPAddr_String a =
     (let ip = (if ua_IP a = [] then [] else IP_String (ua_IP a)) in
      if ua_Zone a \<noteq> [] then JoinHostPort (ip @ ''%'' @ ua_Zone a) (Itoa (ua_Port a))
      else JoinHostPort ip (Itoa (ua_Port a)))"

subsection \<open>Networks and address classes\<close>

record IPNet =
  n_IP :: IP
  n_Mask :: bytes

definition MaskSize :: "bytes \<Rightarrow> nat \<times> nat" where
  "MaskSize m = (let bs = ipBits m; k = length (takeWhile id bs) in
     if list_all Not (drop k bs) then (k, length bs) else (0, 0))"

definition networkNumberAndMask :: "IPNet \<Rightarrow> bytes \<times> bytes" where
  "networkNumberAndMask n =
     (let ip = (if To4 (n_IP n) \<noteq> [] then To4 (n_IP n) else n_IP n); m = n_Mask n in
      if To4 (n_IP n) = [] \<and> length ip \<noteq> 16 then ([], [])
      else if length m = 4 then (if length ip \<noteq> 4 then ([], []) else (ip, m))
      else if length m = 16 then (if length ip = 4 then (ip, drop 12 m) else (ip, m))
      else ([], []))"

definition IPNet_Contains :: "IPNet \<Rightarrow> IP \<Rightarrow> bool" where
  "IPNet_Contains n ip =
     (let (nn, m) = networkNumberAndMask n; ip' = (if To4 ip \<noteq> [] then To4 ip else ip) in
      length ip' = length nn \<and>
      list_all (\<lambda>i. nn ! i AND m ! i = ip' ! i AND m ! i) [0..<length nn])"

definition IsLoopback :: "IP \<Rightarrow> bool" where
  "IsLoopback ip = (if To4 ip \<noteq> [] then To4 ip ! 0 = 127 else ip = replicate 15 0 @ [1])"

definition IsPrivate :: "IP \<Rightarrow> bool" where
  "IsPrivate ip = (if To4 ip \<noteq> [] then
       (let a = To4 ip in a ! 0 = 10 \<or> (a ! 0 = 172 \<and> a ! 1 AND 0xf0 = 16) \<or> (a ! 0 = 192 \<and> a ! 1 = 168))
     else length ip = 16 \<and> ip ! 0 AND 0xfe = 0xfc)"

definition IsMulticast :: "IP \<Rightarrow> bool" where
  "IsMulticast ip = (if To4 ip \<noteq> [] then To4 ip ! 0 AND 0xf0 = 0xe0 else length ip = 16 \<and> ip ! 0 = 0xff)"

definition IsLinkLocalUnicast :: "IP \<Rightarrow> bool" where
  "IsLinkLocalUnicast ip = (if To4 ip \<noteq> [] then To4 ip ! 0 = 169 \<and> To4 ip ! 1 = 254
     else length ip = 16 \<and> ip ! 0 = 0xfe \<and> ip ! 1 AND 0xc0 = 0x80)"

definition IsUnspecified :: "IP \<Rightarrow> bool" where
  "IsUnspecified ip \<longleftrightarrow> To4 ip = [0, 0, 0, 0] \<or> ip = replicate 16 0"

definition IsGlobalUnicast :: "IP \<Rightarrow> bool" where
  "IsGlobalUnicast ip \<longleftrightarrow> (length ip = 4 \<or> length ip = 16) \<and> To4 ip \<noteq> [255, 255, 255, 255] \<and>
     \<not> IsUnspecified ip \<and> \<not> IsLoopback ip \<and> \<not> IsMulticast ip \<and> \<not> IsLinkLocalUnicast ip"

subsection \<open>Parsing\<close>

definition parseOctet :: "string \<Rightarrow> byte option" where
  "parseOctet w = (case parseUint w of
       None \<Rightarrow> None
     | Some n \<Rightarrow> if n \<le> 255 \<and> (length w = 1 \<or> hd w \<noteq> CHR ''0'') then Some (of_nat n) else None)"

fun optAll :: "'a option list \<Rightarrow> 'a list option" where
  "optAll [] = Some []"
| "optAll (None # xs) = None"
| "optAll (Some x # xs) = map_option (Cons x) (optAll xs)"

definition parseIPv4 :: "string \<Rightarrow> bytes option" where
  "parseIPv4 s = (let ws = splitOn CHR ''.'' s in
     if length ws = 4 then optAll (map parseOctet ws) else None)"

definition hexVal :: "char \<Rightarrow> nat option" where
  "hexVal c = (let n = (of_char c :: nat) in
     if 48 \<le> n \<and> n \<le> 57 then Some (n - 48)
     else if 97 \<le> n \<and> n \<le> 102 then Some (n - 87)
     else if 65 \<le> n \<and> n \<le> 70 then Some (n - 55) else None)"

definition hexGroup :: "string \<Rightarrow> nat" where
  "hexGroup w = fold (\<lambda>c acc. 16 * acc + the (hexVal c)) w 0"

definition putGroup :: "nat \<Rightarrow> bytes" where
  "putGroup g = [of_nat (g div 256), of_nat (g mod 256)]"

text \<open>
  The loop of \<open>netip.parseIPv6\<close>: \<open>ip\<close> holds the bytes read so far, \<open>ell\<close> the position of a
  \<open>::\<close>; each round reads one group, so the remaining input shrinks.
\<close>

function parseIPv6Loop :: "bytes \<Rightarrow> nat option \<Rightarrow> string \<Rightarrow> (bytes \<times> nat option) option" where
  "parseIPv6Loop ip ell s =
     (if 16 \<le> length ip then (if s = [] then Some (ip, ell) else None)
      else
        let w = takeWhile (\<lambda>c. hexVal c \<noteq> None) s; rest = dropWhile (\<lambda>c. hexVal c \<noteq> None) s in
        if w = [] \<or> 4 < length w then None
        else if rest \<noteq> [] \<and> hd rest = CHR ''.'' then
          (if (ell = None \<and> length ip \<noteq> 12) \<or> 12 < length ip then None
           else map_option (\<lambda>b. (ip @ b, ell)) (parseIPv4 s))
        else
          let ip' = ip @ putGroup (hexGroup w) in
          (case rest of
             [] \<Rightarrow> Some (ip', ell)
           | c # r \<Rightarrow>
               if c \<noteq> CHR '':'' \<or> r = [] then None
               else if hd r = CHR '':'' then
                 (if ell \<noteq> None then None
                  else if tl r = [] then Some (ip', Some (length ip'))
                  else parseIPv6Loop ip' (Some (length ip')) (tl r))
               else parseIPv6Loop ip' ell r))"
  by pat_completeness auto
termination
proof (relation "measure (\<lambda>(ip, ell, s). length s)", goal_cases)
  case 1
  then show ?case by simp
next
  case (2 ip ell s w rest ip' c r)
  then have "Suc (length r) \<le> length s"
    using length_dropWhile_le [of "\<lambda>c. hexVal c \<noteq> None" s] by (metis length_Cons)
  then show ?case by (cases r) auto
next
  case (3 ip ell s w rest ip' c r)
  then have "Suc (length r) \<le> length s"
    using length_dropWhile_le [of "\<lambda>c. hexVal c \<noteq> None" s] by (metis length_Cons)
  then show ?case by auto
qed

declare parseIPv6Loop.simps [simp del]

definition parseIPv6 :: "string \<Rightarrow> bytes option" where
  "parseIPv6 s =
     (let (ell, t) = (if hasPrefix s ''::'' then (Some 0, drop 2 s) else (None, s)) in
      if ell = Some 0 \<and> t = [] then Some (replicate 16 0)
      else case parseIPv6Loop [] ell t of
        None \<Rightarrow> None
      | Some (ip, ell') \<Rightarrow>
          if length ip < 16 then
            (case ell' of None \<Rightarrow> None
             | Some e \<Rightarrow> Some (take e ip @ replicate (16 - length ip) 0 @ drop e ip))
          else if ell' \<noteq> None then None else Some ip)"

text \<open>
  \<open>netip.ParseAddr\<close> for the callers below, all of which reject an address with a zone.
\<close>

definition ParseAddr :: "string \<Rightarrow> bytes option" where
  "ParseAddr s =
     (case find (\<lambda>c. c = CHR ''.'' \<or> c = CHR '':'' \<or> c = CHR ''%'') s of
        None \<Rightarrow> None
      | Some c \<Rightarrow> if c = CHR ''.'' then parseIPv4 s
                 else if c = CHR '':'' \<and> CHR ''%'' \<notin> set s then parseIPv6 s else None)"

definition ParseIP :: "string \<Rightarrow> IP" where
  "ParseIP s = (case ParseAddr s of None \<Rightarrow> [] | Some b \<Rightarrow> To16 b)"

definition CIDRMask :: "nat \<Rightarrow> nat \<Rightarrow> bytes" where
  "CIDRMask n len = map (\<lambda>i. if 8 * i + 8 \<le> n then 0xff
     else if n \<le> 8 * i then 0 else NOT (mask (8 - (n - 8 * i)))) [0..<len]"

definition MaskIP :: "bytes \<Rightarrow> bytes \<Rightarrow> bytes" where
  "MaskIP m ip = map2 (AND) ip m"

definition ParseCIDR :: "string \<Rightarrow> (IP \<times> IPNet) option" where
  "ParseCIDR s = (case cut s ''/'' of None \<Rightarrow> None | Some (a, ms) \<Rightarrow>
     (case ParseAddr a of None \<Rightarrow> None | Some ip \<Rightarrow>
       (case parseUint ms of None \<Rightarrow> None | Some n \<Rightarrow>
         if n \<le> 8 * length ip then
           (let m = CIDRMask n (length ip) in Some (To16 ip, \<lparr>n_IP = MaskIP m ip, n_Mask = m\<rparr>))
         else None)))"

record Prefix =
  pfx_addr :: bytes
  pfx_bits :: nat

definition ParsePrefix :: "string \<Rightarrow> Prefix option" where
  "ParsePrefix s = (case lastIndex CHR ''/'' s of None \<Rightarrow> None | Some i \<Rightarrow>
     (case ParseAddr (take i s) of None \<Rightarrow> None | Some ip \<Rightarrow>
       (let bs = drop (Suc i) s in
        if 1 < length bs \<and> (\<not> isDigit (hd bs) \<or> hd bs = CHR ''0'') then None
        else case Atoi bs of None \<Rightarrow> None
        | Some n \<Rightarrow> if 0 \<le> n \<and> n \<le> int (8 * length ip)
                    then Some \<lparr>pfx_addr = ip, pfx_bits = nat n\<rparr> else None)))"

definition Prefix_Masked :: "Prefix \<Rightarrow> Prefix" where
  "Prefix_Masked p = p\<lparr>pfx_addr := MaskIP (CIDRMask (pfx_bits p) (length (pfx_addr p))) (pfx_addr p)\<rparr>"

definition Prefix_Contains :: "Prefix \<Rightarrow> bytes \<Rightarrow> bool" where
  "Prefix_Contains p ip \<longleftrightarrow> length ip = length (pfx_addr p) \<and>
     take (pfx_bits p) (ipBits ip) = take (pfx_bits p) (ipBits (pfx_addr p))"

definition Unmap :: "bytes \<Rightarrow> bytes" where
  "Unmap ip = (if To4 ip \<noteq> [] then To4 ip else ip)"

subsection \<open>Facts\<close>

lemma lastIndex_append:
  assumes "c \<notin> set b"
  shows "lastIndex c (a @ c # b) = Some (length a)"
proof -
  let ?s = "a @ c # b"
  have up: "[0..<length ?s] = [0..<length a] @ length a # [Suc (length a)..<length ?s]"
    using upt_add_eq_append [of 0 "length a" "Suc (length b)"] by (simp add: upt_conv_Cons del: upt_Suc)
  have none: "filter (\<lambda>i. ?s ! i = c) [Suc (length a)..<length ?s] = []"
  proof (rule filter_False, rule ballI)
    fix i assume "i \<in> set [Suc (length a)..<length ?s]"
    then have "?s ! i = b ! (i - Suc (length a))" "i - Suc (length a) < length b"
      by (auto simp: nth_append nth_Cons' simp del: upt_Suc)
    then show "\<not> ?s ! i = c" using assms by auto
  qed
  have "filter (\<lambda>i. ?s ! i = c) (rev [0..<length ?s])
      = rev (filter (\<lambda>i. ?s ! i = c) [0..<length ?s])"
    by (simp only: rev_filter)
  also have "filter (\<lambda>i. ?s ! i = c) [0..<length ?s] = filter (\<lambda>i. ?s ! i = c) [0..<length a] @ [length a]"
    unfolding up by (simp only: filter_append filter.simps none) simp
  finally have "filter (\<lambda>i. ?s ! i = c) (rev [0..<length ?s])
      = length a # rev (filter (\<lambda>i. ?s ! i = c) [0..<length a])" by simp
  then show ?thesis by (simp add: lastIndex_def)
qed

lemma SplitHostPort_JoinHostPort:
  assumes "CHR ''['' \<notin> set h" "CHR '']'' \<notin> set h"
    and "CHR '':'' \<notin> set p" "CHR ''['' \<notin> set p" "CHR '']'' \<notin> set p"
  shows "SplitHostPort (JoinHostPort h p) = Some (h, p)"
proof (cases "CHR '':'' \<in> set h")
  case True
  let ?s = "''['' @ h @ '']:'' @ p"
  have "lastIndex CHR '':'' ((''['' @ h @ '']'') @ CHR '':'' # p) = Some (length (''['' @ h @ '']''))"
    by (rule lastIndex_append) (rule assms)
  then have li: "lastIndex CHR '':'' ?s = Some (length h + 2)" by simp
  have "cut ((CHR ''['' # h) @ CHR '']'' # '':'' @ p) [CHR '']''] = Some (CHR ''['' # h, '':'' @ p)"
    by (rule cut_char) (use assms in auto)
  then have ct: "cut ?s '']'' = Some (CHR ''['' # h, '':'' @ p)" by simp
  show ?thesis using True assms li ct
    by (simp add: SplitHostPort_def JoinHostPort_def)
next
  case False
  have "lastIndex CHR '':'' (h @ CHR '':'' # p) = Some (length h)"
    by (rule lastIndex_append) (rule assms)
  moreover have "(h @ CHR '':'' # p) ! 0 \<noteq> CHR ''[''"
    using assms by (cases h) auto
  ultimately show ?thesis using False assms
    by (simp add: SplitHostPort_def JoinHostPort_def)
qed

lemma joinStr_chars: "c \<in> set (joinStr sep ws) \<Longrightarrow> c \<in> set sep \<or> (\<exists>w \<in> set ws. c \<in> set w)"
  by (induction sep ws rule: joinStr.induct) auto

lemma ip4String_chars: "c \<in> set (ip4String ip) \<Longrightarrow> isDigit c \<or> c = CHR ''.''"
  unfolding ip4String_def by (drule joinStr_chars) (auto dest: itoaNat_isDigit)

lemma hexNat_chars: "c \<in> set (hexNat n) \<Longrightarrow> isHex c"
proof (induction n rule: hexNat.induct)
  case (1 n)
  have h: "isHex (hexChar m)" if "m < 16" for m
    using that by (auto simp: isHex_def hexChar_def isDigit_def)
  show ?case using 1 h by (subst (asm) hexNat.simps) (auto split: if_splits)
qed

lemma ip6String_chars: "c \<in> set (ip6String ip) \<Longrightarrow> isHex c \<or> c = CHR '':''"
  by (auto simp: ip6String_def Let_def split: option.splits dest!: joinStr_chars dest: hexNat_chars)

lemma not_isHex [simp]: "\<not> isHex CHR ''-''" "\<not> isHex CHR ''[''" "\<not> isHex CHR '']''" "\<not> isHex CHR ''.''" "\<not> isHex CHR '' ''" "\<not> isHex CHR '':''"
  by (simp_all add: isHex_def isDigit_def)

lemma word_and_eq_iff: fixes a :: byte shows "a AND m = b AND m \<longleftrightarrow> (\<forall>i<8. bit m i \<longrightarrow> bit a i = bit b i)"
  by (auto simp: bit_eq_iff bit_and_iff)

lemma length_byteBits [simp]: "length (byteBits b) = 8" by (simp add: byteBits_def)

lemma length_ipBits [simp]: "length (ipBits ip) = 8 * length ip"
  by (induction ip) (auto simp: ipBits_def)

lemma ipBits_Cons: "ipBits (b # bs) = byteBits b @ ipBits bs" by (simp add: ipBits_def)
lemma ipBits_append: "ipBits (xs @ ys) = ipBits xs @ ipBits ys" by (simp add: ipBits_def)

lemma ipBits_nth: "i < 8 * length ip \<Longrightarrow> ipBits ip ! i = bit (ip ! (i div 8)) (7 - i mod 8)"
proof (induction ip arbitrary: i)
  case Nil then show ?case by simp
next
  case (Cons b bs)
  show ?case
  proof (cases "i < 8")
    case True then show ?thesis by (simp add: ipBits_Cons nth_append byteBits_def)
  next
    case False
    then have "i div 8 = Suc ((i - 8) div 8)" "i mod 8 = (i - 8) mod 8" by (simp_all add: le_div_geq le_mod_geq)
    with False Cons show ?thesis by (simp add: ipBits_Cons nth_append)
  qed
qed

lemma optAll_map_Some: "(\<And>x. x \<in> set xs \<Longrightarrow> f x = Some (g x)) \<Longrightarrow> optAll (map f xs) = Some (map g xs)"
  by (induction xs) auto

lemma parseOctet_itoaNat: "parseOctet (itoaNat (unat (b :: byte))) = Some b"
proof -
  have "unat b < 2 ^ LENGTH(8)" by (rule unsigned_less)
  then have "unat b \<le> 255" by simp
  then show ?thesis using itoaNat_no_lead0 [of "unat b"] by (auto simp: parseOctet_def)
qed

lemma splitOn_joinStr:
  "(\<And>w. w \<in> set ws \<Longrightarrow> c \<notin> set w) \<Longrightarrow> ws \<noteq> [] \<Longrightarrow> splitOn c (joinStr [c] ws) = ws"
proof (induction "[c]" ws rule: joinStr.induct)
  case (3 w v vs)
  then show ?case using splitOn_append [of c w] by simp
qed (auto simp: splitOn_single)

lemma parseIPv4_ip4String: "length ip = 4 \<Longrightarrow> parseIPv4 (ip4String ip) = Some ip"
proof -
  assume l: "length ip = 4"
  let ?ws = "map (\<lambda>b. itoaNat (unat b)) ip"
  have "splitOn CHR ''.'' (ip4String ip) = ?ws"
    unfolding ip4String_def by (rule splitOn_joinStr) (use l in \<open>auto dest: itoaNat_isDigit\<close>)
  moreover have "optAll (map parseOctet ?ws) = Some (map id ip)"
    unfolding map_map by (rule optAll_map_Some) (simp add: parseOctet_itoaNat)
  ultimately show ?thesis using l by (simp add: parseIPv4_def)
qed

lemma find_first: "(\<And>x. x \<in> set a \<Longrightarrow> \<not> P x) \<Longrightarrow> P c \<Longrightarrow> find P (a @ c # b) = Some c"
  by (induction a) auto

lemma ip4String_inject:
  "length a = 4 \<Longrightarrow> length b = 4 \<Longrightarrow> ip4String a = ip4String b \<longleftrightarrow> a = b"
  by (metis option.inject parseIPv4_ip4String)

lemma ParseIP_IPv4_String: "length ip = 4 \<Longrightarrow> ParseIP (IP_String ip) = v4InV6Prefix @ ip"
proof -
  assume l: "length ip = 4"
  then obtain a rest where ip: "ip = a # rest" "rest \<noteq> []" by (cases ip; cases "tl ip") auto
  then have s: "IP_String ip = itoaNat (unat a) @ CHR ''.'' # joinStr ''.'' (map (\<lambda>b. itoaNat (unat b)) rest)"
    using l by (cases rest) (auto simp: IP_String_def To4_def ip4String_def)
  have "find (\<lambda>c. c = CHR ''.'' \<or> c = CHR '':'' \<or> c = CHR ''%'') (IP_String ip) = Some CHR ''.''"
    unfolding s by (rule find_first) (auto dest: itoaNat_isDigit simp: isDigit_def)
  then have "ParseAddr (IP_String ip) = parseIPv4 (IP_String ip)" by (simp add: ParseAddr_def)
  then show ?thesis using l parseIPv4_ip4String [OF l] ip
    by (simp add: ParseIP_def IP_String_def To4_def To16_def)
qed

lemma take_eq_iff: "length xs = length ys \<Longrightarrow> n \<le> length xs \<Longrightarrow> take n xs = take n ys \<longleftrightarrow> (\<forall>i<n. xs ! i = ys ! i)"
  by (auto simp: list_eq_iff_nth_eq)

lemma MaskSize_bits:
  assumes "MaskSize m = (k, 8 * length m)" "m \<noteq> []" "i < 8 * length m"
  shows "k \<le> 8 * length m" "ipBits m ! i \<longleftrightarrow> i < k"
proof -
  let ?k = "length (takeWhile id (ipBits m))"
  from assms have k: "k = ?k" and r: "list_all Not (drop ?k (ipBits m))"
    by (auto simp: MaskSize_def Let_def split: if_splits)
  show "k \<le> 8 * length m" using k length_takeWhile_le [of id "ipBits m"] by simp
  show "ipBits m ! i \<longleftrightarrow> i < k"
  proof (cases "i < k")
    case True
    then have "ipBits m ! i = takeWhile id (ipBits m) ! i" using k by (simp add: takeWhile_nth)
    moreover have "takeWhile id (ipBits m) ! i" using True k by (metis nth_mem set_takeWhileD id_apply)
    ultimately show ?thesis using True by simp
  next
    case False
    then have "drop ?k (ipBits m) ! (i - ?k) = ipBits m ! i"
      using k length_takeWhile_le [of id "ipBits m"] by (subst nth_drop) auto
    moreover have "i - ?k < length (drop ?k (ipBits m))" using False k assms(3) by simp
    ultimately show ?thesis using r False by (metis list_all_length)
  qed
qed

lemma masked_eq_iff:
  assumes "length a = length m" "length b = length m" "MaskSize m = (k, 8 * length m)" "m \<noteq> []"
  shows "list_all (\<lambda>i. a ! i AND m ! i = b ! i AND m ! i) [0..<length m]
      \<longleftrightarrow> take k (ipBits a) = take k (ipBits b)"
proof -
  have kle: "k \<le> 8 * length m" using MaskSize_bits(1) [OF assms(3,4), of 0] assms(4) by simp
  have mb: "bit (m ! (i div 8)) (7 - i mod 8) \<longleftrightarrow> i < k" if "i < 8 * length m" for i
    using MaskSize_bits(2) [OF assms(3,4) that] ipBits_nth [OF that] by simp
  have "(\<forall>i<length m. a ! i AND m ! i = b ! i AND m ! i)
     \<longleftrightarrow> (\<forall>i<8 * length m. bit (m ! (i div 8)) (7 - i mod 8) \<longrightarrow>
            bit (a ! (i div 8)) (7 - i mod 8) = bit (b ! (i div 8)) (7 - i mod 8))" (is "?L \<longleftrightarrow> ?R")
  proof
    assume L: ?L
    show ?R
    proof (intro allI impI)
      fix i assume i: "i < 8 * length m" "bit (m ! (i div 8)) (7 - i mod 8)"
      then have "i div 8 < length m" by auto
      with L have "a ! (i div 8) AND m ! (i div 8) = b ! (i div 8) AND m ! (i div 8)" by blast
      then show "bit (a ! (i div 8)) (7 - i mod 8) = bit (b ! (i div 8)) (7 - i mod 8)"
        using i(2) by (simp add: word_and_eq_iff)
    qed
  next
    assume R: ?R
    show ?L
    proof (intro allI impI)
      fix j assume j: "j < length m"
      show "a ! j AND m ! j = b ! j AND m ! j"
        unfolding word_and_eq_iff
      proof (intro allI impI)
        fix n :: nat assume n: "n < 8" "bit (m ! j) n"
        let ?i = "8 * j + (7 - n)"
        have "?i mod 8 = (7 - n) mod 8" by (rule mod_mult_self4)
        then have "?i mod 8 = 7 - n" by simp
        moreover have "?i div 8 = j" "7 - (7 - n) = n" using n by auto
        moreover have "?i < 8 * length m" using j n by auto
        ultimately show "bit (a ! j) n = bit (b ! j) n" using R n(2) by metis
      qed
    qed
  qed
  also have "?R \<longleftrightarrow> (\<forall>i<k. ipBits a ! i = ipBits b ! i)"
    using kle mb assms(1,2) by (auto simp: ipBits_nth)
  also have "\<dots> \<longleftrightarrow> take k (ipBits a) = take k (ipBits b)"
    using kle assms(1,2) by (subst take_eq_iff) auto
  finally show ?thesis by (auto simp: list_all_iff)
qed

end
