(* ===== verification/WG_Device.thy ===== *)
theory WG_Device
  imports Go_Net
begin

text \<open>
  The WireGuard control interface the program calls (\<open>wgctrl\<close>, a package of its own) as a parameter:
  \<open>Device\<close> lists the peers of the interface or fails, \<open>ConfigureDevice\<close> applies one peer entry or
  fails.  A key is the 32 bytes of \<open>wgtypes.Key\<close>; \<open>ParseKey\<close> and \<open>KeyString\<close> are its two conversions.

  \<open>wg_laws\<close> states what the program relies on, over an abstraction \<open>peers\<close> of the device to the set
  of its peers: reading changes nothing and lists the peers, a configuration that succeeds adds or
  removes the one peer it names, a printed key parses back.  \<open>tableDevice\<close> is a device kept as a list
  that obeys the laws; it serves the concrete evaluations only.
\<close>

type_synonym Key = bytes

record wgPeer =
  wp_PublicKey :: Key
  wp_AllowedIPs :: "IPNet list"
  wp_ReceiveBytes :: "64 word"
  wp_TransmitBytes :: "64 word"

record PeerConfig =
  pc_PublicKey :: Key
  pc_Remove :: bool
  pc_AllowedIPs :: "IPNet list"

record 'w wgClient =
  Device :: "'w \<Rightarrow> wgPeer list option \<times> 'w"
  ConfigureDevice :: "PeerConfig \<Rightarrow> 'w \<Rightarrow> bool \<times> 'w"
  ParseKey :: "string \<Rightarrow> Key option"
  KeyString :: "Key \<Rightarrow> string"

definition wg_laws :: "'w wgClient \<Rightarrow> ('w \<Rightarrow> Key set) \<Rightarrow> bool" where
  "wg_laws c peers \<longleftrightarrow>
     (\<forall>w. peers (snd (Device c w)) = peers w) \<and>
     (\<forall>w ps. fst (Device c w) = Some ps \<longrightarrow> set (map wp_PublicKey ps) = peers w) \<and>
     (\<forall>w pc. fst (ConfigureDevice c pc w) \<longrightarrow>
        peers (snd (ConfigureDevice c pc w)) =
          (if pc_Remove pc then peers w - {pc_PublicKey pc} else insert (pc_PublicKey pc) (peers w))) \<and>
     (\<forall>k. ParseKey c (KeyString c k) = Some k)"

text \<open>A device kept as a list of peers, with keys written as the text of their bytes.\<close>

definition tableDevice :: "wgPeer list wgClient" where
  "tableDevice = \<lparr>
     Device = (\<lambda>ps. (Some ps, ps)),
     ConfigureDevice = (\<lambda>pc ps.
       (True, if pc_Remove pc then filter (\<lambda>p. wp_PublicKey p \<noteq> pc_PublicKey pc) ps
              else if pc_PublicKey pc \<in> set (map wp_PublicKey ps)
              then map (\<lambda>p. if wp_PublicKey p = pc_PublicKey pc
                            then p\<lparr>wp_AllowedIPs := wp_AllowedIPs p @ pc_AllowedIPs pc\<rparr> else p) ps
              else ps @ [\<lparr>wp_PublicKey = pc_PublicKey pc, wp_AllowedIPs = pc_AllowedIPs pc,
                          wp_ReceiveBytes = 0, wp_TransmitBytes = 0\<rparr>])),
     ParseKey = (\<lambda>s. case s of [] \<Rightarrow> None | c # cs \<Rightarrow> if c = CHR ''k'' then Some (map (\<lambda>c. of_nat (of_char c)) cs) else None),
     KeyString = (\<lambda>k. CHR ''k'' # map (\<lambda>b. char_of (unat b)) k)\<rparr>"

lemma key_char_round: "(of_nat (unat (b :: byte) mod 256) :: byte) = b"
proof -
  have "unat b < 256" using unsigned_less [of b] by simp
  then show ?thesis by simp
qed

lemma tableKey_round: "ParseKey tableDevice (KeyString tableDevice k) = Some k"
  by (simp add: tableDevice_def o_def key_char_round)

lemma keys_map_update: "set (map wp_PublicKey (map (\<lambda>p. if P p then p\<lparr>wp_AllowedIPs := f p\<rparr> else p) ps)) = set (map wp_PublicKey ps)"
  by (induction ps) auto

lemma tableDevice_configure:
  "set (map wp_PublicKey (snd (ConfigureDevice tableDevice pc ps))) =
     (if pc_Remove pc then set (map wp_PublicKey ps) - {pc_PublicKey pc} else insert (pc_PublicKey pc) (set (map wp_PublicKey ps)))"
proof (cases "\<not> pc_Remove pc \<and> pc_PublicKey pc \<in> set (map wp_PublicKey ps)")
  case True
  then show ?thesis by (simp only: tableDevice_def wgClient.select_convs snd_conv if_False if_True keys_map_update) auto
next
  case False
  have "wp_PublicKey ` {x \<in> set ps. wp_PublicKey x \<noteq> k} = wp_PublicKey ` set ps - {k}" for k by blast
  with False show ?thesis by (cases "pc_Remove pc") (auto simp: tableDevice_def)
qed

lemma tableDevice_laws: "wg_laws tableDevice (\<lambda>ps. set (map wp_PublicKey ps))"
  unfolding wg_laws_def
proof (intro conjI allI impI)
  fix w :: "wgPeer list" and pc
  show "set (map wp_PublicKey (snd (ConfigureDevice tableDevice pc w))) =
      (if pc_Remove pc then set (map wp_PublicKey w) - {pc_PublicKey pc} else insert (pc_PublicKey pc) (set (map wp_PublicKey w)))"
    by (rule tableDevice_configure)
qed (simp_all add: tableKey_round, simp_all add: tableDevice_def)

end
