(* ===== verification/Commands.thy ===== *)
theory Commands
  imports Go_Net "HOL-Library.State_Monad"
begin

text \<open>
  The external programs \<open>main.go\<close> runs (\<open>iptables\<close>, \<open>tc\<close>, \<open>ip\<close>) through \<open>os/exec\<close>, and the kernel
  objects it looks up.  What a program does to the kernel is a parameter (\<open>shell\<close>); the state of a
  computation is the kernel together with the commands run so far, threaded by the state monad.

  \<open>exec\<close> is a fresh \<open>exec.Command(...).CombinedOutput()\<close>.  A \<open>cmd\<close> is a command value that is used
  more than once: \<open>os/exec\<close> documents that a \<open>Cmd\<close> cannot be reused, and a second \<open>CombinedOutput\<close>
  fails without running anything.

  \<open>emits\<close> is the small logic of these computations: every command a computation runs satisfies a
  predicate.  It composes over the monad's bind.
\<close>

datatype linkResult = LinkFound | LinkNotFound | LinkError

record 'k shell =
  sh_run :: "string list \<Rightarrow> 'k \<Rightarrow> (bool \<times> string) \<times> 'k"
  sh_ifbModule :: "'k \<Rightarrow> bool"
  sh_LinkByName :: "string \<Rightarrow> 'k \<Rightarrow> linkResult"

type_synonym 'k world = "'k \<times> string list list"

definition exec :: "'k shell \<Rightarrow> string list \<Rightarrow> ('k world, bool \<times> string) state" where
  "exec sh args = State (\<lambda>(k, tr). case sh_run sh args k of (r, k') \<Rightarrow> (r, (k', tr @ [args])))"

definition look :: "('k \<Rightarrow> 'a) \<Rightarrow> ('k world, 'a) state" where
  "look f = State (\<lambda>(k, tr). (f k, (k, tr)))"

record cmd =
  cmd_args :: "string list"
  cmd_used :: bool

definition newCmd :: "string list \<Rightarrow> cmd" where
  "newCmd args = \<lparr>cmd_args = args, cmd_used = False\<rparr>"

definition CombinedOutput :: "'k shell \<Rightarrow> cmd \<Rightarrow> ('k world, (bool \<times> string) \<times> cmd) state" where
  "CombinedOutput sh c =
     (if cmd_used c then State_Monad.return ((False, []), c)
      else do { r \<leftarrow> exec sh (cmd_args c); State_Monad.return (r, c\<lparr>cmd_used := True\<rparr>) })"

definition emits :: "(string list \<Rightarrow> bool) \<Rightarrow> ('k world, 'a) state \<Rightarrow> bool" where
  "emits P m \<longleftrightarrow> (\<forall>k tr. \<exists>new. snd (snd (run_state m (k, tr))) = tr @ new \<and> list_all P new)"

lemma emitsI: "(\<And>k tr. \<exists>new. snd (snd (run_state m (k, tr))) = tr @ new \<and> list_all P new) \<Longrightarrow> emits P m"
  by (simp add: emits_def)

lemma emitsD: "emits P m \<Longrightarrow> run_state m (k, tr) = (a, (k', tr')) \<Longrightarrow> \<exists>new. tr' = tr @ new \<and> list_all P new"
  by (metis emits_def snd_conv)

lemma emits_return [simp, intro]: "emits P (State_Monad.return x)"
  by (simp add: emits_def)

lemma emits_look [simp, intro]: "emits P (look f)"
  by (simp add: emits_def look_def)

lemma emits_exec [intro]: "P args \<Longrightarrow> emits P (exec sh args)"
  by (auto simp: emits_def exec_def split: prod.split)

lemma emits_bind [intro]:
  assumes "emits P m" "\<And>x. emits P (f x)"
  shows "emits P (m \<bind> f)"
proof (rule emitsI)
  fix k tr
  obtain a k1 tr1 where m: "run_state m (k, tr) = (a, (k1, tr1))" by (metis prod_cases3)
  obtain n1 where n1: "tr1 = tr @ n1" "list_all P n1" using emitsD [OF assms(1) m] by blast
  obtain b k2 tr2 where f: "run_state (f a) (k1, tr1) = (b, (k2, tr2))" by (metis prod_cases3)
  obtain n2 where "tr2 = tr1 @ n2" "list_all P n2" using emitsD [OF assms(2) f] by blast
  with n1 m f show "\<exists>new. snd (snd (run_state (m \<bind> f) (k, tr))) = tr @ new \<and> list_all P new"
    by (intro exI [of _ "n1 @ n2"]) simp
qed

lemma emits_mono: "emits P m \<Longrightarrow> (\<And>c. P c \<Longrightarrow> Q c) \<Longrightarrow> emits Q m"
  unfolding emits_def by (metis list_all_iff)

lemma emits_traverse: "(\<And>x. x \<in> set xs \<Longrightarrow> emits P (f x)) \<Longrightarrow> emits P (traverse_list f xs)"
  by (induction xs) (auto intro!: emits_bind)

lemma run_exec: "run_state (exec sh args) (k, tr) = (fst (sh_run sh args k), (snd (sh_run sh args k), tr @ [args]))"
  by (simp add: exec_def split: prod.split)

lemma run_look: "run_state (look f) (k, tr) = (f k, (k, tr))"
  by (simp add: look_def)

end
