(* ===== verification/Traffic_Shaping.thy ===== *)
theory Traffic_Shaping
  imports Commands
begin

text \<open>
  Per-peer traffic shaping of \<open>main.go\<close>: \<open>ensureIFBDevice\<close>, \<open>setupPeerBandwidthLimit\<close> and
  \<open>removePeerBandwidthLimit\<close>, as the sequences of \<open>tc\<close> and \<open>ip\<close> commands they run.  \<open>shaping\<close> holds
  the package variables they read.

  Shown: the exact commands of a successful set-up, which limit an IPv4 peer in both directions; no
  limit is ever installed for an IPv6 peer; two peers with the same last octet share one class, and
  removing a peer deletes filters of other peers.
\<close>

record shaping =
  interfaceName :: string
  ifbName :: string
  bandwidthLimit :: string

datatype tcError = BadPeerIP | QdiscQuery | QdiscAdd | NotIPv4 | ClassReplace | ClassAdd
  | IFBCreate | IFBLookup | IFBUp | IngressQuery | IngressAdd | RedirectAdd | IFBQdiscQuery | IFBQdiscAdd

definition newIfbName :: "string \<Rightarrow> string" where
  "newIfbName ifname = (let n = ''ifb_'' @ ifname in if length n > 15 then take 15 n else n)"

text \<open>A command whose success decides how the function continues.\<close>

definition succeeds :: "'k shell \<Rightarrow> string list \<Rightarrow> ('k world, bool) state" where
  "succeeds sh args = do { (ok, out) \<leftarrow> exec sh args; State_Monad.return ok }"

definition createIFB :: "'k shell \<Rightarrow> shaping \<Rightarrow> ('k world, tcError option) state" where
  "createIFB sh cfg = do {
     link \<leftarrow> look (sh_LinkByName sh (ifbName cfg));
     case link of
       LinkNotFound \<Rightarrow> do {
         ok \<leftarrow> succeeds sh [''ip'', ''link'', ''add'', ifbName cfg, ''type'', ''ifb''];
         State_Monad.return (if ok then None else Some IFBCreate) }
     | LinkError \<Rightarrow> State_Monad.return (Some IFBLookup)
     | LinkFound \<Rightarrow> State_Monad.return None }"

text \<open>Run a command only when the output of a query does not mention a word.\<close>

definition addUnlessShown :: "'k shell \<Rightarrow> string list \<Rightarrow> string \<Rightarrow> string list \<Rightarrow> tcError \<Rightarrow> tcError \<Rightarrow> ('k world, tcError option) state" where
  "addUnlessShown sh showArgs word addArgs queryErr addErr = do {
     (ok, out) \<leftarrow> exec sh showArgs;
     if \<not> ok then State_Monad.return (Some queryErr)
     else if \<not> contains out word then do {
       added \<leftarrow> succeeds sh addArgs;
       State_Monad.return (if added then None else Some addErr) }
     else State_Monad.return None }"

definition redirectIngress :: "'k shell \<Rightarrow> shaping \<Rightarrow> ('k world, tcError option) state" where
  "redirectIngress sh cfg = do {
     (ok, out) \<leftarrow> exec sh [''tc'', ''filter'', ''show'', ''dev'', interfaceName cfg, ''parent'', ''ffff:''];
     if \<not> ok \<or> \<not> contains out (ifbName cfg) then do {
       added \<leftarrow> succeeds sh [''tc'', ''filter'', ''add'', ''dev'', interfaceName cfg, ''parent'', ''ffff:'', ''protocol'', ''ip'',
         ''u32'', ''match'', ''u32'', ''0'', ''0'', ''action'', ''mirred'', ''egress'', ''redirect'', ''dev'', ifbName cfg];
       State_Monad.return (if added then None else Some RedirectAdd) }
     else State_Monad.return None }"

definition ensureIFBDevice :: "'k shell \<Rightarrow> shaping \<Rightarrow> ('k world, tcError option) state" where
  "ensureIFBDevice sh cfg = do {
     loaded \<leftarrow> look (sh_ifbModule sh);
     if \<not> loaded then State_Monad.return None
     else do {
       e1 \<leftarrow> createIFB sh cfg;
       if e1 \<noteq> None then State_Monad.return e1
       else do {
         up \<leftarrow> succeeds sh [''ip'', ''link'', ''set'', ''dev'', ifbName cfg, ''up''];
         if \<not> up then State_Monad.return (Some IFBUp)
         else do {
           e2 \<leftarrow> addUnlessShown sh [''tc'', ''qdisc'', ''show'', ''dev'', interfaceName cfg] ''ingress''
             [''tc'', ''qdisc'', ''add'', ''dev'', interfaceName cfg, ''handle'', ''ffff:'', ''ingress''] IngressQuery IngressAdd;
           if e2 \<noteq> None then State_Monad.return e2
           else do {
             e3 \<leftarrow> redirectIngress sh cfg;
             if e3 \<noteq> None then State_Monad.return e3
             else addUnlessShown sh [''tc'', ''qdisc'', ''show'', ''dev'', ifbName cfg] ''htb''
               [''tc'', ''qdisc'', ''add'', ''dev'', ifbName cfg, ''root'', ''handle'', ''2:'', ''htb'', ''default'', ''9999'']
               IFBQdiscQuery IFBQdiscAdd }}}}}"

definition peerHost :: "string \<Rightarrow> string option" where
  "peerHost peerIP = (if contains peerIP ''/'' then map_option (\<lambda>(ip, _). IP_String ip) (ParseCIDR peerIP) else Some peerIP)"

definition classCmd :: "string \<Rightarrow> string \<Rightarrow> string \<Rightarrow> string \<Rightarrow> string \<Rightarrow> string list" where
  "classCmd verb dev major octet limit =
     [''tc'', ''class'', verb, ''dev'', dev, ''parent'', major @ '':'', ''classid'', major @ '':'' @ octet, ''htb'', ''rate'', limit, ''ceil'', limit]"

definition filterCmd :: "string \<Rightarrow> string \<Rightarrow> string \<Rightarrow> string \<Rightarrow> string \<Rightarrow> string list" where
  "filterCmd dev major octet side ip =
     [''tc'', ''filter'', ''add'', ''dev'', dev, ''protocol'', ''ip'', ''parent'', major @ '':'', ''prio'', ''1'', ''u32'',
      ''match'', ''ip'', side, ip, ''flowid'', major @ '':'' @ octet]"

text \<open>\<open>tc class add\<close>, and \<open>replace\<close> when the class exists; the result says whether and how it failed.\<close>

definition addClass :: "'k shell \<Rightarrow> string \<Rightarrow> string \<Rightarrow> string \<Rightarrow> string \<Rightarrow> ('k world, tcError option) state" where
  "addClass sh dev major octet limit = do {
     (ok, out) \<leftarrow> exec sh (classCmd ''add'' dev major octet limit);
     if ok then State_Monad.return None
     else if contains out ''File exists'' then do {
       replaced \<leftarrow> succeeds sh (classCmd ''replace'' dev major octet limit);
       State_Monad.return (if replaced then None else Some ClassReplace) }
     else State_Monad.return (Some ClassAdd) }"

definition setupIngress :: "'k shell \<Rightarrow> shaping \<Rightarrow> string \<Rightarrow> string \<Rightarrow> ('k world, tcError option) state" where
  "setupIngress sh cfg ip octet = do {
     loaded \<leftarrow> look (sh_ifbModule sh);
     if \<not> loaded then State_Monad.return None
     else do {
       e \<leftarrow> addClass sh (ifbName cfg) ''2'' octet (bandwidthLimit cfg);
       ok \<leftarrow> succeeds sh (filterCmd (ifbName cfg) ''2'' octet ''src'' ip);
       State_Monad.return None }}"

definition setupPeerBandwidthLimit :: "'k shell \<Rightarrow> shaping \<Rightarrow> string \<Rightarrow> ('k world, tcError option) state" where
  "setupPeerBandwidthLimit sh cfg peerIP =
     (case peerHost peerIP of
        None \<Rightarrow> State_Monad.return (Some BadPeerIP)
      | Some ip \<Rightarrow> do {
          e1 \<leftarrow> addUnlessShown sh [''tc'', ''qdisc'', ''show'', ''dev'', interfaceName cfg] ''htb''
            [''tc'', ''qdisc'', ''add'', ''dev'', interfaceName cfg, ''root'', ''handle'', ''1:'', ''htb'', ''default'', ''9999''] QdiscQuery QdiscAdd;
          if e1 \<noteq> None then State_Monad.return e1
          else let ipParts = splitOn CHR ''.'' ip in
            if length ipParts \<noteq> 4 then State_Monad.return (Some NotIPv4)
            else let lastOctet = ipParts ! 3 in do {
              e2 \<leftarrow> addClass sh (interfaceName cfg) ''1'' lastOctet (bandwidthLimit cfg);
              if e2 \<noteq> None then State_Monad.return e2
              else do {
                ok \<leftarrow> succeeds sh (filterCmd (interfaceName cfg) ''1'' lastOctet ''dst'' ip);
                setupIngress sh cfg ip lastOctet }}})"

text \<open>The handles of the filters whose line in the listing mentions the class.\<close>

fun handleAfter :: "string list \<Rightarrow> string" where
  "handleAfter (p # q # ps) = (if p = ''fh'' then q else handleAfter (q # ps))"
| "handleAfter _ = []"

definition newline :: char where "newline = CHR 0x0A"

definition filterHandles :: "string \<Rightarrow> string \<Rightarrow> string list" where
  "filterHandles classID output =
     filter (\<lambda>h. h \<noteq> [])
       (map (\<lambda>line. handleAfter (strFields line))
         (filter (\<lambda>line. contains line (''flowid '' @ classID) \<and> contains line ''fh '') (splitOn newline output)))"

definition removeShaping :: "'k shell \<Rightarrow> string \<Rightarrow> string \<Rightarrow> string \<Rightarrow> ('k world, bool) state" where
  "removeShaping sh dev major octet = do {
     (ok, out) \<leftarrow> exec sh [''tc'', ''filter'', ''show'', ''dev'', dev, ''parent'', major @ '':''];
     oks \<leftarrow> traverse_list (\<lambda>h. succeeds sh [''tc'', ''filter'', ''del'', ''dev'', dev, ''parent'', major @ '':'', ''handle'', h, ''prio'', ''1'', ''u32''])
       (if ok then filterHandles (major @ '':'' @ octet) out else []);
     succeeds sh [''tc'', ''class'', ''del'', ''dev'', dev, ''classid'', major @ '':'' @ octet] }"

definition removePeerBandwidthLimit :: "'k shell \<Rightarrow> shaping \<Rightarrow> string \<Rightarrow> ('k world, tcError option) state" where
  "removePeerBandwidthLimit sh cfg peerIP =
     (case peerHost peerIP of
        None \<Rightarrow> State_Monad.return (Some BadPeerIP)
      | Some ip \<Rightarrow>
          let ipParts = splitOn CHR ''.'' ip in
          if length ipParts \<noteq> 4 then State_Monad.return (Some NotIPv4)
          else let lastOctet = ipParts ! 3 in do {
            ok1 \<leftarrow> removeShaping sh (interfaceName cfg) ''1'' lastOctet;
            loaded \<leftarrow> look (sh_ifbModule sh);
            if \<not> loaded then State_Monad.return None
            else do {
              ok2 \<leftarrow> removeShaping sh (ifbName cfg) ''2'' lastOctet;
              State_Monad.return None }})"

definition qdiscCmds :: "shaping \<Rightarrow> string list list" where
  "qdiscCmds cfg = [[''tc'', ''qdisc'', ''show'', ''dev'', interfaceName cfg],
     [''tc'', ''qdisc'', ''add'', ''dev'', interfaceName cfg, ''root'', ''handle'', ''1:'', ''htb'', ''default'', ''9999'']]"

definition limitCmds :: "shaping \<Rightarrow> string \<Rightarrow> string \<Rightarrow> string list list" where
  "limitCmds cfg ip octet =
     [classCmd ''add'' (interfaceName cfg) ''1'' octet (bandwidthLimit cfg), filterCmd (interfaceName cfg) ''1'' octet ''dst'' ip,
      classCmd ''add'' (ifbName cfg) ''2'' octet (bandwidthLimit cfg), filterCmd (ifbName cfg) ''2'' octet ''src'' ip]"

text \<open>A host on which every command succeeds with the same output.\<close>

definition demoShell :: "string \<Rightarrow> nat shell" where
  "demoShell out = \<lparr>sh_run = (\<lambda>_ k. ((True, out), Suc k)), sh_ifbModule = (\<lambda>_. True), sh_LinkByName = (\<lambda>_ _. LinkFound)\<rparr>"

definition demoShaping :: shaping where
  "demoShaping = \<lparr>interfaceName = ''wg0'', ifbName = ''ifb_wg0'', bandwidthLimit = ''50mbit''\<rparr>"

definition otherPeerLine :: string where
  "otherPeerLine = ''filter parent 1: protocol ip pref 1 u32 chain 0 fh 800::801 order 2049 key ht 800 bkt 0 flowid 1:10''"

subsection \<open>What is run\<close>

lemma contains_char: "contains s [c] \<longleftrightarrow> c \<in> set s"
  by (induction s) auto

lemma peerHost_plain: "CHR ''/'' \<notin> set ip \<Longrightarrow> peerHost ip = Some ip"
  by (simp add: peerHost_def contains_char)

lemma ip4_parts: "length ip = 4 \<Longrightarrow> splitOn CHR ''.'' (ip4String ip) = map (\<lambda>b. itoaNat (unat b)) ip"
  unfolding ip4String_def by (rule splitOn_joinStr) (auto dest: itoaNat_isDigit)

lemma not_isDigit_slash: "\<not> isDigit CHR ''/''" "\<not> isHex CHR ''/''"
  by (simp_all add: isDigit_def isHex_def)

lemma peerHost_ip4: "peerHost (ip4String ip) = Some (ip4String ip)"
  by (rule peerHost_plain) (use ip4String_chars not_isDigit_slash in fastforce)

lemma peerHost_ip6: "peerHost (ip6String ip) = Some (ip6String ip)"
  by (rule peerHost_plain) (use ip6String_chars not_isDigit_slash in fastforce)

lemma run_addUnlessShown:
  assumes sr: "\<And>args k. sh_run sh args k = ((True, Out args k), N args k)"
  shows "\<exists>k' cs. run_state (addUnlessShown sh showArgs wd addArgs qe ae) (k, tr) = (None, (k', tr @ showArgs # cs)) \<and> set cs \<subseteq> {addArgs}"
  by (cases "contains (Out showArgs k) wd") (simp_all add: addUnlessShown_def succeeds_def run_exec sr)

lemma run_succeeds: "run_state (succeeds sh args) (k, tr) = (fst (fst (sh_run sh args k)), (snd (sh_run sh args k), tr @ [args]))"
  by (simp add: succeeds_def run_exec split: prod.split)

lemma run_addClass:
  assumes "\<And>args k. sh_run sh args k = ((True, Out args k), N args k)"
  shows "\<exists>k'. run_state (addClass sh dev major octet limit) (k, tr) = (None, (k', tr @ [classCmd ''add'' dev major octet limit]))"
  by (simp add: addClass_def run_exec assms)

lemma run_setupIngress:
  assumes sr: "\<And>args k. sh_run sh args k = ((True, Out args k), N args k)" and m: "\<And>k. sh_ifbModule sh k"
  shows "\<exists>k'. run_state (setupIngress sh cfg ip octet) (k, tr) =
    (None, (k', tr @ [classCmd ''add'' (ifbName cfg) ''2'' octet (bandwidthLimit cfg), filterCmd (ifbName cfg) ''2'' octet ''src'' ip]))"
proof -
  obtain k1 where "run_state (addClass sh (ifbName cfg) ''2'' octet (bandwidthLimit cfg)) (k, tr) =
      (None, (k1, tr @ [classCmd ''add'' (ifbName cfg) ''2'' octet (bandwidthLimit cfg)]))"
    using run_addClass [OF sr] by blast
  then show ?thesis by (simp add: setupIngress_def run_look m run_succeeds)
qed

text \<open>
  On a host where the commands succeed, adding an IPv4 peer installs, after at most the two
  commands that make sure of the root qdisc, exactly one class and one filter per direction, both
  with the configured limit, the filters matching the peer's address as destination on the WireGuard
  interface and as source on the IFB device.
\<close>

theorem shaping_limits_both_directions:
  assumes "\<And>args k. fst (fst (sh_run sh args k))" "\<And>k. sh_ifbModule sh k" "length ip = 4"
  shows "\<exists>k' pre. run_state (setupPeerBandwidthLimit sh cfg (ip4String ip)) (k, tr) =
      (None, (k', tr @ pre @ limitCmds cfg (ip4String ip) (itoaNat (unat (ip ! 3))))) \<and> set pre \<subseteq> set (qdiscCmds cfg)"
proof -
  have sr: "\<And>args k. sh_run sh args k = ((True, snd (fst (sh_run sh args k))), snd (sh_run sh args k))"
    using assms(1) by (simp add: prod_eq_iff)
  obtain Out N where on: "\<And>args k. sh_run sh args k = ((True, Out args k), N args k)"
  proof
    show "sh_run sh args k = ((True, (\<lambda>args k. snd (fst (sh_run sh args k))) args k), (\<lambda>args k. snd (sh_run sh args k)) args k)" for args k
      using sr by simp
  qed
  have parts: "length (splitOn CHR ''.'' (ip4String ip)) = 4" "splitOn CHR ''.'' (ip4String ip) ! 3 = itoaNat (unat (ip ! 3))"
    using assms(3) by (simp_all add: ip4_parts)
  obtain k1 cs where q: "run_state (addUnlessShown sh [''tc'', ''qdisc'', ''show'', ''dev'', interfaceName cfg] ''htb''
        [''tc'', ''qdisc'', ''add'', ''dev'', interfaceName cfg, ''root'', ''handle'', ''1:'', ''htb'', ''default'', ''9999''] QdiscQuery QdiscAdd) (k, tr) =
        (None, (k1, tr @ [''tc'', ''qdisc'', ''show'', ''dev'', interfaceName cfg] # cs))"
      "set cs \<subseteq> {[''tc'', ''qdisc'', ''add'', ''dev'', interfaceName cfg, ''root'', ''handle'', ''1:'', ''htb'', ''default'', ''9999'']}"
    using run_addUnlessShown [OF on] by blast
  obtain k2 where c: "run_state (addClass sh (interfaceName cfg) ''1'' (itoaNat (unat (ip ! 3))) (bandwidthLimit cfg))
      (k1, tr @ [''tc'', ''qdisc'', ''show'', ''dev'', interfaceName cfg] # cs) =
      (None, (k2, (tr @ [''tc'', ''qdisc'', ''show'', ''dev'', interfaceName cfg] # cs) @
        [classCmd ''add'' (interfaceName cfg) ''1'' (itoaNat (unat (ip ! 3))) (bandwidthLimit cfg)]))"
    using run_addClass [OF on] by blast
  have i: "\<exists>k'. run_state (setupIngress sh cfg (ip4String ip) (itoaNat (unat (ip ! 3)))) (k3, tr3) =
      (None, (k', tr3 @ drop 2 (limitCmds cfg (ip4String ip) (itoaNat (unat (ip ! 3))))))" for k3 tr3
    using run_setupIngress [OF on assms(2), where tr = tr3] by (simp add: limitCmds_def)
  have "\<exists>k'. run_state (setupPeerBandwidthLimit sh cfg (ip4String ip)) (k, tr) =
      (None, (k', tr @ ([''tc'', ''qdisc'', ''show'', ''dev'', interfaceName cfg] # cs) @ limitCmds cfg (ip4String ip) (itoaNat (unat (ip ! 3)))))"
    using i [of "snd (sh_run sh (filterCmd (interfaceName cfg) ''1'' (itoaNat (unat (ip ! 3))) ''dst'' (ip4String ip)) k2)"
      "tr @ [''tc'', ''qdisc'', ''show'', ''dev'', interfaceName cfg] # cs @ take 2 (limitCmds cfg (ip4String ip) (itoaNat (unat (ip ! 3))))"]
    by (simp add: setupPeerBandwidthLimit_def peerHost_ip4 q(1) parts c Let_def run_succeeds limitCmds_def)
  moreover have "set ([''tc'', ''qdisc'', ''show'', ''dev'', interfaceName cfg] # cs) \<subseteq> set (qdiscCmds cfg)"
    using q(2) by (auto simp: qdiscCmds_def)
  ultimately show ?thesis by blast
qed

lemma emits_succeeds [intro]: "P args \<Longrightarrow> emits P (succeeds sh args)"
  unfolding succeeds_def by (auto intro!: emits_bind split: prod.split)

lemma emits_addUnlessShown: "P showArgs \<Longrightarrow> P addArgs \<Longrightarrow> emits P (addUnlessShown sh showArgs wd addArgs qe ae)"
  unfolding addUnlessShown_def by (auto intro!: emits_bind)

lemma splitOn_absent: "c \<notin> set s \<Longrightarrow> splitOn c s = [s]"
  by (induction s) auto

text \<open>
  An IPv6 peer is never limited.  For every IPv6 address the set-up ends with an error, which
  its caller only logs, and runs nothing but the two qdisc commands.
\<close>

theorem shaping_skips_IPv6:
  assumes "length ip = 16" "To4 ip = []"
  shows "fst (run_state (setupPeerBandwidthLimit sh cfg (IP_String ip)) (k, tr)) \<noteq> None \<and>
      emits (\<lambda>c. c \<in> set (qdiscCmds cfg)) (setupPeerBandwidthLimit sh cfg (IP_String ip))"
proof -
  have s: "IP_String ip = ip6String ip" using assms by (auto simp: IP_String_def)
  have "CHR ''.'' \<notin> set (ip6String ip)" using ip6String_chars not_isHex by fastforce
  then have parts: "splitOn CHR ''.'' (ip6String ip) = [ip6String ip]" by (rule splitOn_absent)
  show ?thesis unfolding s setupPeerBandwidthLimit_def peerHost_ip6
    by (auto simp: parts Let_def qdiscCmds_def split: prod.split intro!: emits_bind emits_addUnlessShown)
qed

theorem shaping_skips_IPv6_witness:
  "fst (run_state (setupPeerBandwidthLimit (demoShell []) demoShaping (IP_String [0xfd, 0, 0, 0, 0, 0, 0, 0, 0, 0, 0, 0, 0, 0, 0, 1])) (0, [])) \<noteq> None"
proof -
  have "To4 [0xfd, 0, 0, 0, 0, 0, 0, 0, 0, 0, 0, 0, 0, 0, 0, 1] = []" by (simp add: To4_def v4InV6Prefix_def)
  from shaping_skips_IPv6 [OF _ this, of "demoShell []" demoShaping 0 "[]"] show ?thesis by simp
qed

theorem shaping_limits_both_directions_witness:
  "\<exists>k' pre. run_state (setupPeerBandwidthLimit (demoShell []) demoShaping (ip4String [10, 0, 0, 7])) (0, []) =
     (None, (k', pre @ limitCmds demoShaping (ip4String [10, 0, 0, 7]) ''7''))"
  using shaping_limits_both_directions [of "demoShell []" "[10, 0, 0, 7]" demoShaping 0 "[]"]
  by (auto simp: itoaNat.simps demoShell_def)

lemma other_handles: "filterHandles ''1:1'' otherPeerLine = [''800::801'']" "filterHandles ''2:1'' otherPeerLine = []"
  by (simp_all add: filterHandles_def otherPeerLine_def newline_def strFields_def isSpace_def)

text \<open>
  Removing one peer takes away the limits of others.  On a host whose only filter belongs to
  the peer 10.0.0.10, removing the peer 10.0.0.1 deletes that filter, because the listing is searched
  for the text \<open>flowid 1:1\<close>, which \<open>flowid 1:10\<close> contains.
\<close>

theorem shaping_removal_hits_others:
  "\<exists>k pre post. run_state (removePeerBandwidthLimit (demoShell otherPeerLine) demoShaping ''10.0.0.1'') (0, []) =
     (None, (k, pre @ [''tc'', ''filter'', ''del'', ''dev'', ''wg0'', ''parent'', ''1:'', ''handle'', ''800::801'', ''prio'', ''1'', ''u32''] # post))"
proof -
  have "peerHost ''10.0.0.1'' = Some ''10.0.0.1''" by (simp add: peerHost_def)
  then show ?thesis
    by (intro exI [of _ "[[''tc'', ''filter'', ''show'', ''dev'', ''wg0'', ''parent'', ''1:'']]"] exI)
      (simp add: removePeerBandwidthLimit_def removeShaping_def run_exec run_look run_succeeds Let_def demoShell_def demoShaping_def other_handles)
qed

end
