(* ===== verification/Observability.thy ===== *)
theory Observability
  imports Go_Strings
begin

text \<open>
  Model of \<open>internal/observability\<close>: the configuration (\<open>config.go\<close>: \<open>DefaultMetricsConfig\<close>,
  \<open>Validate\<close>, \<open>effectiveBackend\<close>), the choice of the one active backend (\<open>metrics.go\<close>: \<open>New\<close>),
  and the label handling of the Prometheus backend (\<open>prometheus/backend.go\<close>) and the OTel backend
  (\<open>otel/backend.go\<close>).

  The Prometheus and OTel client libraries are outside the repository.  Their constructors enter
  \<open>New\<close> as arguments that may fail; of their instruments the model keeps the calls the backend
  makes to them (the list \<open>emitted\<close> of instrument name, label set and value).

  The locale \<open>label_backend\<close> is the contract both backends keep towards the facade: a sample whose
  label keys are declared is emitted exactly once under exactly the declared keys, a sample with an
  undeclared key is dropped.
\<close>

type_synonym labels = "(string, string) gomap"

datatype val = VInt int | VFloat rat

datatype kind = KCounter | KUpDownCounter | KInt64Gauge | KFloat64Gauge | KHistogram

subsection \<open>Configuration and backend selection\<close>

record OTelConfig =
  otel_Protocol :: string
  otel_Endpoint :: string
  otel_Insecure :: bool
  otel_ExportInterval :: duration
  otel_Timeout :: duration

record MetricsConfig =
  mc_Enabled :: bool
  mc_Backend :: string
  mc_PrometheusPath :: string
  mc_OTel :: OTelConfig
  mc_ServiceName :: string
  mc_ServiceVersion :: string
  mc_DeploymentEnvironment :: string

definition DefaultMetricsConfig :: MetricsConfig where
  "DefaultMetricsConfig = \<lparr>mc_Enabled = True, mc_Backend = ''prometheus'', mc_PrometheusPath = ''/metrics'',
     mc_OTel = \<lparr>otel_Protocol = ''grpc'', otel_Endpoint = ''localhost:4317'', otel_Insecure = True,
       otel_ExportInterval = 60 * second, otel_Timeout = 10 * second\<rparr>,
     mc_ServiceName = ''gerbil'', mc_ServiceVersion = ''1.0.0'', mc_DeploymentEnvironment = []\<rparr>"

datatype cfg_error = EmptyBackend | EmptyEndpoint | BadProtocol string | BadInterval | BadTimeout
  | UnknownBackend string | BackendFailed string

definition Validate :: "MetricsConfig \<Rightarrow> cfg_error option" where
  "Validate c =
     (if \<not> mc_Enabled c then None
      else if mc_Backend c = ''prometheus'' \<or> mc_Backend c = ''none'' then None
      else if mc_Backend c = [] then Some EmptyBackend
      else if mc_Backend c = ''otel'' then
        (if otel_Endpoint (mc_OTel c) = [] then Some EmptyEndpoint
         else if otel_Protocol (mc_OTel c) \<noteq> ''grpc'' \<and> otel_Protocol (mc_OTel c) \<noteq> ''http''
           then Some (BadProtocol (otel_Protocol (mc_OTel c)))
         else if otel_ExportInterval (mc_OTel c) \<le> 0 then Some BadInterval
         else if otel_Timeout (mc_OTel c) \<le> 0 then Some BadTimeout
         else None)
      else Some (UnknownBackend (mc_Backend c)))"

definition effectiveBackend :: "MetricsConfig \<Rightarrow> string" where
  "effectiveBackend c = (if \<not> mc_Enabled c then ''none'' else if mc_Backend c = [] then ''none'' else mc_Backend c)"

datatype backend_kind = PromBackend string | OTelBackend OTelConfig | NoopBackend

text \<open>
  \<open>prometheus.New\<close> replaces an empty path, \<open>otel.New\<close> fills in its defaults and rejects a blank
  endpoint; \<open>promReg\<close> and \<open>otelExp\<close> stand for the client libraries (None: success).
\<close>

definition promNew :: "(string \<Rightarrow> string option) \<Rightarrow> string \<Rightarrow> string + backend_kind" where
  "promNew promReg path =
     (let p = (if path = [] then ''/metrics'' else path) in
      case promReg p of Some e \<Rightarrow> Inl e | None \<Rightarrow> Inr (PromBackend p))"

definition otelNew :: "(OTelConfig \<Rightarrow> string option) \<Rightarrow> OTelConfig \<Rightarrow> string + backend_kind" where
  "otelNew otelExp c =
     (let c1 = (if otel_Protocol c = [] then c\<lparr>otel_Protocol := ''grpc''\<rparr> else c) in
      if trimSpace (otel_Endpoint c1) = [] then Inl ''empty endpoint''
      else
        let c2 = (if otel_ExportInterval c1 \<le> 0 then c1\<lparr>otel_ExportInterval := 60 * second\<rparr> else c1);
            c3 = (if otel_Timeout c2 \<le> 0 then c2\<lparr>otel_Timeout := 10 * second\<rparr> else c2) in
        if otel_Protocol c3 \<noteq> ''grpc'' \<and> otel_Protocol c3 \<noteq> ''http'' then Inl ''unknown protocol''
        else case otelExp c3 of Some e \<Rightarrow> Inl e | None \<Rightarrow> Inr (OTelBackend c3))"

definition New :: "(string \<Rightarrow> string option) \<Rightarrow> (OTelConfig \<Rightarrow> string option) \<Rightarrow> MetricsConfig \<Rightarrow> cfg_error + backend_kind" where
  "New promReg otelExp c =
     (case Validate c of Some e \<Rightarrow> Inl e
      | None \<Rightarrow>
          if effectiveBackend c = ''prometheus'' then
            (case promNew promReg (mc_PrometheusPath c) of Inl e \<Rightarrow> Inl (BackendFailed e) | Inr b \<Rightarrow> Inr b)
          else if effectiveBackend c = ''otel'' then
            (case otelNew otelExp (mc_OTel c) of Inl e \<Rightarrow> Inl (BackendFailed e) | Inr b \<Rightarrow> Inr b)
          else if effectiveBackend c = ''none'' then Inr NoopBackend
          else Inl (UnknownBackend (effectiveBackend c)))"

definition HTTPHandler :: "backend_kind \<Rightarrow> string option" where
  "HTTPHandler b = (case b of PromBackend p \<Rightarrow> Some p | OTelBackend _ \<Rightarrow> None | NoopBackend \<Rightarrow> None)"

subsection \<open>Instruments and samples\<close>

record instrument =
  i_kind :: kind
  i_name :: string
  i_labels :: "string list"
  i_buckets :: "rat list"

type_synonym sample = "string \<times> labels \<times> val"

record metrics_state =
  emitted :: "sample list"
  droppedSamples :: nat

subsubsection \<open>Prometheus\<close>

definition normalizeHTTPMethod :: "string \<Rightarrow> string" where
  "normalizeHTTPMethod m =
     (if m \<in> {''CONNECT'', ''DELETE'', ''GET'', ''HEAD'', ''OPTIONS'', ''PATCH'', ''POST'', ''PUT'', ''TRACE''}
      then m else ''other'')"

definition valueNormalizersForInstrument :: "string \<Rightarrow> (string, string \<Rightarrow> string) gomap" where
  "valueNormalizersForInstrument name =
     (if name = ''gerbil_http_requests_total'' \<or> name = ''gerbil_http_request_duration_seconds''
      then [(''method'', normalizeHTTPMethod)] else [])"

fun fillLabels :: "(string, string \<Rightarrow> string) gomap \<Rightarrow> labels \<Rightarrow> labels \<Rightarrow> labels option" where
  "fillLabels norms normalized [] = Some normalized"
| "fillLabels norms normalized ((k, v) # rest) =
     (if \<not> hasKey normalized k then None
      else fillLabels norms (Store k (case Load norms k of Some f \<Rightarrow> f v | None \<Rightarrow> v) normalized) rest)"

definition emptyLabels :: "string list \<Rightarrow> labels" where
  "emptyLabels names = fold (\<lambda>n m. Store n [] m) names []"

definition normalizeLabels :: "string list \<Rightarrow> labels \<Rightarrow> (string, string \<Rightarrow> string) gomap \<Rightarrow> labels option" where
  "normalizeLabels labelNames labels norms =
     (if labelNames = [] then (if labels \<noteq> [] then None else Some [])
      else fillLabels norms (emptyLabels labelNames) labels)"

definition promEmit :: "instrument \<Rightarrow> (string, string \<Rightarrow> string) gomap \<Rightarrow> val \<Rightarrow> labels \<Rightarrow> metrics_state \<Rightarrow> metrics_state" where
  "promEmit i norms v labels s =
     (case normalizeLabels (i_labels i) labels norms of
        None \<Rightarrow> s\<lparr>droppedSamples := Suc (droppedSamples s)\<rparr>
      | Some l \<Rightarrow> s\<lparr>emitted := emitted s @ [(i_name i, l, v)]\<rparr>)"

definition promCounterAdd :: "instrument \<Rightarrow> val \<Rightarrow> labels \<Rightarrow> metrics_state \<Rightarrow> metrics_state" where
  "promCounterAdd i v labels s =
     (case v of VInt n \<Rightarrow> if n < 0 then s else promEmit i (valueNormalizersForInstrument (i_name i)) v labels s
      | VFloat _ \<Rightarrow> s)"

definition promRecord :: "instrument \<Rightarrow> val \<Rightarrow> labels \<Rightarrow> metrics_state \<Rightarrow> metrics_state" where
  "promRecord i v labels s =
     (case i_kind i of
        KCounter \<Rightarrow> promCounterAdd i v labels s
      | KUpDownCounter \<Rightarrow> promEmit i [] v labels s
      | KInt64Gauge \<Rightarrow> promEmit i [] v labels s
      | KFloat64Gauge \<Rightarrow> promEmit i [] v labels s
      | KHistogram \<Rightarrow> promEmit i (valueNormalizersForInstrument (i_name i)) v labels s)"

subsubsection \<open>OpenTelemetry\<close>

definition isLabelStart :: "char \<Rightarrow> bool" where
  "isLabelStart c \<longleftrightarrow> c = CHR ''_'' \<or> (let n = (of_char c :: nat) in (65 \<le> n \<and> n \<le> 90) \<or> (97 \<le> n \<and> n \<le> 122))"

definition labelNameOK :: "string \<Rightarrow> bool" where
  "labelNameOK s = (case s of [] \<Rightarrow> False | c # cs \<Rightarrow> isLabelStart c \<and> list_all (\<lambda>d. isLabelStart d \<or> isDigit d) cs)"

fun validateFrom :: "string list \<Rightarrow> string list \<Rightarrow> string + string list" where
  "validateFrom seen [] = Inr []"
| "validateFrom seen (n # ns) =
     (if \<not> labelNameOK n then Inl n
      else if n \<in> set seen then Inl n
      else case validateFrom (n # seen) ns of Inl e \<Rightarrow> Inl e | Inr r \<Rightarrow> Inr (n # r))"

definition validateLabelNames :: "string list \<Rightarrow> string + string list" where
  "validateLabelNames names = (if names = [] then Inr [] else validateFrom [] names)"

definition labelsToAttrs :: "string list \<Rightarrow> labels \<Rightarrow> labels option" where
  "labelsToAttrs labelNames labels =
     (if labelNames = [] then (if labels \<noteq> [] then None else Some [])
      else if list_all (\<lambda>(k, _). List.member labelNames k) labels
        then Some (map (\<lambda>n. (n, case Load labels n of Some v \<Rightarrow> v | None \<Rightarrow> [])) labelNames)
        else None)"

definition otelRecord :: "instrument \<Rightarrow> val \<Rightarrow> labels \<Rightarrow> metrics_state \<Rightarrow> metrics_state" where
  "otelRecord i v labels s =
     (case labelsToAttrs (i_labels i) labels of
        None \<Rightarrow> s
      | Some l \<Rightarrow> s\<lparr>emitted := emitted s @ [(i_name i, l, v)]\<rparr>)"

definition admissible :: "instrument \<Rightarrow> val \<Rightarrow> bool" where
  "admissible i v = (case v of VInt n \<Rightarrow> i_kind i = KCounter \<longrightarrow> 0 \<le> n | VFloat _ \<Rightarrow> i_kind i \<noteq> KCounter)"

subsection \<open>Label handling is exact\<close>

lemma hasKey_emptyLabels_acc: "hasKey (fold (\<lambda>n m. Store n [] m) names acc) k \<longleftrightarrow> k \<in> set names \<or> hasKey acc k"
  by (induction names arbitrary: acc) auto

lemma hasKey_emptyLabels [simp]: "hasKey (emptyLabels names) k \<longleftrightarrow> k \<in> set names"
  by (simp add: emptyLabels_def hasKey_emptyLabels_acc) (simp add: hasKey_def)

lemma fillLabels_Some:
  "fillLabels norms m ls \<noteq> None \<longleftrightarrow> (\<forall>k \<in> fst ` set ls. hasKey m k)"
proof (induction ls arbitrary: m)
  case (Cons e ls)
  obtain k v where e: "e = (k, v)" by (cases e)
  show ?case
    using Cons.IH [of "Store k (case Load norms k of Some f \<Rightarrow> f v | None \<Rightarrow> v) m"] e
    by (cases "hasKey m k") auto
qed simp

lemma fillLabels_keys: "fillLabels norms m ls = Some l \<Longrightarrow> hasKey l k \<longleftrightarrow> hasKey m k"
proof (induction ls arbitrary: m)
  case (Cons e ls)
  obtain k' v where e: "e = (k', v)" by (cases e)
  show ?case
    using Cons.IH [of "Store k' (case Load norms k' of Some f \<Rightarrow> f v | None \<Rightarrow> v) m"] Cons.prems e
    by (cases "hasKey m k'") auto
qed simp

lemma normalizeLabels_Some_iff:
  "normalizeLabels names ls norms \<noteq> None \<longleftrightarrow> fst ` set ls \<subseteq> set names"
  using fillLabels_Some [of norms "emptyLabels names" ls] by (auto simp: normalizeLabels_def)

lemma normalizeLabels_keys:
  assumes "normalizeLabels names ls norms = Some l"
  shows "fst ` set l = set names"
proof (cases "names = []")
  case True
  with assms show ?thesis by (auto simp: normalizeLabels_def split: if_splits)
next
  case False
  with assms have "fillLabels norms (emptyLabels names) ls = Some l" by (simp add: normalizeLabels_def)
  then have "hasKey l k \<longleftrightarrow> k \<in> set names" for k using fillLabels_keys [of norms _ ls l k] by simp
  then show ?thesis unfolding hasKey_iff by blast
qed

lemma labelsToAttrs_Some_iff: "labelsToAttrs names ls \<noteq> None \<longleftrightarrow> fst ` set ls \<subseteq> set names"
  by (force simp: labelsToAttrs_def list_all_iff)

lemma labelsToAttrs_keys: "labelsToAttrs names ls = Some l \<Longrightarrow> fst ` set l = set names"
  by (auto simp: labelsToAttrs_def image_image split: if_splits)

locale label_backend =
  fixes record_sample :: "instrument \<Rightarrow> val \<Rightarrow> labels \<Rightarrow> metrics_state \<Rightarrow> metrics_state"
  assumes emit: "fst ` set ls \<subseteq> set (i_labels i) \<Longrightarrow> admissible i v \<Longrightarrow>
      \<exists>l. emitted (record_sample i v ls s) = emitted s @ [(i_name i, l, v)] \<and> fst ` set l = set (i_labels i)"
    and drop: "\<not> fst ` set ls \<subseteq> set (i_labels i) \<Longrightarrow> emitted (record_sample i v ls s) = emitted s"
begin

lemma at_most_one:
  assumes "admissible i v"
  shows "length (emitted (record_sample i v ls s)) = length (emitted s) + (if fst ` set ls \<subseteq> set (i_labels i) then 1 else 0)"
  using emit [OF _ assms, of ls s] drop [of ls i v s] by auto

end

lemma promEmit_emit:
  "fst ` set ls \<subseteq> set (i_labels i) \<Longrightarrow>
   \<exists>l. emitted (promEmit i norms v ls s) = emitted s @ [(i_name i, l, v)] \<and> fst ` set l = set (i_labels i)"
  using normalizeLabels_Some_iff [of "i_labels i" ls norms] normalizeLabels_keys [of "i_labels i" ls norms]
  by (auto simp: promEmit_def)

lemma promEmit_drop:
  "\<not> fst ` set ls \<subseteq> set (i_labels i) \<Longrightarrow>
   promEmit i norms v ls s = s\<lparr>droppedSamples := Suc (droppedSamples s)\<rparr>"
  using normalizeLabels_Some_iff [of "i_labels i" ls norms]
  by (auto simp: promEmit_def split: option.splits)

interpretation prom: label_backend promRecord
proof
  fix ls :: labels and i :: instrument and v s
  assume "fst ` set ls \<subseteq> set (i_labels i)" "admissible i v"
  then show "\<exists>l. emitted (promRecord i v ls s) = emitted s @ [(i_name i, l, v)] \<and> fst ` set l = set (i_labels i)"
    using promEmit_emit [of ls i]
    by (auto simp: promRecord_def promCounterAdd_def admissible_def split: kind.splits val.splits)
next
  fix ls :: labels and i :: instrument and v s
  assume "\<not> fst ` set ls \<subseteq> set (i_labels i)"
  then show "emitted (promRecord i v ls s) = emitted s"
    by (simp add: promRecord_def promCounterAdd_def promEmit_drop split: kind.splits val.splits)
qed

interpretation otel: label_backend otelRecord
proof
  fix ls :: labels and i :: instrument and v s
  assume "fst ` set ls \<subseteq> set (i_labels i)"
  then show "\<exists>l. emitted (otelRecord i v ls s) = emitted s @ [(i_name i, l, v)] \<and> fst ` set l = set (i_labels i)"
    using labelsToAttrs_Some_iff [of "i_labels i" ls] labelsToAttrs_keys [of "i_labels i" ls]
    by (auto simp: otelRecord_def)
next
  fix ls :: labels and i :: instrument and v s
  assume "\<not> fst ` set ls \<subseteq> set (i_labels i)"
  then show "emitted (otelRecord i v ls s) = emitted s"
    using labelsToAttrs_Some_iff [of "i_labels i" ls] by (auto simp: otelRecord_def split: option.splits)
qed

lemma validateFrom_Inr:
  "(\<exists>r. validateFrom seen ns = Inr r) \<longleftrightarrow> list_all labelNameOK ns \<and> distinct ns \<and> set ns \<inter> set seen = {}"
proof (induction ns arbitrary: seen)
  case (Cons n ns)
  show ?case using Cons.IH [of "n # seen"] by (cases "validateFrom (n # seen) ns") auto
qed simp

lemma validateFrom_id: "validateFrom seen ns = Inr r \<Longrightarrow> r = ns"
  by (induction ns arbitrary: seen r) (auto split: if_splits sum.splits)

lemma validateLabelNames_Inr:
  "validateLabelNames ns = Inr ns \<longleftrightarrow> list_all labelNameOK ns \<and> distinct ns"
  using validateFrom_Inr [of "[]" ns] validateFrom_id [of "[]" ns] by (auto simp: validateLabelNames_def)

end
