(* ===== verification/Metrics.thy ===== *)
theory Metrics
  imports Observability
begin

text \<open>
  Model of the application-level facade \<open>internal/metrics/metrics.go\<close>: the package-level instruments
  (\<open>ivar\<close> names the Go variables), the table that \<open>createInstruments\<close> registers, one definition per
  \<open>Record*\<close> function (the call it makes: instrument, labels, value) and \<open>Initialize\<close> / \<open>Shutdown\<close>.
  \<open>emit\<close> performs such a call on a backend; a nil instrument makes it a no-op, as in the code.
  Help texts are left out.

  The lemmas show that the facade and the registered table agree: every \<open>Record*\<close> call names a
  registered instrument of the right kind with exactly the declared label keys, so neither backend
  ever drops one of its samples, and the label names pass the OTel name check.
  The relay, the SNI proxy and the control plane keep the list of their calls in their state;
  \<open>gauge\<close> sums the deltas recorded for one up-down counter.
\<close>

datatype wg_var =
    V_wgInterfaceUp | V_wgPeersTotal | V_wgPeerConnected | V_allowedIPsCount
  | V_keyRotationTotal | V_wgHandshakesTotal | V_wgHandshakeLatency | V_wgPeerRTT
  | V_wgBytesReceived | V_wgBytesTransmitted

datatype system_var =
    V_netlinkEventsTotal | V_netlinkErrorsTotal | V_syncDuration | V_workqueueDepth
  | V_kernelModuleLoads | V_firewallRulesApplied | V_activeSessions | V_activeProxyConnections
  | V_proxyRouteLookups | V_proxyTLSHandshake | V_proxyBytesTransmitted

datatype op_var =
    V_configReloadsTotal | V_restartTotal | V_authFailuresTotal | V_aclDeniedTotal
  | V_certificateExpiryDays

datatype relay_var =
    V_udpPacketsTotal | V_udpPacketSizeBytes | V_holePunchEventsTotal | V_proxyMappingActive
  | V_relayUDPConnectionsActive | V_sessionRebuiltTotal | V_commPatternActive | V_proxyCleanupRemovedTotal
  | V_proxyConnectionErrorsTotal | V_proxyInitialMappingsTotal | V_proxyMappingUpdatesTotal | V_proxyIdleCleanupDuration

datatype sni_var =
    V_sniConnectionsTotal | V_sniConnectionDuration | V_sniActiveConnections | V_sniRouteCacheHitsTotal
  | V_sniRouteAPIRequestsTotal | V_sniRouteAPILatency | V_sniLocalOverrideTotal | V_sniTrustedProxyEventsTotal
  | V_sniProxyProtocolParseErrorsTotal | V_sniDataBytesTotal | V_sniTunnelTerminationsTotal

datatype api_var =
    V_httpRequestsTotal | V_httpRequestDuration | V_peerOperationsTotal | V_proxyMappingUpdateRequestsTotal
  | V_destinationsUpdateRequestsTotal | V_remoteConfigFetchesTotal | V_bandwidthReportsTotal | V_peerBandwidthBytesTotal
  | V_memorySpikeTotal | V_heapProfilesWrittenTotal

datatype ivar = WgVar wg_var | SysVar system_var | OpVar op_var | RelayVar relay_var | SniVar sni_var | ApiVar api_var

record call =
  c_var :: ivar
  c_labels :: labels
  c_val :: val

definition durationBuckets :: "rat list" where
  "durationBuckets = [5/1000, 1/100, 25/1000, 5/100, 1/10, 25/100, 1/2, 1, 5/2, 5, 10, 30]"

definition sizeBuckets :: "rat list" where
  "sizeBuckets = [512, 1024, 4096, 16384, 65536, 262144, 1048576]"

definition sniDurationBuckets :: "rat list" where
  "sniDurationBuckets = [1/10, 1/2, 1, 5/2, 5, 10, 30, 60, 120]"

definition wgInstruments :: "(wg_var \<times> instrument) list" where
  "wgInstruments = [
   (V_wgInterfaceUp, \<lparr>i_kind = KInt64Gauge, i_name = ''gerbil_wg_interface_up'', i_labels = [''ifname'', ''instance''], i_buckets = []\<rparr>),
   (V_wgPeersTotal, \<lparr>i_kind = KUpDownCounter, i_name = ''gerbil_wg_peers_total'', i_labels = [''ifname''], i_buckets = []\<rparr>),
   (V_wgPeerConnected, \<lparr>i_kind = KInt64Gauge, i_name = ''gerbil_wg_peer_connected'', i_labels = [''ifname'', ''peer''], i_buckets = []\<rparr>),
   (V_allowedIPsCount, \<lparr>i_kind = KUpDownCounter, i_name = ''gerbil_allowed_ips_count'', i_labels = [''ifname'', ''peer''], i_buckets = []\<rparr>),
   (V_keyRotationTotal, \<lparr>i_kind = KCounter, i_name = ''gerbil_key_rotation_total'', i_labels = [''ifname'', ''reason''], i_buckets = []\<rparr>),
   (V_wgHandshakesTotal, \<lparr>i_kind = KCounter, i_name = ''gerbil_wg_handshakes_total'', i_labels = [''ifname'', ''peer'', ''result''], i_buckets = []\<rparr>),
   (V_wgHandshakeLatency, \<lparr>i_kind = KHistogram, i_name = ''gerbil_wg_handshake_latency_seconds'', i_labels = [''ifname'', ''peer''], i_buckets = durationBuckets\<rparr>),
   (V_wgPeerRTT, \<lparr>i_kind = KHistogram, i_name = ''gerbil_wg_peer_rtt_seconds'', i_labels = [''ifname'', ''peer''], i_buckets = durationBuckets\<rparr>),
   (V_wgBytesReceived, \<lparr>i_kind = KCounter, i_name = ''gerbil_wg_bytes_received_total'', i_labels = [''ifname'', ''peer''], i_buckets = []\<rparr>),
   (V_wgBytesTransmitted, \<lparr>i_kind = KCounter, i_name = ''gerbil_wg_bytes_transmitted_total'', i_labels = [''ifname'', ''peer''], i_buckets = []\<rparr>)]"

definition systemInstruments :: "(system_var \<times> instrument) list" where
  "systemInstruments = [
   (V_netlinkEventsTotal, \<lparr>i_kind = KCounter, i_name = ''gerbil_netlink_events_total'', i_labels = [''event_type''], i_buckets = []\<rparr>),
   (V_netlinkErrorsTotal, \<lparr>i_kind = KCounter, i_name = ''gerbil_netlink_errors_total'', i_labels = [''component'', ''error_type''], i_buckets = []\<rparr>),
   (V_syncDuration, \<lparr>i_kind = KHistogram, i_name = ''gerbil_sync_duration_seconds'', i_labels = [''component''], i_buckets = durationBuckets\<rparr>),
   (V_workqueueDepth, \<lparr>i_kind = KUpDownCounter, i_name = ''gerbil_workqueue_depth'', i_labels = [''queue''], i_buckets = []\<rparr>),
   (V_kernelModuleLoads, \<lparr>i_kind = KCounter, i_name = ''gerbil_kernel_module_loads_total'', i_labels = [''result''], i_buckets = []\<rparr>),
   (V_firewallRulesApplied, \<lparr>i_kind = KCounter, i_name = ''gerbil_firewall_rules_applied_total'', i_labels = [''result'', ''chain''], i_buckets = []\<rparr>),
   (V_activeSessions, \<lparr>i_kind = KUpDownCounter, i_name = ''gerbil_active_sessions'', i_labels = [''ifname''], i_buckets = []\<rparr>),
   (V_activeProxyConnections, \<lparr>i_kind = KUpDownCounter, i_name = ''gerbil_active_proxy_connections'', i_labels = [], i_buckets = []\<rparr>),
   (V_proxyRouteLookups, \<lparr>i_kind = KCounter, i_name = ''gerbil_proxy_route_lookups_total'', i_labels = [''result''], i_buckets = []\<rparr>),
   (V_proxyTLSHandshake, \<lparr>i_kind = KHistogram, i_name = ''gerbil_proxy_tls_handshake_seconds'', i_labels = [], i_buckets = durationBuckets\<rparr>),
   (V_proxyBytesTransmitted, \<lparr>i_kind = KCounter, i_name = ''gerbil_proxy_bytes_transmitted_total'', i_labels = [''direction''], i_buckets = []\<rparr>)]"

definition operationalInstruments :: "(op_var \<times> instrument) list" where
  "operationalInstruments = [
   (V_configReloadsTotal, \<lparr>i_kind = KCounter, i_name = ''gerbil_config_reloads_total'', i_labels = [''result''], i_buckets = []\<rparr>),
   (V_restartTotal, \<lparr>i_kind = KCounter, i_name = ''gerbil_restart_total'', i_labels = [], i_buckets = []\<rparr>),
   (V_authFailuresTotal, \<lparr>i_kind = KCounter, i_name = ''gerbil_auth_failures_total'', i_labels = [''peer'', ''reason''], i_buckets = []\<rparr>),
   (V_aclDeniedTotal, \<lparr>i_kind = KCounter, i_name = ''gerbil_acl_denied_total'', i_labels = [''ifname'', ''peer'', ''policy''], i_buckets = []\<rparr>),
   (V_certificateExpiryDays, \<lparr>i_kind = KFloat64Gauge, i_name = ''gerbil_certificate_expiry_days'', i_labels = [''cert_name'', ''ifname''], i_buckets = []\<rparr>)]"

definition relayInstruments :: "(relay_var \<times> instrument) list" where
  "relayInstruments = [
   (V_udpPacketsTotal, \<lparr>i_kind = KCounter, i_name = ''gerbil_udp_packets_total'', i_labels = [''ifname'', ''type'', ''direction''], i_buckets = []\<rparr>),
   (V_udpPacketSizeBytes, \<lparr>i_kind = KHistogram, i_name = ''gerbil_udp_packet_size_bytes'', i_labels = [''ifname'', ''type''], i_buckets = sizeBuckets\<rparr>),
   (V_holePunchEventsTotal, \<lparr>i_kind = KCounter, i_name = ''gerbil_hole_punch_events_total'', i_labels = [''ifname'', ''result''], i_buckets = []\<rparr>),
   (V_proxyMappingActive, \<lparr>i_kind = KUpDownCounter, i_name = ''gerbil_proxy_mapping_active'', i_labels = [''ifname''], i_buckets = []\<rparr>),
   (V_relayUDPConnectionsActive, \<lparr>i_kind = KUpDownCounter, i_name = ''gerbil_relay_udp_connections_active'', i_labels = [''ifname''], i_buckets = []\<rparr>),
   (V_sessionRebuiltTotal, \<lparr>i_kind = KCounter, i_name = ''gerbil_session_rebuilt_total'', i_labels = [''ifname''], i_buckets = []\<rparr>),
   (V_commPatternActive, \<lparr>i_kind = KUpDownCounter, i_name = ''gerbil_comm_pattern_active'', i_labels = [''ifname''], i_buckets = []\<rparr>),
   (V_proxyCleanupRemovedTotal, \<lparr>i_kind = KCounter, i_name = ''gerbil_proxy_cleanup_removed_total'', i_labels = [''ifname'', ''component''], i_buckets = []\<rparr>),
   (V_proxyConnectionErrorsTotal, \<lparr>i_kind = KCounter, i_name = ''gerbil_proxy_connection_errors_total'', i_labels = [''ifname'', ''error_type''], i_buckets = []\<rparr>),
   (V_proxyInitialMappingsTotal, \<lparr>i_kind = KInt64Gauge, i_name = ''gerbil_proxy_initial_mappings'', i_labels = [''ifname''], i_buckets = []\<rparr>),
   (V_proxyMappingUpdatesTotal, \<lparr>i_kind = KCounter, i_name = ''gerbil_proxy_mapping_updates_total'', i_labels = [''ifname''], i_buckets = []\<rparr>),
   (V_proxyIdleCleanupDuration, \<lparr>i_kind = KHistogram, i_name = ''gerbil_proxy_idle_cleanup_duration_seconds'', i_labels = [''ifname'', ''component''], i_buckets = durationBuckets\<rparr>)]"

definition sniInstruments :: "(sni_var \<times> instrument) list" where
  "sniInstruments = [
   (V_sniConnectionsTotal, \<lparr>i_kind = KCounter, i_name = ''gerbil_sni_connections_total'', i_labels = [''result''], i_buckets = []\<rparr>),
   (V_sniConnectionDuration, \<lparr>i_kind = KHistogram, i_name = ''gerbil_sni_connection_duration_seconds'', i_labels = [], i_buckets = sniDurationBuckets\<rparr>),
   (V_sniActiveConnections, \<lparr>i_kind = KUpDownCounter, i_name = ''gerbil_sni_active_connections'', i_labels = [], i_buckets = []\<rparr>),
   (V_sniRouteCacheHitsTotal, \<lparr>i_kind = KCounter, i_name = ''gerbil_sni_route_cache_hits_total'', i_labels = [''result''], i_buckets = []\<rparr>),
   (V_sniRouteAPIRequestsTotal, \<lparr>i_kind = KCounter, i_name = ''gerbil_sni_route_api_requests_total'', i_labels = [''result''], i_buckets = []\<rparr>),
   (V_sniRouteAPILatency, \<lparr>i_kind = KHistogram, i_name = ''gerbil_sni_route_api_latency_seconds'', i_labels = [], i_buckets = durationBuckets\<rparr>),
   (V_sniLocalOverrideTotal, \<lparr>i_kind = KCounter, i_name = ''gerbil_sni_local_override_total'', i_labels = [''hit''], i_buckets = []\<rparr>),
   (V_sniTrustedProxyEventsTotal, \<lparr>i_kind = KCounter, i_name = ''gerbil_sni_trusted_proxy_events_total'', i_labels = [''event''], i_buckets = []\<rparr>),
   (V_sniProxyProtocolParseErrorsTotal, \<lparr>i_kind = KCounter, i_name = ''gerbil_sni_proxy_protocol_parse_errors_total'', i_labels = [], i_buckets = []\<rparr>),
   (V_sniDataBytesTotal, \<lparr>i_kind = KCounter, i_name = ''gerbil_sni_data_bytes_total'', i_labels = [''direction''], i_buckets = []\<rparr>),
   (V_sniTunnelTerminationsTotal, \<lparr>i_kind = KCounter, i_name = ''gerbil_sni_tunnel_terminations_total'', i_labels = [''reason''], i_buckets = []\<rparr>)]"

definition apiInstruments :: "(api_var \<times> instrument) list" where
  "apiInstruments = [
   (V_httpRequestsTotal, \<lparr>i_kind = KCounter, i_name = ''gerbil_http_requests_total'', i_labels = [''endpoint'', ''method'', ''status_code''], i_buckets = []\<rparr>),
   (V_httpRequestDuration, \<lparr>i_kind = KHistogram, i_name = ''gerbil_http_request_duration_seconds'', i_labels = [''endpoint'', ''method''], i_buckets = durationBuckets\<rparr>),
   (V_peerOperationsTotal, \<lparr>i_kind = KCounter, i_name = ''gerbil_peer_operations_total'', i_labels = [''operation'', ''result''], i_buckets = []\<rparr>),
   (V_proxyMappingUpdateRequestsTotal, \<lparr>i_kind = KCounter, i_name = ''gerbil_proxy_mapping_update_requests_total'', i_labels = [''result''], i_buckets = []\<rparr>),
   (V_destinationsUpdateRequestsTotal, \<lparr>i_kind = KCounter, i_name = ''gerbil_destinations_update_requests_total'', i_labels = [''result''], i_buckets = []\<rparr>),
   (V_remoteConfigFetchesTotal, \<lparr>i_kind = KCounter, i_name = ''gerbil_remote_config_fetches_total'', i_labels = [''result''], i_buckets = []\<rparr>),
   (V_bandwidthReportsTotal, \<lparr>i_kind = KCounter, i_name = ''gerbil_bandwidth_reports_total'', i_labels = [''result''], i_buckets = []\<rparr>),
   (V_peerBandwidthBytesTotal, \<lparr>i_kind = KCounter, i_name = ''gerbil_peer_bandwidth_bytes_total'', i_labels = [''peer'', ''direction''], i_buckets = []\<rparr>),
   (V_memorySpikeTotal, \<lparr>i_kind = KCounter, i_name = ''gerbil_memory_spike_total'', i_labels = [''severity''], i_buckets = []\<rparr>),
   (V_heapProfilesWrittenTotal, \<lparr>i_kind = KCounter, i_name = ''gerbil_heap_profiles_written_total'', i_labels = [], i_buckets = []\<rparr>)]"

definition instrumentTable :: "(ivar \<times> instrument) list" where
  "instrumentTable = map (map_prod WgVar id) wgInstruments @ map (map_prod SysVar id) systemInstruments
     @ map (map_prod OpVar id) operationalInstruments @ map (map_prod RelayVar id) relayInstruments
     @ map (map_prod SniVar id) sniInstruments @ map (map_prod ApiVar id) apiInstruments"

fun createFrom :: "(instrument \<Rightarrow> string option) \<Rightarrow> (ivar \<times> instrument) list \<Rightarrow> (ivar, instrument) gomap
    \<Rightarrow> string option \<times> (ivar, instrument) gomap" where
  "createFrom newI [] vars = (None, vars)"
| "createFrom newI ((v, i) # rest) vars =
     (case newI i of Some e \<Rightarrow> (Some e, vars) | None \<Rightarrow> createFrom newI rest (Store v i vars))"

definition createInstruments :: "(instrument \<Rightarrow> string option) \<Rightarrow> (ivar, instrument) gomap
    \<Rightarrow> string option \<times> (ivar, instrument) gomap" where
  "createInstruments newI vars = createFrom newI instrumentTable vars"

definition otelNewInstrument :: "(instrument \<Rightarrow> string option) \<Rightarrow> instrument \<Rightarrow> string option" where
  "otelNewInstrument meter i = (case validateLabelNames (i_labels i) of Inl e \<Rightarrow> Some e | Inr _ \<Rightarrow> meter i)"

record facade =
  f_backend :: "backend_kind option"
  f_vars :: "(ivar, instrument) gomap"

definition Initialize :: "(MetricsConfig \<Rightarrow> cfg_error + backend_kind) \<Rightarrow> (backend_kind \<Rightarrow> instrument \<Rightarrow> string option)
    \<Rightarrow> MetricsConfig \<Rightarrow> facade \<Rightarrow> (cfg_error + string option) \<times> facade" where
  "Initialize newB newI cfg st =
     (case f_backend st of
        Some b \<Rightarrow> (Inr (HTTPHandler b), st)
      | None \<Rightarrow>
          (case newB cfg of
             Inl e \<Rightarrow> (Inl e, st)
           | Inr b \<Rightarrow>
               (case createInstruments (newI b) (f_vars st) of
                  (Some e, vars) \<Rightarrow> (Inl (BackendFailed e), st\<lparr>f_backend := None, f_vars := vars\<rparr>)
                | (None, vars) \<Rightarrow> (Inr (HTTPHandler b), st\<lparr>f_backend := Some b, f_vars := vars\<rparr>))))"

definition Shutdown :: "facade \<Rightarrow> backend_kind option \<times> facade" where
  "Shutdown st = (f_backend st, st\<lparr>f_backend := None\<rparr>)"

definition RecordInterfaceUp :: "string \<Rightarrow> string \<Rightarrow> bool \<Rightarrow> call" where
  "RecordInterfaceUp ifname inst up = \<lparr>c_var = WgVar V_wgInterfaceUp, c_labels = [(''ifname'', ifname), (''instance'', inst)], c_val = VInt (if up then 1 else 0)\<rparr>"

definition RecordPeersTotal :: "string \<Rightarrow> int \<Rightarrow> call" where
  "RecordPeersTotal ifname delta = \<lparr>c_var = WgVar V_wgPeersTotal, c_labels = [(''ifname'', ifname)], c_val = VInt delta\<rparr>"

definition RecordPeerConnected :: "string \<Rightarrow> string \<Rightarrow> bool \<Rightarrow> call" where
  "RecordPeerConnected ifname peer isConnected = \<lparr>c_var = WgVar V_wgPeerConnected, c_labels = [(''ifname'', ifname), (''peer'', peer)], c_val = VInt (if isConnected then 1 else 0)\<rparr>"

definition RecordHandshake :: "string \<Rightarrow> string \<Rightarrow> string \<Rightarrow> call" where
  "RecordHandshake ifname peer result = \<lparr>c_var = WgVar V_wgHandshakesTotal, c_labels = [(''ifname'', ifname), (''peer'', peer), (''result'', result)], c_val = VInt 1\<rparr>"

definition RecordHandshakeLatency :: "string \<Rightarrow> string \<Rightarrow> rat \<Rightarrow> call" where
  "RecordHandshakeLatency ifname peer seconds = \<lparr>c_var = WgVar V_wgHandshakeLatency, c_labels = [(''ifname'', ifname), (''peer'', peer)], c_val = VFloat seconds\<rparr>"

definition RecordPeerRTT :: "string \<Rightarrow> string \<Rightarrow> rat \<Rightarrow> call" where
  "RecordPeerRTT ifname peer seconds = \<lparr>c_var = WgVar V_wgPeerRTT, c_labels = [(''ifname'', ifname), (''peer'', peer)], c_val = VFloat seconds\<rparr>"

definition RecordBytesReceived :: "string \<Rightarrow> string \<Rightarrow> int \<Rightarrow> call" where
  "RecordBytesReceived ifname peer bytes = \<lparr>c_var = WgVar V_wgBytesReceived, c_labels = [(''ifname'', ifname), (''peer'', peer)], c_val = VInt bytes\<rparr>"

definition RecordBytesTransmitted :: "string \<Rightarrow> string \<Rightarrow> int \<Rightarrow> call" where
  "RecordBytesTransmitted ifname peer bytes = \<lparr>c_var = WgVar V_wgBytesTransmitted, c_labels = [(''ifname'', ifname), (''peer'', peer)], c_val = VInt bytes\<rparr>"

definition RecordAllowedIPsCount :: "string \<Rightarrow> string \<Rightarrow> int \<Rightarrow> call" where
  "RecordAllowedIPsCount ifname peer delta = \<lparr>c_var = WgVar V_allowedIPsCount, c_labels = [(''ifname'', ifname), (''peer'', peer)], c_val = VInt delta\<rparr>"

definition RecordKeyRotation :: "string \<Rightarrow> string \<Rightarrow> call" where
  "RecordKeyRotation ifname reason = \<lparr>c_var = WgVar V_keyRotationTotal, c_labels = [(''ifname'', ifname), (''reason'', reason)], c_val = VInt 1\<rparr>"

definition RecordNetlinkEvent :: "string \<Rightarrow> call" where
  "RecordNetlinkEvent eventType = \<lparr>c_var = SysVar V_netlinkEventsTotal, c_labels = [(''event_type'', eventType)], c_val = VInt 1\<rparr>"

definition RecordNetlinkError :: "string \<Rightarrow> string \<Rightarrow> call" where
  "RecordNetlinkError component errorType = \<lparr>c_var = SysVar V_netlinkErrorsTotal, c_labels = [(''component'', component), (''error_type'', errorType)], c_val = VInt 1\<rparr>"

definition RecordSyncDuration :: "string \<Rightarrow> rat \<Rightarrow> call" where
  "RecordSyncDuration component seconds = \<lparr>c_var = SysVar V_syncDuration, c_labels = [(''component'', component)], c_val = VFloat seconds\<rparr>"

definition RecordWorkqueueDepth :: "string \<Rightarrow> int \<Rightarrow> call" where
  "RecordWorkqueueDepth queue delta = \<lparr>c_var = SysVar V_workqueueDepth, c_labels = [(''queue'', queue)], c_val = VInt delta\<rparr>"

definition RecordKernelModuleLoad :: "string \<Rightarrow> call" where
  "RecordKernelModuleLoad result = \<lparr>c_var = SysVar V_kernelModuleLoads, c_labels = [(''result'', result)], c_val = VInt 1\<rparr>"

definition RecordFirewallRuleApplied :: "string \<Rightarrow> string \<Rightarrow> call" where
  "RecordFirewallRuleApplied result chain = \<lparr>c_var = SysVar V_firewallRulesApplied, c_labels = [(''result'', result), (''chain'', chain)], c_val = VInt 1\<rparr>"

definition RecordActiveSession :: "string \<Rightarrow> int \<Rightarrow> call" where
  "RecordActiveSession ifname delta = \<lparr>c_var = SysVar V_activeSessions, c_labels = [(''ifname'', ifname)], c_val = VInt delta\<rparr>"

definition RecordActiveProxyConnection :: "int \<Rightarrow> call" where
  "RecordActiveProxyConnection delta = \<lparr>c_var = SysVar V_activeProxyConnections, c_labels = [], c_val = VInt delta\<rparr>"

definition RecordProxyRouteLookup :: "string \<Rightarrow> call" where
  "RecordProxyRouteLookup result = \<lparr>c_var = SysVar V_proxyRouteLookups, c_labels = [(''result'', result)], c_val = VInt 1\<rparr>"

definition RecordProxyTLSHandshake :: "rat \<Rightarrow> call" where
  "RecordProxyTLSHandshake seconds = \<lparr>c_var = SysVar V_proxyTLSHandshake, c_labels = [], c_val = VFloat seconds\<rparr>"

definition RecordProxyBytesTransmitted :: "string \<Rightarrow> int \<Rightarrow> call" where
  "RecordProxyBytesTransmitted direction bytes = \<lparr>c_var = SysVar V_proxyBytesTransmitted, c_labels = [(''direction'', direction)], c_val = VInt bytes\<rparr>"

definition RecordConfigReload :: "string \<Rightarrow> call" where
  "RecordConfigReload result = \<lparr>c_var = OpVar V_configReloadsTotal, c_labels = [(''result'', result)], c_val = VInt 1\<rparr>"

definition RecordRestart :: "call" where
  "RecordRestart = \<lparr>c_var = OpVar V_restartTotal, c_labels = [], c_val = VInt 1\<rparr>"

definition RecordAuthFailure :: "string \<Rightarrow> string \<Rightarrow> call" where
  "RecordAuthFailure peer reason = \<lparr>c_var = OpVar V_authFailuresTotal, c_labels = [(''peer'', peer), (''reason'', reason)], c_val = VInt 1\<rparr>"

definition RecordACLDenied :: "string \<Rightarrow> string \<Rightarrow> string \<Rightarrow> call" where
  "RecordACLDenied ifname peer policy = \<lparr>c_var = OpVar V_aclDeniedTotal, c_labels = [(''ifname'', ifname), (''peer'', peer), (''policy'', policy)], c_val = VInt 1\<rparr>"

definition RecordCertificateExpiry :: "string \<Rightarrow> string \<Rightarrow> rat \<Rightarrow> call" where
  "RecordCertificateExpiry certName ifname days = \<lparr>c_var = OpVar V_certificateExpiryDays, c_labels = [(''cert_name'', certName), (''ifname'', ifname)], c_val = VFloat days\<rparr>"

definition RecordUDPPacket :: "string \<Rightarrow> string \<Rightarrow> string \<Rightarrow> call" where
  "RecordUDPPacket ifname packetType direction = \<lparr>c_var = RelayVar V_udpPacketsTotal, c_labels = [(''ifname'', ifname), (''type'', packetType), (''direction'', direction)], c_val = VInt 1\<rparr>"

definition RecordUDPPacketSize :: "string \<Rightarrow> string \<Rightarrow> rat \<Rightarrow> call" where
  "RecordUDPPacketSize ifname packetType bytes = \<lparr>c_var = RelayVar V_udpPacketSizeBytes, c_labels = [(''ifname'', ifname), (''type'', packetType)], c_val = VFloat bytes\<rparr>"

definition RecordHolePunchEvent :: "string \<Rightarrow> string \<Rightarrow> call" where
  "RecordHolePunchEvent ifname result = \<lparr>c_var = RelayVar V_holePunchEventsTotal, c_labels = [(''ifname'', ifname), (''result'', result)], c_val = VInt 1\<rparr>"

definition RecordProxyMapping :: "string \<Rightarrow> int \<Rightarrow> call" where
  "RecordProxyMapping ifname delta = \<lparr>c_var = RelayVar V_proxyMappingActive, c_labels = [(''ifname'', ifname)], c_val = VInt delta\<rparr>"

definition RecordSession :: "string \<Rightarrow> int \<Rightarrow> call" where
  "RecordSession ifname delta = \<lparr>c_var = SysVar V_activeSessions, c_labels = [(''ifname'', ifname)], c_val = VInt delta\<rparr>"

definition RecordUDPConnection :: "string \<Rightarrow> int \<Rightarrow> call" where
  "RecordUDPConnection ifname delta = \<lparr>c_var = RelayVar V_relayUDPConnectionsActive, c_labels = [(''ifname'', ifname)], c_val = VInt delta\<rparr>"

definition RecordSessionRebuilt :: "string \<Rightarrow> call" where
  "RecordSessionRebuilt ifname = \<lparr>c_var = RelayVar V_sessionRebuiltTotal, c_labels = [(''ifname'', ifname)], c_val = VInt 1\<rparr>"

definition RecordCommPattern :: "string \<Rightarrow> int \<Rightarrow> call" where
  "RecordCommPattern ifname delta = \<lparr>c_var = RelayVar V_commPatternActive, c_labels = [(''ifname'', ifname)], c_val = VInt delta\<rparr>"

definition RecordProxyCleanupRemoved :: "string \<Rightarrow> string \<Rightarrow> int \<Rightarrow> call" where
  "RecordProxyCleanupRemoved ifname component cnt = \<lparr>c_var = RelayVar V_proxyCleanupRemovedTotal, c_labels = [(''ifname'', ifname), (''component'', component)], c_val = VInt cnt\<rparr>"

definition RecordProxyConnectionError :: "string \<Rightarrow> string \<Rightarrow> call" where
  "RecordProxyConnectionError ifname errorType = \<lparr>c_var = RelayVar V_proxyConnectionErrorsTotal, c_labels = [(''ifname'', ifname), (''error_type'', errorType)], c_val = VInt 1\<rparr>"

definition RecordProxyInitialMappings :: "string \<Rightarrow> int \<Rightarrow> call" where
  "RecordProxyInitialMappings ifname cnt = \<lparr>c_var = RelayVar V_proxyInitialMappingsTotal, c_labels = [(''ifname'', ifname)], c_val = VInt cnt\<rparr>"

definition RecordProxyMappingUpdate :: "string \<Rightarrow> call" where
  "RecordProxyMappingUpdate ifname = \<lparr>c_var = RelayVar V_proxyMappingUpdatesTotal, c_labels = [(''ifname'', ifname)], c_val = VInt 1\<rparr>"

definition RecordProxyIdleCleanupDuration :: "string \<Rightarrow> string \<Rightarrow> rat \<Rightarrow> call" where
  "RecordProxyIdleCleanupDuration ifname component seconds = \<lparr>c_var = RelayVar V_proxyIdleCleanupDuration, c_labels = [(''ifname'', ifname), (''component'', component)], c_val = VFloat seconds\<rparr>"

definition RecordSNIConnection :: "string \<Rightarrow> call" where
  "RecordSNIConnection result = \<lparr>c_var = SniVar V_sniConnectionsTotal, c_labels = [(''result'', result)], c_val = VInt 1\<rparr>"

definition RecordSNIConnectionDuration :: "rat \<Rightarrow> call" where
  "RecordSNIConnectionDuration seconds = \<lparr>c_var = SniVar V_sniConnectionDuration, c_labels = [], c_val = VFloat seconds\<rparr>"

definition RecordSNIActiveConnection :: "int \<Rightarrow> call" where
  "RecordSNIActiveConnection delta = \<lparr>c_var = SniVar V_sniActiveConnections, c_labels = [], c_val = VInt delta\<rparr>"

definition RecordSNIRouteCacheHit :: "string \<Rightarrow> call" where
  "RecordSNIRouteCacheHit result = \<lparr>c_var = SniVar V_sniRouteCacheHitsTotal, c_labels = [(''result'', result)], c_val = VInt 1\<rparr>"

definition RecordSNIRouteAPIRequest :: "string \<Rightarrow> call" where
  "RecordSNIRouteAPIRequest result = \<lparr>c_var = SniVar V_sniRouteAPIRequestsTotal, c_labels = [(''result'', result)], c_val = VInt 1\<rparr>"

definition RecordSNIRouteAPILatency :: "rat \<Rightarrow> call" where
  "RecordSNIRouteAPILatency seconds = \<lparr>c_var = SniVar V_sniRouteAPILatency, c_labels = [], c_val = VFloat seconds\<rparr>"

definition RecordSNILocalOverride :: "string \<Rightarrow> call" where
  "RecordSNILocalOverride hit = \<lparr>c_var = SniVar V_sniLocalOverrideTotal, c_labels = [(''hit'', hit)], c_val = VInt 1\<rparr>"

definition RecordSNITrustedProxyEvent :: "string \<Rightarrow> call" where
  "RecordSNITrustedProxyEvent event = \<lparr>c_var = SniVar V_sniTrustedProxyEventsTotal, c_labels = [(''event'', event)], c_val = VInt 1\<rparr>"

definition RecordSNIProxyProtocolParseError :: "call" where
  "RecordSNIProxyProtocolParseError = \<lparr>c_var = SniVar V_sniProxyProtocolParseErrorsTotal, c_labels = [], c_val = VInt 1\<rparr>"

definition RecordSNIDataBytes :: "string \<Rightarrow> int \<Rightarrow> call" where
  "RecordSNIDataBytes direction bytes = \<lparr>c_var = SniVar V_sniDataBytesTotal, c_labels = [(''direction'', direction)], c_val = VInt bytes\<rparr>"

definition RecordSNITunnelTermination :: "string \<Rightarrow> call" where
  "RecordSNITunnelTermination reason = \<lparr>c_var = SniVar V_sniTunnelTerminationsTotal, c_labels = [(''reason'', reason)], c_val = VInt 1\<rparr>"

definition RecordHTTPRequest :: "string \<Rightarrow> string \<Rightarrow> string \<Rightarrow> call" where
  "RecordHTTPRequest endpoint method statusCode = \<lparr>c_var = ApiVar V_httpRequestsTotal, c_labels = [(''endpoint'', endpoint), (''method'', method), (''status_code'', statusCode)], c_val = VInt 1\<rparr>"

definition RecordHTTPRequestDuration :: "string \<Rightarrow> string \<Rightarrow> rat \<Rightarrow> call" where
  "RecordHTTPRequestDuration endpoint method seconds = \<lparr>c_var = ApiVar V_httpRequestDuration, c_labels = [(''endpoint'', endpoint), (''method'', method)], c_val = VFloat seconds\<rparr>"

definition RecordPeerOperation :: "string \<Rightarrow> string \<Rightarrow> call" where
  "RecordPeerOperation operation result = \<lparr>c_var = ApiVar V_peerOperationsTotal, c_labels = [(''operation'', operation), (''result'', result)], c_val = VInt 1\<rparr>"

definition RecordProxyMappingUpdateRequest :: "string \<Rightarrow> call" where
  "RecordProxyMappingUpdateRequest result = \<lparr>c_var = ApiVar V_proxyMappingUpdateRequestsTotal, c_labels = [(''result'', result)], c_val = VInt 1\<rparr>"

definition RecordDestinationsUpdateRequest :: "string \<Rightarrow> call" where
  "RecordDestinationsUpdateRequest result = \<lparr>c_var = ApiVar V_destinationsUpdateRequestsTotal, c_labels = [(''result'', result)], c_val = VInt 1\<rparr>"

definition RecordRemoteConfigFetch :: "string \<Rightarrow> call" where
  "RecordRemoteConfigFetch result = \<lparr>c_var = ApiVar V_remoteConfigFetchesTotal, c_labels = [(''result'', result)], c_val = VInt 1\<rparr>"

definition RecordBandwidthReport :: "string \<Rightarrow> call" where
  "RecordBandwidthReport result = \<lparr>c_var = ApiVar V_bandwidthReportsTotal, c_labels = [(''result'', result)], c_val = VInt 1\<rparr>"

definition RecordPeerBandwidthBytes :: "string \<Rightarrow> string \<Rightarrow> int \<Rightarrow> call" where
  "RecordPeerBandwidthBytes peer direction bytes = \<lparr>c_var = ApiVar V_peerBandwidthBytesTotal, c_labels = [(''peer'', peer), (''direction'', direction)], c_val = VInt bytes\<rparr>"

definition RecordMemorySpike :: "string \<Rightarrow> call" where
  "RecordMemorySpike severity = \<lparr>c_var = ApiVar V_memorySpikeTotal, c_labels = [(''severity'', severity)], c_val = VInt 1\<rparr>"

definition RecordHeapProfileWritten :: "call" where
  "RecordHeapProfileWritten = \<lparr>c_var = ApiVar V_heapProfilesWrittenTotal, c_labels = [], c_val = VInt 1\<rparr>"

definition emit :: "(instrument \<Rightarrow> val \<Rightarrow> labels \<Rightarrow> metrics_state \<Rightarrow> metrics_state)
    \<Rightarrow> (ivar, instrument) gomap \<Rightarrow> call \<Rightarrow> metrics_state \<Rightarrow> metrics_state" where
  "emit rec vars c s = (case Load vars (c_var c) of None \<Rightarrow> s | Some i \<Rightarrow> rec i (c_val c) (c_labels c) s)"

fun intOf :: "val \<Rightarrow> int" where
  "intOf (VInt n) = n"
| "intOf (VFloat _) = 0"

definition gauge :: "ivar \<Rightarrow> call list \<Rightarrow> int" where
  "gauge v calls = sum_list (map (\<lambda>c. intOf (c_val c)) (filter (\<lambda>c. c_var c = v) calls))"

definition kindOK :: "kind \<Rightarrow> val \<Rightarrow> bool" where
  "kindOK k v = (case v of VInt _ \<Rightarrow> k \<in> {KCounter, KUpDownCounter, KInt64Gauge}
                 | VFloat _ \<Rightarrow> k \<in> {KFloat64Gauge, KHistogram})"

text \<open>The calls the facade can make.\<close>

inductive is_facade_call :: "call \<Rightarrow> bool" where
  "is_facade_call (RecordInterfaceUp ifname inst up)"
| "is_facade_call (RecordPeersTotal ifname delta)"
| "is_facade_call (RecordPeerConnected ifname peer isConnected)"
| "is_facade_call (RecordHandshake ifname peer result)"
| "is_facade_call (RecordHandshakeLatency ifname peer seconds)"
| "is_facade_call (RecordPeerRTT ifname peer seconds)"
| "is_facade_call (RecordBytesReceived ifname peer bytes)"
| "is_facade_call (RecordBytesTransmitted ifname peer bytes)"
| "is_facade_call (RecordAllowedIPsCount ifname peer delta)"
| "is_facade_call (RecordKeyRotation ifname reason)"
| "is_facade_call (RecordNetlinkEvent eventType)"
| "is_facade_call (RecordNetlinkError component errorType)"
| "is_facade_call (RecordSyncDuration component seconds)"
| "is_facade_call (RecordWorkqueueDepth queue delta)"
| "is_facade_call (RecordKernelModuleLoad result)"
| "is_facade_call (RecordFirewallRuleApplied result chain)"
| "is_facade_call (RecordActiveSession ifname delta)"
| "is_facade_call (RecordActiveProxyConnection delta)"
| "is_facade_call (RecordProxyRouteLookup result)"
| "is_facade_call (RecordProxyTLSHandshake seconds)"
| "is_facade_call (RecordProxyBytesTransmitted direction bytes)"
| "is_facade_call (RecordConfigReload result)"
| "is_facade_call (RecordRestart)"
| "is_facade_call (RecordAuthFailure peer reason)"
| "is_facade_call (RecordACLDenied ifname peer policy)"
| "is_facade_call (RecordCertificateExpiry certName ifname days)"
| "is_facade_call (RecordUDPPacket ifname packetType direction)"
| "is_facade_call (RecordUDPPacketSize ifname packetType bytes)"
| "is_facade_call (RecordHolePunchEvent ifname result)"
| "is_facade_call (RecordProxyMapping ifname delta)"
| "is_facade_call (RecordSession ifname delta)"
| "is_facade_call (RecordUDPConnection ifname delta)"
| "is_facade_call (RecordSessionRebuilt ifname)"
| "is_facade_call (RecordCommPattern ifname delta)"
| "is_facade_call (RecordProxyCleanupRemoved ifname component cnt)"
| "is_facade_call (RecordProxyConnectionError ifname errorType)"
| "is_facade_call (RecordProxyInitialMappings ifname cnt)"
| "is_facade_call (RecordProxyMappingUpdate ifname)"
| "is_facade_call (RecordProxyIdleCleanupDuration ifname component seconds)"
| "is_facade_call (RecordSNIConnection result)"
| "is_facade_call (RecordSNIConnectionDuration seconds)"
| "is_facade_call (RecordSNIActiveConnection delta)"
| "is_facade_call (RecordSNIRouteCacheHit result)"
| "is_facade_call (RecordSNIRouteAPIRequest result)"
| "is_facade_call (RecordSNIRouteAPILatency seconds)"
| "is_facade_call (RecordSNILocalOverride hit)"
| "is_facade_call (RecordSNITrustedProxyEvent event)"
| "is_facade_call (RecordSNIProxyProtocolParseError)"
| "is_facade_call (RecordSNIDataBytes direction bytes)"
| "is_facade_call (RecordSNITunnelTermination reason)"
| "is_facade_call (RecordHTTPRequest endpoint method statusCode)"
| "is_facade_call (RecordHTTPRequestDuration endpoint method seconds)"
| "is_facade_call (RecordPeerOperation operation result)"
| "is_facade_call (RecordProxyMappingUpdateRequest result)"
| "is_facade_call (RecordDestinationsUpdateRequest result)"
| "is_facade_call (RecordRemoteConfigFetch result)"
| "is_facade_call (RecordBandwidthReport result)"
| "is_facade_call (RecordPeerBandwidthBytes peer direction bytes)"
| "is_facade_call (RecordMemorySpike severity)"
| "is_facade_call (RecordHeapProfileWritten)"

subsection \<open>The facade matches the registered instruments\<close>

lemmas Record_defs =
  RecordInterfaceUp_def RecordPeersTotal_def RecordPeerConnected_def RecordHandshake_def
  RecordHandshakeLatency_def RecordPeerRTT_def RecordBytesReceived_def RecordBytesTransmitted_def
  RecordAllowedIPsCount_def RecordKeyRotation_def RecordNetlinkEvent_def RecordNetlinkError_def
  RecordSyncDuration_def RecordWorkqueueDepth_def RecordKernelModuleLoad_def RecordFirewallRuleApplied_def
  RecordActiveSession_def RecordActiveProxyConnection_def RecordProxyRouteLookup_def RecordProxyTLSHandshake_def
  RecordProxyBytesTransmitted_def RecordConfigReload_def RecordRestart_def RecordAuthFailure_def
  RecordACLDenied_def RecordCertificateExpiry_def RecordUDPPacket_def RecordUDPPacketSize_def
  RecordHolePunchEvent_def RecordProxyMapping_def RecordSession_def RecordUDPConnection_def
  RecordSessionRebuilt_def RecordCommPattern_def RecordProxyCleanupRemoved_def RecordProxyConnectionError_def
  RecordProxyInitialMappings_def RecordProxyMappingUpdate_def RecordProxyIdleCleanupDuration_def RecordSNIConnection_def
  RecordSNIConnectionDuration_def RecordSNIActiveConnection_def RecordSNIRouteCacheHit_def RecordSNIRouteAPIRequest_def
  RecordSNIRouteAPILatency_def RecordSNILocalOverride_def RecordSNITrustedProxyEvent_def RecordSNIProxyProtocolParseError_def
  RecordSNIDataBytes_def RecordSNITunnelTermination_def RecordHTTPRequest_def RecordHTTPRequestDuration_def
  RecordPeerOperation_def RecordProxyMappingUpdateRequest_def RecordDestinationsUpdateRequest_def RecordRemoteConfigFetch_def
  RecordBandwidthReport_def RecordPeerBandwidthBytes_def RecordMemorySpike_def RecordHeapProfileWritten_def

lemmas table_defs = wgInstruments_def systemInstruments_def operationalInstruments_def
  relayInstruments_def sniInstruments_def apiInstruments_def

lemma gauge_Nil [simp]: "gauge v [] = 0"
  by (simp add: gauge_def)

lemma gauge_append [simp]: "gauge v (xs @ ys) = gauge v xs + gauge v ys"
  by (simp add: gauge_def)

lemma gauge_Cons2 [simp]: "gauge v (c # d # cs) = gauge v [c] + gauge v (d # cs)"
  by (simp add: gauge_def)

lemma gauge_single: "gauge v [c] = (if c_var c = v then intOf (c_val c) else 0)"
  by (simp add: gauge_def)

lemma createFrom_ok:
  "fst (createFrom newI tab vars) = None \<Longrightarrow>
   Load (snd (createFrom newI tab vars)) v = (case Load (rev tab) v of Some i \<Rightarrow> Some i | None \<Rightarrow> Load vars v)"
  by (induction newI tab vars rule: createFrom.induct)
    (auto simp: map_add_def Load_Store split: option.splits)

lemma Load_map_inj: "inj f \<Longrightarrow> Load (map (map_prod f id) xs) (f v) = Load xs v"
  by (induction xs) (auto dest: injD)

lemma Load_map_other: "(\<And>x. f x \<noteq> w) \<Longrightarrow> Load (map (map_prod f id) xs) w = None"
  by (induction xs) auto

lemma inj_vars [simp]: "inj WgVar" "inj SysVar" "inj OpVar" "inj RelayVar" "inj SniVar" "inj ApiVar"
  by (auto intro: injI)

lemma table_lookup [simp]:
  "Load instrumentTable (WgVar a) = Load wgInstruments a"
  "Load instrumentTable (SysVar b) = Load systemInstruments b"
  "Load instrumentTable (OpVar c) = Load operationalInstruments c"
  "Load instrumentTable (RelayVar d) = Load relayInstruments d"
  "Load instrumentTable (SniVar e) = Load sniInstruments e"
  "Load instrumentTable (ApiVar f) = Load apiInstruments f"
  by (simp_all add: instrumentTable_def map_add_def Load_map_inj Load_map_other split: option.splits)

lemma groups_distinct:
  "distinct (map fst wgInstruments)" "distinct (map fst systemInstruments)" "distinct (map fst operationalInstruments)"
  "distinct (map fst relayInstruments)" "distinct (map fst sniInstruments)" "distinct (map fst apiInstruments)"
  by (simp_all add: table_defs)

lemma table_distinct: "distinct (map fst instrumentTable)"
proof -
  have d: "distinct (map fst (map (map_prod f id) xs))" if "inj f" "distinct (map fst xs)"
    for f :: "'a \<Rightarrow> ivar" and xs :: "('a \<times> instrument) list"
    using that by (induction xs) (auto dest: injD)
  show ?thesis
    unfolding instrumentTable_def map_append distinct_append
    using groups_distinct by (intro conjI d) auto
qed

lemma createInstruments_ok:
  assumes "fst (createInstruments newI vars) = None" "Load instrumentTable v = Some i"
  shows "Load (snd (createInstruments newI vars)) v = Some i"
proof -
  have "Load (rev instrumentTable) v = Some i"
    using assms(2) table_distinct by (simp add: map_of_eq_Some_iff rev_map [symmetric])
  with assms(1) show ?thesis by (simp add: createInstruments_def createFrom_ok)
qed

lemma facade_call_table:
  assumes "is_facade_call c"
  shows "\<exists>i. Load instrumentTable (c_var c) = Some i \<and> map fst (c_labels c) = i_labels i
    \<and> kindOK (i_kind i) (c_val c)"
  using assms by cases (simp_all add: Record_defs table_defs kindOK_def)

lemma createFrom_none: "(\<And>i. i \<in> snd ` set tab \<Longrightarrow> newI i = None) \<Longrightarrow> fst (createFrom newI tab vars) = None"
  by (induction newI tab vars rule: createFrom.induct) (auto split: option.splits)

lemma table_labels_valid: "list_all (\<lambda>(v, i). list_all labelNameOK (i_labels i) \<and> distinct (i_labels i)) instrumentTable"
  by (simp add: instrumentTable_def table_defs labelNameOK_def isLabelStart_def isDigit_def)

lemma promEmit_kept:
  "fst ` set ls \<subseteq> set (i_labels i) \<Longrightarrow> droppedSamples (promEmit i norms v ls s) = droppedSamples s"
  using normalizeLabels_Some_iff [of "i_labels i" ls norms] by (auto simp: promEmit_def)

lemma prom_dropped:
  assumes "fst ` set ls \<subseteq> set (i_labels i)"
  shows "droppedSamples (promRecord i v ls s) = droppedSamples s"
  using promEmit_kept [OF assms] by (simp add: promRecord_def promCounterAdd_def split: kind.split val.split)

lemma facade_emit:
  assumes "label_backend R" "createInstruments newI vars0 = (None, vars)" "is_facade_call c"
    and "\<forall>i. Load instrumentTable (c_var c) = Some i \<longrightarrow> admissible i (c_val c)"
  shows "\<exists>i l. Load instrumentTable (c_var c) = Some i \<and> fst ` set l = set (i_labels i)
    \<and> emitted (emit R vars c s) = emitted s @ [(i_name i, l, c_val c)]"
proof -
  obtain i where i: "Load instrumentTable (c_var c) = Some i" "map fst (c_labels c) = i_labels i"
    using facade_call_table [OF assms(3)] by blast
  have ld: "Load vars (c_var c) = Some i" using createInstruments_ok [OF _ i(1), of newI vars0] assms(2) by simp
  have sub: "fst ` set (c_labels c) \<subseteq> set (i_labels i)" using arg_cong [OF i(2), of set] by simp
  have adm: "admissible i (c_val c)" using assms(4) i(1) by blast
  show ?thesis using label_backend.emit [OF assms(1) sub adm, of s] i(1) by (auto simp: emit_def ld)
qed

lemma facade_not_dropped:
  assumes "createInstruments newI vars0 = (None, vars)" "is_facade_call c"
  shows "droppedSamples (emit promRecord vars c s) = droppedSamples s" "droppedSamples (emit otelRecord vars c s) = droppedSamples s"
proof -
  obtain i where i: "Load instrumentTable (c_var c) = Some i" "map fst (c_labels c) = i_labels i"
    using facade_call_table [OF assms(2)] by blast
  have ld: "Load vars (c_var c) = Some i" using createInstruments_ok [OF _ i(1), of newI vars0] assms(1) by simp
  have sub: "fst ` set (c_labels c) \<subseteq> set (i_labels i)" using arg_cong [OF i(2), of set] by simp
  show "droppedSamples (emit promRecord vars c s) = droppedSamples s" using prom_dropped [OF sub] by (simp add: emit_def ld)
  show "droppedSamples (emit otelRecord vars c s) = droppedSamples s" by (simp add: emit_def ld otelRecord_def split: option.split)
qed

subsection \<open>Properties\<close>

text \<open>
  After a successful \<open>createInstruments\<close>, every call of the facade (with a value its instrument
  accepts: counters take non-negative values) is exported as exactly one sample, with exactly
  the declared label names, on the Prometheus and on the OpenTelemetry backend; the count of
  dropped samples never moves.
\<close>

theorem facade_samples_never_dropped:
  assumes "createInstruments newI vars0 = (None, vars)" "is_facade_call c"
    and "\<forall>i. Load instrumentTable (c_var c) = Some i \<longrightarrow> admissible i (c_val c)"
  shows "(\<exists>i l. Load instrumentTable (c_var c) = Some i \<and> fst ` set l = set (i_labels i)
      \<and> emitted (emit promRecord vars c s) = emitted s @ [(i_name i, l, c_val c)])
    \<and> (\<exists>i l. Load instrumentTable (c_var c) = Some i \<and> fst ` set l = set (i_labels i)
      \<and> emitted (emit otelRecord vars c s) = emitted s @ [(i_name i, l, c_val c)])
    \<and> droppedSamples (emit promRecord vars c s) = droppedSamples s"
  using facade_emit [OF prom.label_backend_axioms assms] facade_emit [OF otel.label_backend_axioms assms]
    facade_not_dropped [OF assms(1,2)] by blast

text \<open>
  The OpenTelemetry backend rejects no instrument for its label names: if the meter itself accepts
  every instrument, \<open>createInstruments\<close> succeeds and every variable of the facade is set.
\<close>

theorem createInstruments_succeeds_on_otel:
  assumes "\<forall>i. meter i = None" "Load instrumentTable v = Some i"
  shows "fst (createInstruments (otelNewInstrument meter) vars) = None
    \<and> Load (snd (createInstruments (otelNewInstrument meter) vars)) v = Some i"
proof -
  have "otelNewInstrument meter j = None" if "j \<in> snd ` set instrumentTable" for j
  proof -
    from that table_labels_valid have "list_all labelNameOK (i_labels j) \<and> distinct (i_labels j)"
      by (force simp: list_all_iff)
    then have "validateLabelNames (i_labels j) = Inr (i_labels j)" by (simp add: validateLabelNames_Inr)
    with assms(1) show ?thesis by (simp add: otelNewInstrument_def)
  qed
  then have ok: "fst (createInstruments (otelNewInstrument meter) vars) = None"
    unfolding createInstruments_def by (rule createFrom_none)
  with createInstruments_ok [OF ok assms(2)] show ?thesis by simp
qed

subsection \<open>Witnesses\<close>

theorem facade_samples_witness:
  "\<exists>vars. droppedSamples (emit promRecord vars (RecordUDPConnection ''relay'' (-1)) \<lparr>emitted = [], droppedSamples = 0\<rparr>) = 0
     \<and> Load vars (RelayVar V_relayUDPConnectionsActive) \<noteq> None"
proof -
  have ok: "fst (createInstruments (\<lambda>_. None) []) = None" unfolding createInstruments_def by (rule createFrom_none) simp
  then obtain vars where vars: "createInstruments (\<lambda>_. None) [] = (None, vars)" by (metis prod.collapse)
  have "is_facade_call (RecordUDPConnection ''relay'' (-1))" by (rule is_facade_call.intros)
  moreover have adm: "\<forall>i. Load instrumentTable (c_var (RecordUDPConnection ''relay'' (-1))) = Some i
      \<longrightarrow> admissible i (c_val (RecordUDPConnection ''relay'' (-1)))"
    by (simp add: RecordUDPConnection_def table_defs admissible_def)
  ultimately have "droppedSamples (emit promRecord vars (RecordUDPConnection ''relay'' (-1)) \<lparr>emitted = [], droppedSamples = 0\<rparr>) = 0"
    using facade_samples_never_dropped [OF vars, of "RecordUDPConnection ''relay'' (-1)" "\<lparr>emitted = [], droppedSamples = 0\<rparr>"] by simp
  moreover have "\<exists>i. Load instrumentTable (RelayVar V_relayUDPConnectionsActive) = Some i" by (simp add: table_defs)
  then have "Load vars (RelayVar V_relayUDPConnectionsActive) \<noteq> None"
    using createInstruments_ok [OF ok] vars by auto
  ultimately show ?thesis by blast
qed

theorem createInstruments_otel_witness:
  "fst (createInstruments (otelNewInstrument (\<lambda>_. None)) []) = None"
proof -
  obtain i where "Load instrumentTable (RelayVar V_relayUDPConnectionsActive) = Some i" by (auto simp: table_defs)
  from createInstruments_succeeds_on_otel [OF _ this, of "\<lambda>_. None" "[]"] show ?thesis by simp
qed

end
