(* ===== verification/Endpoint_Cache.thy ===== *)
theory Endpoint_Cache
  imports Gerbil_Prelude
begin

text \<open>
  Model of the endpoint cache of \<open>relay/relay.go\<close> (\<open>endpointCache\<close>): a bounded map from client
  identity to the last endpoint the upstream service accepted, with a time to live.

  The operations are atomic (each holds the mutex), so a run of the cache is a sequence of
  operations, \<open>cache_step\<close>.  Its iteration order is any permutation of the entries
  (\<open>cs_order\<close>).  The lemmas show that the cache never exceeds its bound, that \<open>Load\<close> returns
  only what was stored and only while fresh, that a store makes room by evicting an entry of
  minimal age stamp, and that the operations satisfy the contract \<open>ttl_cache\<close> that the
  hole-punch handler relies on.
\<close>

record cachedEndpointState =
  es_OlmID :: string
  es_NewtID :: string
  es_Token :: string
  es_IP :: string
  es_Port :: int
  es_PublicKey :: string

record cachedEndpointEntry =
  ce_state :: cachedEndpointState
  ce_cachedAt :: time

record endpointCache =
  ec_entries :: "(string, cachedEndpointEntry) gomap"
  ec_maxEntries :: int
  ec_ttl :: duration

definition endpointCacheTTL :: duration where "endpointCacheTTL = 2500 * millisecond"
definition maxEndpointCacheEntries :: int where "maxEndpointCacheEntries = 10000"

definition newEndpointCache :: "int \<Rightarrow> duration \<Rightarrow> endpointCache" where
  "newEndpointCache maxEntries ttl = \<lparr>ec_entries = [], ec_maxEntries = maxEntries, ec_ttl = ttl\<rparr>"

definition ec_Load :: "time \<Rightarrow> string \<Rightarrow> endpointCache \<Rightarrow> cachedEndpointEntry option \<times> endpointCache" where
  "ec_Load now key c =
     (case Load (ec_entries c) key of
        None \<Rightarrow> (None, c)
      | Some entry \<Rightarrow>
          if ec_ttl c \<le> timeSub now (ce_cachedAt entry)
          then (None, c\<lparr>ec_entries := Delete key (ec_entries c)\<rparr>)
          else (Some entry, c))"

definition oldestKey :: "(string, cachedEndpointEntry) gomap \<Rightarrow> string option" where
  "oldestKey m = map_option fst (oldestBy (\<lambda>(_, v). ce_cachedAt v) m)"

definition ec_Store :: "string \<Rightarrow> cachedEndpointEntry \<Rightarrow> endpointCache \<Rightarrow> endpointCache" where
  "ec_Store key entry c =
     (if ec_maxEntries c \<le> 0 then c
      else
        let m = ec_entries c;
            m' = (if \<not> hasKey m key \<and> ec_maxEntries c \<le> int (length m)
                  then (case oldestKey m of None \<Rightarrow> m | Some k \<Rightarrow> Delete k m) else m)
        in c\<lparr>ec_entries := Store key entry m'\<rparr>)"

definition ec_DeleteExpired :: "time \<Rightarrow> endpointCache \<Rightarrow> endpointCache" where
  "ec_DeleteExpired now c =
     c\<lparr>ec_entries := filter (\<lambda>(_, e). \<not> ec_ttl c \<le> timeSub now (ce_cachedAt e)) (ec_entries c)\<rparr>"

inductive cache_step :: "endpointCache \<Rightarrow> endpointCache \<Rightarrow> bool" where
  cs_load: "cache_step c (snd (ec_Load now key c))"
| cs_store: "cache_step c (ec_Store key entry c)"
| cs_expire: "cache_step c (ec_DeleteExpired now c)"
| cs_order: "mset m = mset (ec_entries c) \<Longrightarrow> cache_step c (c\<lparr>ec_entries := m\<rparr>)"

definition cache_inv :: "endpointCache \<Rightarrow> bool" where
  "cache_inv c \<longleftrightarrow> wf_map (ec_entries c) \<and> int (length (ec_entries c)) \<le> max 0 (ec_maxEntries c)"

definition ec_holds :: "endpointCache \<Rightarrow> string \<Rightarrow> cachedEndpointEntry \<Rightarrow> bool" where
  "ec_holds c k v \<longleftrightarrow> Load (ec_entries c) k = Some v"

abbreviation (input) wEntry :: "time \<Rightarrow> cachedEndpointEntry" where
  "wEntry t \<equiv> \<lparr>ce_state = \<lparr>es_OlmID = ''o'', es_NewtID = ''n'', es_Token = ''t'', es_IP = ''i'',
     es_Port = 1, es_PublicKey = ''p''\<rparr>, ce_cachedAt = t\<rparr>"

subsection \<open>The oldest entry\<close>

lemma oldestKey_Some:
  assumes "m \<noteq> []"
  obtains k v where "oldestKey m = Some k" "(k, v) \<in> set m"
    "\<And>k' v'. (k', v') \<in> set m \<Longrightarrow> ce_cachedAt v \<le> ce_cachedAt v'"
proof -
  from assms obtain k v where *: "oldestBy (\<lambda>(_, v). ce_cachedAt v) m = Some (k, v)"
    by (cases "oldestBy (\<lambda>(_, v). ce_cachedAt v) m") auto
  show ?thesis
    by (rule that [of k v]) (use * oldestBy_Some [OF *] in \<open>auto simp: oldestKey_def\<close>)
qed

lemma ec_Store_full:
  assumes "cache_inv c" "0 < ec_maxEntries c" "\<not> hasKey (ec_entries c) key"
    "ec_maxEntries c \<le> int (length (ec_entries c))"
  obtains k v where "(k, v) \<in> set (ec_entries c)"
    "\<And>k' v'. (k', v') \<in> set (ec_entries c) \<Longrightarrow> ce_cachedAt v \<le> ce_cachedAt v'"
    "ec_entries (ec_Store key entry c) = Store key entry (Delete k (ec_entries c))"
proof -
  from assms have "ec_entries c \<noteq> []" by auto
  then obtain k v where *: "oldestKey (ec_entries c) = Some k" "(k, v) \<in> set (ec_entries c)"
    "\<And>k' v'. (k', v') \<in> set (ec_entries c) \<Longrightarrow> ce_cachedAt v \<le> ce_cachedAt v'"
    by (rule oldestKey_Some) blast
  show ?thesis
    by (rule that [of k v]) (use * assms in \<open>auto simp: ec_Store_def Let_def\<close>)
qed

subsection \<open>The bound\<close>

lemma ec_Store_inv [inv_rules]: "cache_inv c \<Longrightarrow> cache_inv (ec_Store key entry c)"
proof (cases "0 < ec_maxEntries c \<and> \<not> hasKey (ec_entries c) key
    \<and> ec_maxEntries c \<le> int (length (ec_entries c))")
  case True
  assume inv: "cache_inv c"
  with True obtain k v where kv: "(k, v) \<in> set (ec_entries c)"
    "ec_entries (ec_Store key entry c) = Store key entry (Delete k (ec_entries c))"
    by (metis ec_Store_full)
  moreover from kv have "hasKey (ec_entries c) k" by (force simp: hasKey_iff)
  moreover have "ec_maxEntries (ec_Store key entry c) = ec_maxEntries c"
    by (simp add: ec_Store_def Let_def)
  ultimately show ?thesis
    using inv True hasKey_length_pos [of "ec_entries c" k]
    by (auto simp: cache_inv_def length_Store length_Delete)
next
  case False
  assume "cache_inv c"
  with False show ?thesis by (auto simp: cache_inv_def ec_Store_def Let_def length_Store)
qed

lemma ec_Load_inv [inv_rules]: "cache_inv c \<Longrightarrow> cache_inv (snd (ec_Load now key c))"
  by (auto simp: cache_inv_def ec_Load_def length_Delete split: option.split)

lemma ec_DeleteExpired_inv [inv_rules]: "cache_inv c \<Longrightarrow> cache_inv (ec_DeleteExpired now c)"
  unfolding cache_inv_def ec_DeleteExpired_def
  by (auto intro: order_trans [OF of_nat_mono [OF length_filter_le]])

lemma cache_step_inv: "cache_step c d \<Longrightarrow> cache_inv c \<Longrightarrow> cache_inv d"
proof (induction rule: cache_step.induct)
  case (cs_order m c)
  then show ?case using wf_map_mset [of m "ec_entries c"] mset_eq_length [of m "ec_entries c"]
    by (simp add: cache_inv_def)
qed (auto intro: inv_rules)

interpretation ec_sys: step_system cache_step cache_inv
  by unfold_locales (rule cache_step_inv)

lemma cache_step_max: "cache_step c d \<Longrightarrow> ec_maxEntries d = ec_maxEntries c \<and> ec_ttl d = ec_ttl c"
  by (induction rule: cache_step.induct)
    (auto simp: ec_Load_def ec_Store_def ec_DeleteExpired_def Let_def split: option.split)

lemma cache_run_max: "cache_step\<^sup>*\<^sup>* c d \<Longrightarrow> ec_maxEntries d = ec_maxEntries c \<and> ec_ttl d = ec_ttl c"
  by (induction rule: rtranclp_induct) (auto dest: cache_step_max)

subsection \<open>The contract of a cache with a time to live\<close>

text \<open>
  What the hole-punch handler relies on: a stored entry is returned until it is too old, and a
  lookup never returns anything that is not the latest entry stored under the key.
\<close>

locale ttl_cache =
  fixes load :: "time \<Rightarrow> 'k \<Rightarrow> 'c \<Rightarrow> 'v option \<times> 'c"
    and store :: "'k \<Rightarrow> 'v \<Rightarrow> 'c \<Rightarrow> 'c"
    and stamp :: "'v \<Rightarrow> time"
    and ttl :: "'c \<Rightarrow> duration"
    and usable :: "'c \<Rightarrow> bool"
    and holds :: "'c \<Rightarrow> 'k \<Rightarrow> 'v \<Rightarrow> bool"
  assumes load_holds: "usable c \<Longrightarrow> fst (load now k c) = Some v \<longleftrightarrow> holds c k v \<and> timeSub now (stamp v) < ttl c"
    and load_keeps: "usable c \<Longrightarrow> holds (snd (load now k c)) k' v' \<Longrightarrow> holds c k' v'"
    and load_usable: "usable c \<Longrightarrow> usable (snd (load now k c)) \<and> ttl (snd (load now k c)) = ttl c"
    and store_holds: "usable c \<Longrightarrow> holds (store k v c) k w \<longleftrightarrow> w = v"
    and store_usable: "usable c \<Longrightarrow> usable (store k v c) \<and> ttl (store k v c) = ttl c"
begin

lemma load_store:
  assumes "usable c"
  shows "fst (load now k (store k v c)) = (if timeSub now (stamp v) < ttl c then Some v else None)"
proof (cases "timeSub now (stamp v) < ttl c")
  case True
  then show ?thesis using assms load_holds store_holds store_usable by auto
next
  case False
  then have "fst (load now k (store k v c)) \<noteq> Some w" for w
    using assms load_holds store_holds store_usable by auto
  with False show ?thesis by auto
qed

lemma no_resurrection:
  assumes "usable c" "fst (load now k c) = None" "ttl c \<le> timeSub now (stamp v)"
  shows "fst (load now k (snd (load now k c))) \<noteq> Some v"
  using assms load_holds load_usable by force

end

interpretation ec: ttl_cache ec_Load ec_Store ce_cachedAt ec_ttl "\<lambda>c. 0 < ec_maxEntries c" ec_holds
  by unfold_locales
    (auto simp: ec_Load_def ec_Store_def ec_holds_def Load_Store Load_Delete Let_def not_le
      split: option.splits if_splits)

subsection \<open>Properties\<close>

text \<open>
  Whatever sequence of loads, stores, expiry sweeps and map reorderings runs on a new endpoint
  cache, it never holds more entries than its bound (and none at all for a bound that is not
  positive), one per key.
\<close>

theorem endpointCache_bounded:
  assumes "cache_step\<^sup>*\<^sup>* (newEndpointCache maxEntries ttl) c"
  shows "int (length (ec_entries c)) \<le> max 0 maxEntries \<and> distinct (map fst (ec_entries c))"
proof -
  have "cache_inv (newEndpointCache maxEntries ttl)" by (simp add: cache_inv_def newEndpointCache_def)
  with assms have "cache_inv c" by (rule ec_sys.run_inv)
  moreover from assms have "ec_maxEntries c = maxEntries"
    using cache_run_max [OF assms] by (simp add: newEndpointCache_def)
  ultimately show ?thesis by (simp add: cache_inv_def wf_map_def)
qed

text \<open>
  Storing a new key into a full cache removes exactly one entry, one whose age stamp is minimal
  among all entries; every other entry stays, and the new one is found.
\<close>

theorem endpointCache_evicts_oldest:
  assumes "cache_inv c" "0 < ec_maxEntries c" "Load (ec_entries c) key = None"
    and "int (length (ec_entries c)) = ec_maxEntries c"
  shows "\<exists>k v. Load (ec_entries c) k = Some v
    \<and> (\<forall>k' v'. Load (ec_entries c) k' = Some v' \<longrightarrow> ce_cachedAt v \<le> ce_cachedAt v')
    \<and> Load (ec_entries (ec_Store key entry c)) = (Load (ec_entries c))(k := None, key \<mapsto> entry)
    \<and> length (ec_entries (ec_Store key entry c)) = length (ec_entries c)"
proof -
  let ?m = "ec_entries c"
  from assms have wf: "wf_map ?m" and nk: "\<not> hasKey ?m key" by (auto simp: cache_inv_def hasKey_def)
  obtain k v where kv: "(k, v) \<in> set ?m"
    "\<And>k' v'. (k', v') \<in> set ?m \<Longrightarrow> ce_cachedAt v \<le> ce_cachedAt v'"
    "ec_entries (ec_Store key entry c) = Store key entry (Delete k ?m)"
    by (rule ec_Store_full [OF assms(1,2) nk]) (use assms(4) in auto)
  have lk: "Load ?m k = Some v" using wf_map_in_set [OF wf, of k v] kv(1) by simp
  then have "length (Store key entry (Delete k ?m)) = length ?m"
    using wf nk hasKey_length_pos [of ?m k] by (auto simp: length_Store length_Delete hasKey_def Load_Delete)
  moreover have "Load (Store key entry (Delete k ?m)) = (Load ?m)(k := None, key \<mapsto> entry)"
    by (auto simp: Load_Store Load_Delete)
  moreover have "\<forall>k' v'. Load ?m k' = Some v' \<longrightarrow> ce_cachedAt v \<le> ce_cachedAt v'"
    using kv(2) Load_in_set by fast
  ultimately show ?thesis by (intro exI [of _ k] exI [of _ v]) (simp only: lk kv(3) simp_thms)
qed

text \<open>
  An entry just stored is what a lookup of its key returns while it is younger than the time
  to live, and is not returned any more from then on.
\<close>

theorem endpointCache_store_load:
  assumes "0 < ec_maxEntries c"
  shows "fst (ec_Load now key (ec_Store key entry c))
    = (if timeSub now (ce_cachedAt entry) < ec_ttl c then Some entry else None)"
  using assms by (rule ec.load_store)

subsection \<open>Witnesses\<close>

theorem endpointCache_bounded_witness:
  "cache_step\<^sup>*\<^sup>* (newEndpointCache 1 5) (ec_Store ''b'' (wEntry 3) (ec_Store ''a'' (wEntry 2) (newEndpointCache 1 5)))
   \<and> int (length (ec_entries (ec_Store ''b'' (wEntry 3) (ec_Store ''a'' (wEntry 2) (newEndpointCache 1 5))))) \<le> 1"
proof -
  have run: "cache_step\<^sup>*\<^sup>* (newEndpointCache 1 5) (ec_Store ''b'' (wEntry 3) (ec_Store ''a'' (wEntry 2) (newEndpointCache 1 5)))"
    by (meson cs_store rtranclp.rtrancl_into_rtrancl rtranclp.rtrancl_refl)
  with endpointCache_bounded [OF run] show ?thesis by simp
qed

theorem endpointCache_evicts_oldest_witness:
  "let c = \<lparr>ec_entries = [(''a'', wEntry 4), (''b'', wEntry 2)], ec_maxEntries = 2, ec_ttl = 5\<rparr> in
   Load (ec_entries c) ''b'' = Some (wEntry 2) \<and> length (ec_entries (ec_Store ''c'' (wEntry 9) c)) = 2"
proof -
  let ?c = "\<lparr>ec_entries = [(''a'', wEntry 4), (''b'', wEntry 2)], ec_maxEntries = 2, ec_ttl = 5\<rparr>"
  have "cache_inv ?c" "0 < ec_maxEntries ?c" "Load (ec_entries ?c) ''c'' = None"
    "int (length (ec_entries ?c)) = ec_maxEntries ?c"
    by (simp_all add: cache_inv_def wf_map_def)
  then have "length (ec_entries (ec_Store ''c'' (wEntry 9) ?c)) = length (ec_entries ?c)"
    using endpointCache_evicts_oldest [of ?c "''c''" "wEntry 9"] by blast
  then show ?thesis by simp
qed

theorem endpointCache_store_load_witness:
  "fst (ec_Load 10 ''a'' (ec_Store ''a'' (wEntry 7) (newEndpointCache 2 5))) = Some (wEntry 7)
   \<and> fst (ec_Load 12 ''a'' (ec_Store ''a'' (wEntry 7) (newEndpointCache 2 5))) = None"
  using endpointCache_store_load [of "newEndpointCache 2 5" 10 "''a''" "wEntry 7"]
    endpointCache_store_load [of "newEndpointCache 2 5" 12 "''a''" "wEntry 7"]
  by (simp add: newEndpointCache_def timeSub_def minDuration_def maxDuration_def)

end
