(* ===== verification/Relay_State.thy ===== *)
theory Relay_State
  imports Go_Net Metrics Endpoint_Cache
begin

text \<open>
  State of the UDP relay (\<open>relay/relay.go\<close>, \<open>UDPProxyServer\<close>) and the helpers that only read or
  fill a cache.

  \<^item> \<open>server\<close> is the struct; every \<open>sync.Map\<close> is an association list.  A \<open>DestinationConn\<close> is held
    by the connection table only, so it is stored inline and its socket number \<open>uc_id\<close> is its
    identity.  A \<open>WireGuardSession\<close> is shared between \<open>wgSessions\<close> and \<open>sessionsByReceiverIndex\<close>, so
    sessions live in an explicit store \<open>s_heap\<close> and both tables hold references into it.
  \<^item> \<open>s_mlog\<close> lists the metric calls made, \<open>s_out\<close> the datagrams sent, \<open>s_closed\<close> the sockets closed,
    \<open>s_responders\<close> the running \<open>handleResponses\<close> goroutines, \<open>s_pool\<close> the packet buffers released.
  \<^item> \<open>env\<close> is what a handler sees of the outside: the clock (one reading per handler call), name
    resolution, dialling and writing (each call numbered by \<open>s_io\<close>, so two calls with the same
    arguments may differ) and the configured connection cap.
  \<^item> Log output is not modelled.
\<close>

record PeerDestination =
  DestinationIP :: string
  DestinationPort :: int

record ProxyMapping =
  pm_Destinations :: "PeerDestination list"
  pm_LastUsed :: time

record UDPConn =
  uc_id :: nat
  uc_dest :: UDPAddr

record DestinationConn =
  dc_conn :: UDPConn
  dc_lastUsed :: int

record WireGuardSession =
  ws_ReceiverIndex :: u32
  ws_SenderIndex :: u32
  ws_DestAddr :: "UDPAddr option"
  ws_LastSeen :: time

record CommunicationPattern =
  cp_FromClient :: UDPAddr
  cp_ToDestination :: UDPAddr
  cp_ClientIndex :: u32
  cp_DestIndex :: u32
  cp_LastFromClient :: time
  cp_LastFromDest :: time
  cp_PacketCount :: int

record ClientEndpoint =
  ep_OlmID :: string
  ep_NewtID :: string
  ep_Token :: string
  ep_IP :: string
  ep_Port :: int
  ep_Timestamp :: int
  ep_ReachableAt :: string
  ep_ExitNodePublicKey :: string
  ep_ClientPublicKey :: string

record holePunchRateLimitEntry =
  rl_count :: int
  rl_windowStart :: time

record cachedAddr =
  ca_addr :: UDPAddr
  ca_expiresAt :: time

datatype out = ToPeer UDPConn bytes | ToClient UDPAddr bytes

record responder =
  r_conn :: UDPConn
  r_destAddr :: UDPAddr
  r_remoteAddr :: UDPAddr

record server =
  s_serverURL :: string
  s_ReachableAt :: string
  s_proxyMappings :: "(string, ProxyMapping) gomap"
  s_connections :: "(string, DestinationConn) gomap"
  s_connectionCount :: int
  s_wgSessions :: "(string, nat) gomap"
  s_sessionsByReceiverIndex :: "(u32, nat) gomap"
  s_heap :: "WireGuardSession list"
  s_commPatterns :: "(string, CommunicationPattern) gomap"
  s_holePunchRateLimiter :: "(string, holePunchRateLimitEntry) gomap"
  s_addrCache :: "(string, cachedAddr) gomap"
  s_lastEndpointCache :: endpointCache
  s_notifyChan :: "ClientEndpoint list"
  s_done :: bool
  s_packetChanClosed :: bool
  s_nextConn :: nat
  s_closed :: "nat list"
  s_responders :: "responder list"
  s_pool :: "nat list"
  s_out :: "out list"
  s_mlog :: "call list"
  s_io :: nat

record env =
  e_now :: time
  e_resolve :: "nat \<Rightarrow> string \<Rightarrow> UDPAddr option"
  e_dial :: "nat \<Rightarrow> UDPAddr \<Rightarrow> bool"
  e_write :: "nat \<Rightarrow> bool"
  e_maxUDP :: int

definition relayIfname :: string where "relayIfname = ''relay''"
definition evictionSampleSize :: nat where "evictionSampleSize = 64"
definition addrCacheTTL :: duration where "addrCacheTTL = 5 * minute"
definition defaultMaxUDPConnections :: int where "defaultMaxUDPConnections = 8192"
definition notifyChanCap :: nat where "notifyChanCap = 1000"

definition loadMaxUDPConnections :: "string \<Rightarrow> int" where
  "loadMaxUDPConnections v =
     (if v \<noteq> [] then (case Atoi v of
          Some n \<Rightarrow> if 0 < n then n else defaultMaxUDPConnections
        | None \<Rightarrow> defaultMaxUDPConnections)
      else defaultMaxUDPConnections)"

text \<open>A metric call, and the counter that numbers the calls to the outside.\<close>

definition rec_metric :: "call \<Rightarrow> server \<Rightarrow> server" where
  "rec_metric c s = s\<lparr>s_mlog := s_mlog s @ [c]\<rparr>"

definition tick :: "server \<Rightarrow> server" where
  "tick s = s\<lparr>s_io := Suc (s_io s)\<rparr>"

definition fmtHostPort :: "string \<Rightarrow> int \<Rightarrow> string" where
  "fmtHostPort ip port = ip @ '':'' @ Itoa port"

definition fmtPair :: "u32 \<Rightarrow> u32 \<Rightarrow> string" where
  "fmtPair a b = itoaNat (unat a) @ '':'' @ itoaNat (unat b)"

definition leUint32 :: "bytes \<Rightarrow> u32" where
  "leUint32 bs = ucast (bs ! 0) OR push_bit 8 (ucast (bs ! 1)) OR push_bit 16 (ucast (bs ! 2))
     OR push_bit 24 (ucast (bs ! 3))"

definition putUint32 :: "u32 \<Rightarrow> bytes" where
  "putUint32 w = [ucast w, ucast (drop_bit 8 w), ucast (drop_bit 16 w), ucast (drop_bit 24 w)]"

definition WireGuardMessageTypeHandshakeInitiation :: byte where "WireGuardMessageTypeHandshakeInitiation = 1"
definition WireGuardMessageTypeHandshakeResponse :: byte where "WireGuardMessageTypeHandshakeResponse = 2"
definition WireGuardMessageTypeCookieReply :: byte where "WireGuardMessageTypeCookieReply = 3"
definition WireGuardMessageTypeTransportData :: byte where "WireGuardMessageTypeTransportData = 4"

lemmas msgType_defs = WireGuardMessageTypeHandshakeInitiation_def
  WireGuardMessageTypeHandshakeResponse_def WireGuardMessageTypeCookieReply_def
  WireGuardMessageTypeTransportData_def

definition extractWireGuardIndices :: "bytes \<Rightarrow> u32 \<times> u32 \<times> bool" where
  "extractWireGuardIndices packet =
     (if length packet < 12 then (0, 0, False)
      else let messageType = packet ! 0 in
        if messageType = WireGuardMessageTypeHandshakeInitiation
        then (0, leUint32 (take 4 (drop 4 packet)), True)
        else if messageType = WireGuardMessageTypeHandshakeResponse
        then (leUint32 (take 4 (drop 8 packet)), leUint32 (take 4 (drop 4 packet)), True)
        else if messageType = WireGuardMessageTypeTransportData
        then (leUint32 (take 4 (drop 4 packet)), 0, True)
        else (0, 0, False))"

definition getCachedAddr :: "env \<Rightarrow> string \<Rightarrow> int \<Rightarrow> server \<Rightarrow> UDPAddr option \<times> server" where
  "getCachedAddr E ip port s =
     (let key = fmtHostPort ip port;
          resolve = (\<lambda>s. case e_resolve E (s_io s) key of
              None \<Rightarrow> (None, tick s)
            | Some addr \<Rightarrow> (Some addr, (tick s)\<lparr>s_addrCache :=
                Store key \<lparr>ca_addr = addr, ca_expiresAt = e_now E + addrCacheTTL\<rparr> (s_addrCache s)\<rparr>))
      in case Load (s_addrCache s) key of
        Some entry \<Rightarrow>
          if e_now E < ca_expiresAt entry then (Some (ca_addr entry), s)
          else resolve (s\<lparr>s_addrCache := Delete key (s_addrCache s)\<rparr>)
      | None \<Rightarrow> resolve s)"

text \<open>\<open>NewUDPProxyServer\<close> builds this state once the URL is accepted.\<close>

definition newServer :: "string \<Rightarrow> string \<Rightarrow> server" where
  "newServer serverURL reachableAt = \<lparr>
     s_serverURL = serverURL, s_ReachableAt = reachableAt, s_proxyMappings = [], s_connections = [],
     s_connectionCount = 0, s_wgSessions = [], s_sessionsByReceiverIndex = [], s_heap = [],
     s_commPatterns = [], s_holePunchRateLimiter = [], s_addrCache = [],
     s_lastEndpointCache = newEndpointCache maxEndpointCacheEntries endpointCacheTTL,
     s_notifyChan = [], s_done = False, s_packetChanClosed = False, s_nextConn = 0, s_closed = [],
     s_responders = [], s_pool = [], s_out = [], s_mlog = [], s_io = 0\<rparr>"

text \<open>A concrete configuration, on which the witnesses evaluate the model.\<close>

definition wAddr :: "byte \<Rightarrow> UDPAddr" where
  "wAddr b = \<lparr>ua_IP = [10, 0, 0, b], ua_Port = 1, ua_Zone = []\<rparr>"

definition wEnv :: "time \<Rightarrow> env" where
  "wEnv t = \<lparr>e_now = t, e_resolve = (\<lambda>_ key. if key = ''10.0.0.1:1'' then Some (wAddr 1) else Some (wAddr 2)),
     e_dial = (\<lambda>_ _. True), e_write = (\<lambda>_. True), e_maxUDP = 1\<rparr>"

definition wServer :: server where
  "wServer = newServer [] []"

abbreviation connGauge :: "server \<Rightarrow> int" where
  "connGauge s \<equiv> gauge (RelayVar V_relayUDPConnectionsActive) (s_mlog s)"
abbreviation sessGauge :: "server \<Rightarrow> int" where
  "sessGauge s \<equiv> gauge (SysVar V_activeSessions) (s_mlog s)"
abbreviation pattGauge :: "server \<Rightarrow> int" where
  "pattGauge s \<equiv> gauge (RelayVar V_commPatternActive) (s_mlog s)"
abbreviation mapGauge :: "server \<Rightarrow> int" where
  "mapGauge s \<equiv> gauge (RelayVar V_proxyMappingActive) (s_mlog s)"

subsection \<open>Facts\<close>

lemma rec_metric_sel [simp]:
  "s_proxyMappings (rec_metric c s) = s_proxyMappings s" "s_connections (rec_metric c s) = s_connections s"
  "s_connectionCount (rec_metric c s) = s_connectionCount s" "s_wgSessions (rec_metric c s) = s_wgSessions s"
  "s_sessionsByReceiverIndex (rec_metric c s) = s_sessionsByReceiverIndex s" "s_heap (rec_metric c s) = s_heap s"
  "s_commPatterns (rec_metric c s) = s_commPatterns s" "s_addrCache (rec_metric c s) = s_addrCache s"
  "s_holePunchRateLimiter (rec_metric c s) = s_holePunchRateLimiter s"
  "s_lastEndpointCache (rec_metric c s) = s_lastEndpointCache s" "s_notifyChan (rec_metric c s) = s_notifyChan s"
  "s_nextConn (rec_metric c s) = s_nextConn s" "s_closed (rec_metric c s) = s_closed s"
  "s_responders (rec_metric c s) = s_responders s" "s_out (rec_metric c s) = s_out s"
  "s_pool (rec_metric c s) = s_pool s" "s_io (rec_metric c s) = s_io s" "s_done (rec_metric c s) = s_done s"
  "s_packetChanClosed (rec_metric c s) = s_packetChanClosed s" "s_ReachableAt (rec_metric c s) = s_ReachableAt s"
  "s_serverURL (rec_metric c s) = s_serverURL s" "s_mlog (rec_metric c s) = s_mlog s @ [c]"
  by (simp_all add: rec_metric_def)

lemma tick_sel [simp]:
  "s_proxyMappings (tick s) = s_proxyMappings s" "s_connections (tick s) = s_connections s"
  "s_connectionCount (tick s) = s_connectionCount s" "s_wgSessions (tick s) = s_wgSessions s"
  "s_sessionsByReceiverIndex (tick s) = s_sessionsByReceiverIndex s" "s_heap (tick s) = s_heap s"
  "s_commPatterns (tick s) = s_commPatterns s" "s_addrCache (tick s) = s_addrCache s"
  "s_holePunchRateLimiter (tick s) = s_holePunchRateLimiter s"
  "s_lastEndpointCache (tick s) = s_lastEndpointCache s" "s_notifyChan (tick s) = s_notifyChan s"
  "s_nextConn (tick s) = s_nextConn s" "s_closed (tick s) = s_closed s"
  "s_responders (tick s) = s_responders s" "s_out (tick s) = s_out s" "s_pool (tick s) = s_pool s"
  "s_io (tick s) = Suc (s_io s)" "s_done (tick s) = s_done s"
  "s_packetChanClosed (tick s) = s_packetChanClosed s" "s_ReachableAt (tick s) = s_ReachableAt s"
  "s_serverURL (tick s) = s_serverURL s" "s_mlog (tick s) = s_mlog s"
  by (simp_all add: tick_def)

lemma gauge_call [simp]:
  "gauge v [RecordUDPConnection i d] = (if v = RelayVar V_relayUDPConnectionsActive then d else 0)"
  "gauge v [RecordSession i d] = (if v = SysVar V_activeSessions then d else 0)"
  "gauge v [RecordCommPattern i d] = (if v = RelayVar V_commPatternActive then d else 0)"
  "gauge v [RecordProxyMapping i d] = (if v = RelayVar V_proxyMappingActive then d else 0)"
  by (simp_all add: gauge_single Record_defs)

lemma gauge_other [simp]:
  assumes "v \<in> {RelayVar V_relayUDPConnectionsActive, SysVar V_activeSessions,
                RelayVar V_commPatternActive, RelayVar V_proxyMappingActive}"
  shows "gauge v [RecordUDPPacket i a b] = 0" "gauge v [RecordUDPPacketSize i a r] = 0"
    "gauge v [RecordHolePunchEvent i a] = 0" "gauge v [RecordSessionRebuilt i] = 0"
    "gauge v [RecordProxyCleanupRemoved i a n] = 0" "gauge v [RecordProxyConnectionError i a] = 0"
    "gauge v [RecordProxyInitialMappings i n] = 0" "gauge v [RecordProxyMappingUpdate i] = 0"
    "gauge v [RecordProxyIdleCleanupDuration i a r] = 0"
  using assms by (auto simp: gauge_single Record_defs)

lemma leUint32_putUint32: "leUint32 (putUint32 w) = w"
proof (rule bit_word_eqI)
  fix n assume n: "n < LENGTH(32)"
  obtain m where m: "m < 8" "n \<in> {m, 8 + m, 16 + m, 24 + m}"
  proof
    show "n mod 8 < 8" by simp
    from n have "n = n mod 8 \<or> n = 8 + n mod 8 \<or> n = 16 + n mod 8 \<or> n = 24 + n mod 8"
      unfolding len_bit0 by simp presburger
    then show "n \<in> {n mod 8, 8 + n mod 8, 16 + n mod 8, 24 + n mod 8}" by simp
  qed
  then show "bit (leUint32 (putUint32 w)) n = bit w n"
    by (elim insertE emptyE) (simp_all add: leUint32_def putUint32_def bit_or_iff bit_push_bit_iff
        bit_ucast_iff bit_drop_bit_eq nth_Cons')
qed

text \<open>
  The header a WireGuard sender writes: message type, three reserved bytes, its indices.  The
  relay reads exactly these indices back, whatever follows.
\<close>

lemma extract_initiation:
  "length pad = 3 \<Longrightarrow> 4 \<le> length rest \<Longrightarrow>
   extractWireGuardIndices (1 # pad @ putUint32 snd' @ rest) = (0, snd', True)"
  by (auto simp: extractWireGuardIndices_def msgType_defs putUint32_def leUint32_putUint32 [unfolded putUint32_def])

lemma extract_response:
  "length pad = 3 \<Longrightarrow>
   extractWireGuardIndices (2 # pad @ putUint32 snd' @ putUint32 rcv @ rest) = (rcv, snd', True)"
  by (auto simp: extractWireGuardIndices_def msgType_defs putUint32_def leUint32_putUint32 [unfolded putUint32_def])

lemma extract_transport:
  "length pad = 3 \<Longrightarrow> 4 \<le> length rest \<Longrightarrow>
   extractWireGuardIndices (4 # pad @ putUint32 rcv @ rest) = (rcv, 0, True)"
  by (auto simp: extractWireGuardIndices_def msgType_defs putUint32_def leUint32_putUint32 [unfolded putUint32_def])

lemma getCachedAddr_frame [simp]:
  "s_connections (snd (getCachedAddr E ip port s)) = s_connections s"
  "s_connectionCount (snd (getCachedAddr E ip port s)) = s_connectionCount s"
  "s_nextConn (snd (getCachedAddr E ip port s)) = s_nextConn s"
  "s_closed (snd (getCachedAddr E ip port s)) = s_closed s"
  "s_responders (snd (getCachedAddr E ip port s)) = s_responders s"
  "s_proxyMappings (snd (getCachedAddr E ip port s)) = s_proxyMappings s"
  "s_wgSessions (snd (getCachedAddr E ip port s)) = s_wgSessions s"
  "s_sessionsByReceiverIndex (snd (getCachedAddr E ip port s)) = s_sessionsByReceiverIndex s"
  "s_heap (snd (getCachedAddr E ip port s)) = s_heap s"
  "s_commPatterns (snd (getCachedAddr E ip port s)) = s_commPatterns s"
  "s_lastEndpointCache (snd (getCachedAddr E ip port s)) = s_lastEndpointCache s"
  "s_holePunchRateLimiter (snd (getCachedAddr E ip port s)) = s_holePunchRateLimiter s"
  "s_notifyChan (snd (getCachedAddr E ip port s)) = s_notifyChan s"
  "s_pool (snd (getCachedAddr E ip port s)) = s_pool s" "s_done (snd (getCachedAddr E ip port s)) = s_done s"
  "s_packetChanClosed (snd (getCachedAddr E ip port s)) = s_packetChanClosed s"
  "s_out (snd (getCachedAddr E ip port s)) = s_out s"
  "s_mlog (snd (getCachedAddr E ip port s)) = s_mlog s"
  by (simp_all add: getCachedAddr_def Let_def split: option.split)

lemma getCachedAddr_hit:
  "Load (s_addrCache s) (fmtHostPort ip port) = Some c \<Longrightarrow> e_now E < ca_expiresAt c \<Longrightarrow>
   getCachedAddr E ip port s = (Some (ca_addr c), s)"
  by (simp add: getCachedAddr_def Let_def)

end
