(* ===== verification/Relay_Pool.thy ===== *)
theory Relay_Pool
  imports Relay_State
begin

text \<open>
  The pool of outbound UDP sockets of \<open>relay/relay.go\<close>: \<open>getOrCreateConnection\<close>,
  \<open>removeConnection\<close>, \<open>evictLRUConnection\<close>, one tick of \<open>cleanupIdleConnections\<close>,
  \<open>clearConnectionsForWGIP\<close>, \<open>containsIP\<close>.

  The packet workers, the idle sweeper and the peer callbacks run concurrently.  The mutex
  \<open>udpConnCreateMu\<close> makes the check-evict-dial-store section and each removal atomic, so
  \<open>pool_step\<close> interleaves exactly these: the lock-free fast path, the locked section, and the single
  removals and final bookkeeping of a sweep (\<open>p_idle\<close> and \<open>p_clear\<close> are the \<open>removed\<close> counters of
  the sweeps in progress, \<open>p_drift\<close> is a ghost: how many removals finished idle sweeps have
  reported).  The map is walked in any order (\<open>ps_order\<close>).

  Shown for every interleaving: no socket leaks and none is closed twice; the exported gauge is
  the table size once the sweeps are through; \<open>connectionCount\<close> is the table size minus the
  drift, so the cap holds while no idle sweep has removed anything and is exceeded by at most the
  drift otherwise; and a run where it is exceeded.
\<close>

definition connKey :: "UDPAddr \<Rightarrow> UDPAddr \<Rightarrow> string" where
  "connKey destAddr remoteAddr = UDPAddr_String destAddr @ ''-'' @ UDPAddr_String remoteAddr"

definition touch :: "env \<Rightarrow> string \<Rightarrow> DestinationConn \<Rightarrow> server \<Rightarrow> server" where
  "touch E key dc s = s\<lparr>s_connections := Store key (dc\<lparr>dc_lastUsed := e_now E\<rparr>) (s_connections s)\<rparr>"

definition removeConnectionLocked :: "string \<Rightarrow> DestinationConn \<Rightarrow> server \<Rightarrow> bool \<times> server" where
  "removeConnectionLocked key target s =
     (case Load (s_connections s) key of
        Some dc \<Rightarrow>
          if uc_id (dc_conn dc) = uc_id (dc_conn target)
          then (True, s\<lparr>s_connections := Delete key (s_connections s),
                        s_closed := s_closed s @ [uc_id (dc_conn target)],
                        s_connectionCount := s_connectionCount s - 1\<rparr>)
          else (False, s)
      | None \<Rightarrow> (False, s))"

definition removeConnection :: "string \<Rightarrow> DestinationConn \<Rightarrow> server \<Rightarrow> bool \<times> server" where
  "removeConnection key target s = removeConnectionLocked key target s"

definition evictLRUConnection :: "server \<Rightarrow> server" where
  "evictLRUConnection s =
     (case oldestBy (\<lambda>(_, dc). dc_lastUsed dc) (take evictionSampleSize (s_connections s)) of
        None \<Rightarrow> s
      | Some (key, dc) \<Rightarrow>
          (let (ok, s') = removeConnectionLocked key dc s in
           if ok then rec_metric (RecordProxyCleanupRemoved relayIfname ''conn_evicted'' 1)
                        (rec_metric (RecordUDPConnection relayIfname (-1)) s')
           else s'))"

text \<open>
  \<open>getOrCreateConnection\<close>: the lock-free lookup, and the section under \<open>udpConnCreateMu\<close>.
\<close>

definition getOrCreateLocked :: "env \<Rightarrow> UDPAddr \<Rightarrow> UDPAddr \<Rightarrow> server \<Rightarrow> UDPConn option \<times> server" where
  "getOrCreateLocked E destAddr remoteAddr s =
     (let key = connKey destAddr remoteAddr in
      case Load (s_connections s) key of
        Some dc \<Rightarrow> (Some (dc_conn dc), touch E key dc s)
      | None \<Rightarrow>
          (let s = (if e_maxUDP E \<le> s_connectionCount s then evictLRUConnection s else s);
               dialled = e_dial E (s_io s) destAddr;
               s = tick s
           in if \<not> dialled then (None, rec_metric (RecordProxyConnectionError relayIfname ''dial_udp'') s)
              else
                let newConn = \<lparr>uc_id = s_nextConn s, uc_dest = destAddr\<rparr>;
                    destConn = \<lparr>dc_conn = newConn, dc_lastUsed = e_now E\<rparr>;
                    s = s\<lparr>s_nextConn := Suc (s_nextConn s)\<rparr>;
                    (existing, loaded, conns) = loadOrStore key destConn (s_connections s)
                in if loaded then (Some (dc_conn existing), s\<lparr>s_closed := s_closed s @ [uc_id newConn]\<rparr>)
                   else (Some newConn,
                     rec_metric (RecordUDPConnection relayIfname 1)
                       (s\<lparr>s_connections := conns, s_connectionCount := s_connectionCount s + 1,
                          s_responders := s_responders s @
                            [\<lparr>r_conn = newConn, r_destAddr = destAddr, r_remoteAddr = remoteAddr\<rparr>]\<rparr>))))"

definition getOrCreateConnection :: "env \<Rightarrow> UDPAddr \<Rightarrow> UDPAddr \<Rightarrow> server \<Rightarrow> UDPConn option \<times> server" where
  "getOrCreateConnection E destAddr remoteAddr s =
     (let key = connKey destAddr remoteAddr in
      case Load (s_connections s) key of
        Some dc \<Rightarrow> (Some (dc_conn dc), touch E key dc s)
      | None \<Rightarrow> getOrCreateLocked E destAddr remoteAddr s)"

text \<open>
  A sweep walks the table and removes the entries that satisfy a test; \<open>removed\<close> counts the
  removals that succeeded.
\<close>

definition sweepOne :: "(string \<Rightarrow> DestinationConn \<Rightarrow> bool) \<Rightarrow> string \<times> DestinationConn \<Rightarrow> int \<times> server \<Rightarrow> int \<times> server" where
  "sweepOne P kv rs = (let (key, dc) = kv; (removed, s) = rs in
     if P key dc then (let (ok, s') = removeConnection key dc s in (if ok then removed + 1 else removed, s'))
     else (removed, s))"

definition sweep :: "(string \<Rightarrow> DestinationConn \<Rightarrow> bool) \<Rightarrow> server \<Rightarrow> int \<times> server" where
  "sweep P s = fold (sweepOne P) (s_connections s) (0, s)"

definition idle :: "env \<Rightarrow> string \<Rightarrow> DestinationConn \<Rightarrow> bool" where
  "idle E key dc \<longleftrightarrow> 5 * minute < e_now E - dc_lastUsed dc"

definition idleReport :: "int \<Rightarrow> server \<Rightarrow> server" where
  "idleReport removed s =
     (if 0 < removed then
        rec_metric (RecordProxyCleanupRemoved relayIfname ''conn'' removed)
          (rec_metric (RecordUDPConnection relayIfname (- removed))
            (s\<lparr>s_connectionCount := s_connectionCount s - removed\<rparr>))
      else s)"

definition cleanupIdleConnections :: "env \<Rightarrow> server \<Rightarrow> server" where
  "cleanupIdleConnections E s =
     (let (removed, s') = sweep (idle E) s in
      rec_metric (RecordProxyIdleCleanupDuration relayIfname ''conn'' 0) (idleReport removed s'))"

text \<open>The scan for the first dash is the loop of the code; \<open>take\<close> is the Go slice \<open>s[:n]\<close>.\<close>

definition containsIP :: "string \<Rightarrow> string \<Rightarrow> bool" where
  "containsIP connectionKey ip =
     (let ipWithColon = ip @ '':'' in
      if length ipWithColon \<le> length connectionKey \<and> take (length ipWithColon) connectionKey = ipWithColon then True
      else case find (\<lambda>i. connectionKey ! i = CHR ''-'') [0..<length connectionKey] of
          None \<Rightarrow> False
        | Some dashIndex \<Rightarrow>
            if dashIndex + 1 < length connectionKey then
              (let remainingPart = drop (dashIndex + 1) connectionKey in
               length ip + 1 \<le> length remainingPart \<and> take (length ip + 1) remainingPart = ipWithColon)
            else False)"

definition clearReport :: "int \<Rightarrow> server \<Rightarrow> server" where
  "clearReport removed s =
     (if 0 < removed then rec_metric (RecordUDPConnection relayIfname (- removed)) s else s)"

definition clearConnectionsForWGIP :: "string \<Rightarrow> server \<Rightarrow> server" where
  "clearConnectionsForWGIP wgIP s =
     (let (removed, s') = sweep (\<lambda>key _. containsIP key wgIP) s in clearReport removed s')"

definition OnPeerAdded :: "string \<Rightarrow> server \<Rightarrow> server" where
  "OnPeerAdded wgIP s = clearConnectionsForWGIP wgIP s"

definition OnPeerRemoved :: "string \<Rightarrow> server \<Rightarrow> server" where
  "OnPeerRemoved wgIP s = clearConnectionsForWGIP wgIP s"

subsection \<open>The pool under concurrency\<close>

record pool =
  p_srv :: server
  p_idle :: int
  p_clear :: "int list"
  p_drift :: int

definition newPool :: "server \<Rightarrow> pool" where
  "newPool s = \<lparr>p_srv = s, p_idle = 0, p_clear = [], p_drift = 0\<rparr>"

inductive pool_step :: "int \<Rightarrow> pool \<Rightarrow> pool \<Rightarrow> bool" for cap :: int where
  ps_fast: "Load (s_connections (p_srv p)) key = Some dc \<Longrightarrow>
     pool_step cap p (p\<lparr>p_srv := touch E key dc (p_srv p)\<rparr>)"
| ps_locked: "e_maxUDP E = cap \<Longrightarrow>
     pool_step cap p (p\<lparr>p_srv := snd (getOrCreateLocked E destAddr remoteAddr (p_srv p))\<rparr>)"
| ps_idle_remove: "removeConnection key dc (p_srv p) = (ok, s') \<Longrightarrow>
     pool_step cap p (p\<lparr>p_srv := s', p_idle := p_idle p + (if ok then 1 else 0)\<rparr>)"
| ps_idle_done:
    "pool_step cap p (p\<lparr>p_srv := idleReport (p_idle p) (p_srv p), p_idle := 0, p_drift := p_drift p + p_idle p\<rparr>)"
| ps_clear_start: "pool_step cap p (p\<lparr>p_clear := p_clear p @ [0]\<rparr>)"
| ps_clear_remove: "i < length (p_clear p) \<Longrightarrow> removeConnection key dc (p_srv p) = (ok, s') \<Longrightarrow>
     pool_step cap p (p\<lparr>p_srv := s', p_clear := (p_clear p)[i := p_clear p ! i + (if ok then 1 else 0)]\<rparr>)"
| ps_clear_done: "p_clear p = xs @ removed # ys \<Longrightarrow>
     pool_step cap p (p\<lparr>p_srv := clearReport removed (p_srv p), p_clear := xs @ ys\<rparr>)"
| ps_order: "mset conns = mset (s_connections (p_srv p)) \<Longrightarrow>
     pool_step cap p (p\<lparr>p_srv := (p_srv p)\<lparr>s_connections := conns\<rparr>\<rparr>)"

definition openIds :: "server \<Rightarrow> nat list" where
  "openIds s = map (\<lambda>(_, dc). uc_id (dc_conn dc)) (s_connections s)"

definition sockets_ok :: "server \<Rightarrow> bool" where
  "sockets_ok s \<longleftrightarrow> wf_map (s_connections s)
     \<and> mset (openIds s @ s_closed s) = mset [0..<s_nextConn s]"

definition pool_inv :: "int \<Rightarrow> pool \<Rightarrow> bool" where
  "pool_inv cap p \<longleftrightarrow> sockets_ok (p_srv p)
     \<and> 0 \<le> p_idle p \<and> (\<forall>r \<in> set (p_clear p). 0 \<le> r) \<and> 0 \<le> p_drift p
     \<and> s_connectionCount (p_srv p) = int (length (s_connections (p_srv p))) - p_drift p
     \<and> connGauge (p_srv p) = int (length (s_connections (p_srv p))) + p_idle p + sum_list (p_clear p)
     \<and> int (length (s_connections (p_srv p))) \<le> cap + p_drift p"

text \<open>The two halves of the locked section, used to state its effect.\<close>

definition makeRoom :: "env \<Rightarrow> server \<Rightarrow> server" where
  "makeRoom E s = (if e_maxUDP E \<le> s_connectionCount s then evictLRUConnection s else s)"

definition addConnection :: "env \<Rightarrow> UDPAddr \<Rightarrow> UDPAddr \<Rightarrow> server \<Rightarrow> server" where
  "addConnection E destAddr remoteAddr s =
     (let newConn = \<lparr>uc_id = s_nextConn s, uc_dest = destAddr\<rparr> in
      rec_metric (RecordUDPConnection relayIfname 1)
        (s\<lparr>s_connections := s_connections s @ [(connKey destAddr remoteAddr, \<lparr>dc_conn = newConn, dc_lastUsed = e_now E\<rparr>)],
           s_nextConn := Suc (s_nextConn s), s_connectionCount := s_connectionCount s + 1,
           s_responders := s_responders s @
             [\<lparr>r_conn = newConn, r_destAddr = destAddr, r_remoteAddr = remoteAddr\<rparr>]\<rparr>))"

text \<open>What a sweep leaves.\<close>

definition swept :: "(string \<Rightarrow> DestinationConn \<Rightarrow> bool) \<Rightarrow> server \<Rightarrow> server" where
  "swept P s = s\<lparr>s_connections := filter (\<lambda>(k, dc). \<not> P k dc) (s_connections s),
     s_closed := s_closed s @ map (\<lambda>(_, dc). uc_id (dc_conn dc)) (filter (\<lambda>(k, dc). P k dc) (s_connections s)),
     s_connectionCount := s_connectionCount s - int (length (filter (\<lambda>(k, dc). P k dc) (s_connections s)))\<rparr>"

subsection \<open>Single operations\<close>

lemma sockets_ok_remove:
  assumes "sockets_ok s" "Load (s_connections s) key = Some dc"
  shows "sockets_ok (s\<lparr>s_connections := Delete key (s_connections s),
           s_closed := s_closed s @ [uc_id (dc_conn dc)], s_connectionCount := n\<rparr>)"
proof -
  from assms have m: "mset (s_connections s) = add_mset (key, dc) (mset (Delete key (s_connections s)))"
    by (simp add: sockets_ok_def mset_Delete)
  have "mset (openIds s) = add_mset (uc_id (dc_conn dc))
      (mset (openIds (s\<lparr>s_connections := Delete key (s_connections s)\<rparr>)))"
    unfolding openIds_def by (simp add: m)
  with assms show ?thesis by (simp add: sockets_ok_def openIds_def)
qed

lemma removeConnection_effect:
  assumes "sockets_ok s" "removeConnectionLocked key dc s = (ok, s')"
  shows "sockets_ok s'"
    "int (length (s_connections s')) = int (length (s_connections s)) - (if ok then 1 else 0)"
    "s_connectionCount s' = s_connectionCount s - (if ok then 1 else 0)" "s_mlog s' = s_mlog s"
proof -
  from assms have wf: "wf_map (s_connections s)" by (simp add: sockets_ok_def)
  show "sockets_ok s'"
    using assms sockets_ok_remove [OF assms(1)]
    by (auto simp: removeConnectionLocked_def split: option.splits if_splits) metis
  show "int (length (s_connections s')) = int (length (s_connections s)) - (if ok then 1 else 0)"
    using assms(2) gm.count_delete [OF wf, of key]
    by (auto simp: removeConnectionLocked_def split: option.splits if_splits)
  show "s_connectionCount s' = s_connectionCount s - (if ok then 1 else 0)" "s_mlog s' = s_mlog s"
    using assms(2) by (auto simp: removeConnectionLocked_def split: option.splits if_splits)
qed

lemma remove_present:
  "Load (s_connections s) key = Some dc \<Longrightarrow> fst (removeConnectionLocked key dc s)"
  by (simp add: removeConnectionLocked_def)

lemma evict_empty: "s_connections s = [] \<Longrightarrow> evictLRUConnection s = s"
  by (simp add: evictLRUConnection_def)

lemma evict_sample:
  assumes "s_connections s \<noteq> []"
  obtains key dc where
    "oldestBy (\<lambda>(_, dc). dc_lastUsed dc) (take evictionSampleSize (s_connections s)) = Some (key, dc)"
    "(key, dc) \<in> set (take evictionSampleSize (s_connections s))"
proof (cases "oldestBy (\<lambda>(_, dc). dc_lastUsed dc) (take evictionSampleSize (s_connections s))")
  case None
  with assms show ?thesis by (simp add: evictionSampleSize_def)
next
  case (Some kd)
  show ?thesis
    by (rule that [of "fst kd" "snd kd"]) (use Some oldestBy_Some(1) [OF Some] in simp_all)
qed

lemma evict_effect:
  assumes "sockets_ok s" "s_connections s \<noteq> []"
  shows "sockets_ok (evictLRUConnection s)"
    "Suc (length (s_connections (evictLRUConnection s))) = length (s_connections s)"
    "s_connectionCount (evictLRUConnection s) = s_connectionCount s - 1"
    "connGauge (evictLRUConnection s) = connGauge s - 1"
    "set (s_connections (evictLRUConnection s)) \<subseteq> set (s_connections s)"
proof -
  obtain key dc where o: "oldestBy (\<lambda>(_, dc). dc_lastUsed dc)
      (take evictionSampleSize (s_connections s)) = Some (key, dc)"
    "(key, dc) \<in> set (take evictionSampleSize (s_connections s))"
    by (rule evict_sample [OF assms(2)])
  then have "(key, dc) \<in> set (s_connections s)" by (meson in_set_takeD)
  with assms(1) have ld: "Load (s_connections s) key = Some dc"
    by (simp add: sockets_ok_def wf_map_def)
  then obtain s' where s': "removeConnectionLocked key dc s = (True, s')"
    using remove_present by (metis eq_fst_iff)
  have e: "evictLRUConnection s = rec_metric (RecordProxyCleanupRemoved relayIfname ''conn_evicted'' 1)
      (rec_metric (RecordUDPConnection relayIfname (-1)) s')"
    by (simp add: evictLRUConnection_def o s')
  note eff = removeConnection_effect [OF assms(1) s']
  show "sockets_ok (evictLRUConnection s)" using eff(1) by (simp add: e sockets_ok_def openIds_def)
  show "Suc (length (s_connections (evictLRUConnection s))) = length (s_connections s)"
    using eff(2) by (simp add: e)
  show "s_connectionCount (evictLRUConnection s) = s_connectionCount s - 1" using eff(3) by (simp add: e)
  show "connGauge (evictLRUConnection s) = connGauge s - 1" using eff(4) by (simp add: e)
  show "set (s_connections (evictLRUConnection s)) \<subseteq> set (s_connections s)"
    using s' ld set_Delete_subset by (fastforce simp: e removeConnectionLocked_def)
qed

lemma touch_effect:
  assumes "Load (s_connections s) key = Some dc" "sockets_ok s"
  shows "sockets_ok (touch E key dc s)" "length (s_connections (touch E key dc s)) = length (s_connections s)"
    "s_connectionCount (touch E key dc s) = s_connectionCount s" "s_mlog (touch E key dc s) = s_mlog s"
proof -
  have "map (\<lambda>(_, dc). uc_id (dc_conn dc)) (s_connections (touch E key dc s))
      = map (\<lambda>(_, dc). uc_id (dc_conn dc)) (s_connections s)"
    using assms(1) by (simp add: touch_def map_Store_same)
  then show "sockets_ok (touch E key dc s)"
    using assms(2) by (simp add: sockets_ok_def openIds_def) (simp add: touch_def)
  show "length (s_connections (touch E key dc s)) = length (s_connections s)"
    using assms(1) by (simp add: touch_def length_Store hasKey_def)
qed (simp_all add: touch_def)

text \<open>
  Under the mutex nobody else stores into the table, so the branch that closes the new socket
  because another goroutine was faster is never taken.
\<close>

lemma makeRoom_effect:
  assumes "sockets_ok s" "0 < e_maxUDP E" "s_connectionCount s \<le> int (length (s_connections s))"
  shows "sockets_ok (makeRoom E s)" "set (s_connections (makeRoom E s)) \<subseteq> set (s_connections s)"
    "s_connectionCount (makeRoom E s) - int (length (s_connections (makeRoom E s)))
       = s_connectionCount s - int (length (s_connections s))"
    "connGauge (makeRoom E s) - int (length (s_connections (makeRoom E s)))
       = connGauge s - int (length (s_connections s))"
    "int (length (s_connections (makeRoom E s))) < max (int (length (s_connections s)))
       (e_maxUDP E + (int (length (s_connections s)) - s_connectionCount s))"
    "length (s_connections (makeRoom E s)) \<le> length (s_connections s)"
proof -
  have ne: "s_connections s \<noteq> []" if "e_maxUDP E \<le> s_connectionCount s" using that assms by auto
  note eff = evict_effect [OF assms(1) ne]
  show "sockets_ok (makeRoom E s)" "set (s_connections (makeRoom E s)) \<subseteq> set (s_connections s)"
    "s_connectionCount (makeRoom E s) - int (length (s_connections (makeRoom E s)))
       = s_connectionCount s - int (length (s_connections s))"
    "connGauge (makeRoom E s) - int (length (s_connections (makeRoom E s)))
       = connGauge s - int (length (s_connections s))"
    "int (length (s_connections (makeRoom E s))) < max (int (length (s_connections s)))
       (e_maxUDP E + (int (length (s_connections s)) - s_connectionCount s))"
    "length (s_connections (makeRoom E s)) \<le> length (s_connections s)"
    using assms(1) eff by (auto simp: makeRoom_def)
qed

lemma locked_new:
  assumes "Load (s_connections s) (connKey destAddr remoteAddr) = None"
    and "set (s_connections (makeRoom E s)) \<subseteq> set (s_connections s)"
  shows "getOrCreateLocked E destAddr remoteAddr s =
    (if e_dial E (s_io (makeRoom E s)) destAddr
     then (Some \<lparr>uc_id = s_nextConn (makeRoom E s), uc_dest = destAddr\<rparr>,
           addConnection E destAddr remoteAddr (tick (makeRoom E s)))
     else (None, rec_metric (RecordProxyConnectionError relayIfname ''dial_udp'') (tick (makeRoom E s))))"
proof -
  have "\<not> hasKey (s_connections (makeRoom E s)) (connKey destAddr remoteAddr)"
    using assms unfolding hasKey_iff by (force simp: map_of_eq_None_iff)
  moreover from this have "Load (s_connections (makeRoom E s)) (connKey destAddr remoteAddr) = None"
    by (simp add: hasKey_def)
  ultimately show ?thesis
    using assms(1) by (simp add: getOrCreateLocked_def makeRoom_def [symmetric] addConnection_def
      loadOrStore_def Store_new Let_def)
qed

lemma addConnection_effect:
  assumes "sockets_ok s" "Load (s_connections s) (connKey d r) = None"
  shows "sockets_ok (addConnection E d r s)"
    "length (s_connections (addConnection E d r s)) = Suc (length (s_connections s))"
    "s_connectionCount (addConnection E d r s) = s_connectionCount s + 1"
    "connGauge (addConnection E d r s) = connGauge s + 1"
  using assms by (auto simp: addConnection_def Let_def sockets_ok_def openIds_def wf_map_def map_of_eq_None_iff)

lemma locked_effect:
  assumes "sockets_ok s" "0 < e_maxUDP E" "s_connectionCount s \<le> int (length (s_connections s))"
    and "getOrCreateLocked E d r s = (c, s')"
  shows "sockets_ok s'"
    "s_connectionCount s' - int (length (s_connections s')) = s_connectionCount s - int (length (s_connections s))"
    "connGauge s' - int (length (s_connections s')) = connGauge s - int (length (s_connections s))"
    "int (length (s_connections s')) \<le> max (int (length (s_connections s)))
       (e_maxUDP E + (int (length (s_connections s)) - s_connectionCount s))"
proof -
  note mr = makeRoom_effect [OF assms(1-3)]
  let ?goal = "sockets_ok s' \<and>
    s_connectionCount s' - int (length (s_connections s')) = s_connectionCount s - int (length (s_connections s)) \<and>
    connGauge s' - int (length (s_connections s')) = connGauge s - int (length (s_connections s)) \<and>
    int (length (s_connections s')) \<le> max (int (length (s_connections s)))
       (e_maxUDP E + (int (length (s_connections s)) - s_connectionCount s))"
  have ?goal
  proof (cases "Load (s_connections s) (connKey d r)")
    case None
    note new = locked_new [OF None mr(2)]
    from None mr(2) have n: "Load (s_connections (tick (makeRoom E s))) (connKey d r) = None"
      by (force simp: map_of_eq_None_iff)
    from mr(1) have "sockets_ok (tick (makeRoom E s))" by (simp add: sockets_ok_def openIds_def)
    note add = addConnection_effect [OF this n, of E]
    show ?thesis
    proof (cases "e_dial E (s_io (makeRoom E s)) d")
      case True
      with assms(4) new have "s' = addConnection E d r (tick (makeRoom E s))" by simp
      with add mr show ?thesis by auto
    next
      case False
      with assms(4) new have "s' = rec_metric (RecordProxyConnectionError relayIfname ''dial_udp'') (tick (makeRoom E s))"
        by simp
      with mr show ?thesis by (auto simp: sockets_ok_def openIds_def)
    qed
  next
    case (Some dc)
    with assms(4) have "s' = touch E (connKey d r) dc s" by (simp add: getOrCreateLocked_def Let_def)
    with touch_effect [OF Some assms(1)] show ?thesis by simp
  qed
  then show "sockets_ok s'"
    "s_connectionCount s' - int (length (s_connections s')) = s_connectionCount s - int (length (s_connections s))"
    "connGauge s' - int (length (s_connections s')) = connGauge s - int (length (s_connections s))"
    "int (length (s_connections s')) \<le> max (int (length (s_connections s)))
       (e_maxUDP E + (int (length (s_connections s)) - s_connectionCount s))" by blast+
qed

subsection \<open>The invariant of the pool\<close>

lemma sum_list_update_int: "i < length xs \<Longrightarrow> sum_list (xs[i := xs ! i + (d::int)]) = sum_list xs + d"
  by (induction xs arbitrary: i) (auto split: nat.split)

lemma pool_step_inv: "pool_step cap p q \<Longrightarrow> 0 < cap \<Longrightarrow> pool_inv cap p \<Longrightarrow> pool_inv cap q"
proof (induction rule: pool_step.induct)
  case (ps_fast p key dc E)
  then have "sockets_ok (p_srv p)" by (simp add: pool_inv_def)
  with ps_fast touch_effect [OF ps_fast(1)] show ?case by (simp add: pool_inv_def)
next
  case (ps_locked E p d r)
  obtain c s' where l: "getOrCreateLocked E d r (p_srv p) = (c, s')" by force
  from ps_locked have "sockets_ok (p_srv p)" "0 < e_maxUDP E"
    "s_connectionCount (p_srv p) \<le> int (length (s_connections (p_srv p)))" by (auto simp: pool_inv_def)
  note eff = locked_effect [OF this l]
  from ps_locked eff l show ?case by (auto simp: pool_inv_def)
next
  case (ps_idle_remove key dc p ok s')
  then have "sockets_ok (p_srv p)" by (simp add: pool_inv_def)
  from removeConnection_effect [OF this ps_idle_remove(1) [unfolded removeConnection_def]] ps_idle_remove
  show ?case by (auto simp: pool_inv_def)
next
  case (ps_idle_done p)
  then show ?case by (auto simp: pool_inv_def idleReport_def sockets_ok_def openIds_def)
next
  case (ps_clear_remove i p key dc ok s')
  then have "sockets_ok (p_srv p)" by (simp add: pool_inv_def)
  from removeConnection_effect [OF this ps_clear_remove(2) [unfolded removeConnection_def]] ps_clear_remove
  show ?case by (auto simp: pool_inv_def sum_list_update_int dest!: set_update_subset_insert [THEN subsetD])
next
  case (ps_clear_done p xs removed ys)
  then show ?case by (auto simp: pool_inv_def clearReport_def sockets_ok_def openIds_def)
next
  case (ps_order conns p)
  then have "mset (map f conns) = mset (map f (s_connections (p_srv p)))" for f :: "string \<times> DestinationConn \<Rightarrow> nat"
    by simp
  with ps_order wf_map_mset [OF ps_order(1)] mset_eq_length [OF ps_order(1)]
  show ?case by (auto simp: pool_inv_def sockets_ok_def openIds_def)
qed (simp add: pool_inv_def)

interpretation pool_sys: step_system "pool_step cap" "\<lambda>p. 0 < cap \<and> pool_inv cap p" for cap
  by unfold_locales (blast intro: pool_step_inv)

lemma pool_reachable:
  assumes "0 < cap" "(pool_step cap)\<^sup>*\<^sup>* (newPool (newServer url reach)) p"
  shows "pool_inv cap p"
proof -
  have "0 < cap \<and> pool_inv cap (newPool (newServer url reach))"
    using assms(1) by (simp add: pool_inv_def newPool_def newServer_def sockets_ok_def openIds_def)
  with pool_sys.run_inv [OF assms(2)] show ?thesis by simp
qed

subsection \<open>A sweep is a filter\<close>

lemma sweep_fold:
  assumes "wf_map (pre @ todo)" "s_connections s = filter (\<lambda>(k, dc). \<not> P k dc) pre @ todo"
  shows "fold (sweepOne P) todo (n, s) = (n + int (length (filter (\<lambda>(k, dc). P k dc) todo)),
    s\<lparr>s_connections := filter (\<lambda>(k, dc). \<not> P k dc) (pre @ todo),
      s_closed := s_closed s @ map (\<lambda>(_, dc). uc_id (dc_conn dc)) (filter (\<lambda>(k, dc). P k dc) todo),
      s_connectionCount := s_connectionCount s - int (length (filter (\<lambda>(k, dc). P k dc) todo))\<rparr>)"
  using assms
proof (induction todo arbitrary: pre n s)
  case Nil
  then show ?case by simp
next
  case (Cons e todo)
  obtain k dc where [simp]: "e = (k, dc)" by (cases e)
  show ?case
  proof (cases "P k dc")
    case False
    have "sweepOne P e (n, s) = (n, s)" using False by (simp add: sweepOne_def)
    moreover have "fold (sweepOne P) todo (n, s) = (n + int (length (filter (\<lambda>(k, dc). P k dc) todo)),
      s\<lparr>s_connections := filter (\<lambda>(k, dc). \<not> P k dc) ((pre @ [e]) @ todo),
        s_closed := s_closed s @ map (\<lambda>(_, dc). uc_id (dc_conn dc)) (filter (\<lambda>(k, dc). P k dc) todo),
        s_connectionCount := s_connectionCount s - int (length (filter (\<lambda>(k, dc). P k dc) todo))\<rparr>)"
      by (rule Cons.IH) (use Cons.prems False in simp_all)
    ultimately show ?thesis using False by simp
  next
    case True
    let ?fp = "filter (\<lambda>(k, dc). \<not> P k dc) pre"
    from Cons.prems have nk: "k \<notin> fst ` set pre" "k \<notin> fst ` set todo" by (auto simp: wf_map_def)
    then have "Load ?fp k = None" by (auto simp: map_of_eq_None_iff)
    then have ld: "Load (s_connections s) k = Some dc"
      using Cons.prems(2) by (simp add: map_add_def)
    from nk have "k \<notin> fst ` set ?fp" by auto
    with nk have "Delete k ?fp = ?fp" "Delete k todo = todo" by (simp_all add: delete_idem)
    then have dl: "Delete k (s_connections s) = ?fp @ todo"
      using Cons.prems(2) by (simp add: Delete_filter)
    define s1 where "s1 = s\<lparr>s_connections := ?fp @ todo, s_closed := s_closed s @ [uc_id (dc_conn dc)],
      s_connectionCount := s_connectionCount s - 1\<rparr>"
    have "sweepOne P e (n, s) = (n + 1, s1)"
      using True ld dl by (simp add: sweepOne_def removeConnection_def removeConnectionLocked_def s1_def)
    moreover have "fold (sweepOne P) todo (n + 1, s1) = (n + 1 + int (length (filter (\<lambda>(k, dc). P k dc) todo)),
      s1\<lparr>s_connections := filter (\<lambda>(k, dc). \<not> P k dc) (pre @ todo),
        s_closed := s_closed s1 @ map (\<lambda>(_, dc). uc_id (dc_conn dc)) (filter (\<lambda>(k, dc). P k dc) todo),
        s_connectionCount := s_connectionCount s1 - int (length (filter (\<lambda>(k, dc). P k dc) todo))\<rparr>)"
      by (rule Cons.IH) (use Cons.prems in \<open>simp_all add: s1_def wf_map_def\<close>)
    ultimately show ?thesis using True by (simp add: s1_def algebra_simps)
  qed
qed

lemma sweep_swept:
  assumes "wf_map (s_connections s)"
  shows "sweep P s = (int (length (filter (\<lambda>(k, dc). P k dc) (s_connections s))), swept P s)"
  using sweep_fold [of "[]" "s_connections s" s P 0] assms by (simp add: sweep_def swept_def)

lemma clear_connections:
  "wf_map (s_connections s) \<Longrightarrow>
   s_connections (clearConnectionsForWGIP wgIP s) = filter (\<lambda>(k, _). \<not> containsIP k wgIP) (s_connections s)"
  by (simp add: clearConnectionsForWGIP_def sweep_swept clearReport_def swept_def)

subsection \<open>Matching a peer's address\<close>

lemma first_dash:
  assumes "CHR ''-'' \<notin> set a"
  shows "find (\<lambda>i. (a @ CHR ''-'' # b) ! i = CHR ''-'') [0..<length (a @ CHR ''-'' # b)] = Some (length a)"
proof -
  have "[0..<length (a @ CHR ''-'' # b)] = [0..<length a] @ length a # [Suc (length a)..<length (a @ CHR ''-'' # b)]"
    using upt_add_eq_append [of 0 "length a" "Suc (length b)"] by (simp add: upt_conv_Cons del: upt_Suc)
  moreover have "find (\<lambda>i. (a @ CHR ''-'' # b) ! i = CHR ''-'') ([0..<length a] @ length a # rest) = Some (length a)" for rest
    by (rule find_first) (use assms nth_mem in \<open>fastforce simp: nth_append\<close>)+
  ultimately show ?thesis by simp
qed

lemma containsIP_split:
  assumes "CHR ''-'' \<notin> set a" "b \<noteq> []"
  shows "containsIP (a @ ''-'' @ b) ip \<longleftrightarrow> prefix (ip @ '':'') (a @ ''-'' @ b) \<or> prefix (ip @ '':'') b"
proof -
  have p: "length q \<le> length s \<and> take (length q) s = q \<longleftrightarrow> prefix q s" for q s :: string
    by (auto simp: prefix_def) (metis append_take_drop_id)
  have "containsIP (a @ ''-'' @ b) ip \<longleftrightarrow>
      prefix (ip @ '':'') (a @ ''-'' @ b) \<or> (length (ip @ '':'') \<le> length b \<and> take (length (ip @ '':'')) b = ip @ '':'')"
    using assms first_dash [OF assms(1), of b] p [of "ip @ '':''" "a @ ''-'' @ b"]
    by (auto simp: containsIP_def Let_def)
  then show ?thesis using p by blast
qed

lemma prefix_colon:
  assumes "CHR '':'' \<notin> set ip" "CHR '':'' \<notin> set h"
  shows "prefix (ip @ '':'') (h @ '':'' @ rest) \<longleftrightarrow> ip = h"
  using assms
proof (induction ip arbitrary: h)
  case Nil
  then show ?case by (cases h) auto
next
  case (Cons c ip)
  then show ?case by (cases h) auto
qed

lemma UDPAddr_String_v4:
  assumes "To4 (ua_IP a) \<noteq> []" "ua_Zone a = []"
  shows "UDPAddr_String a = ip4String (To4 (ua_IP a)) @ '':'' @ Itoa (ua_Port a)"
proof -
  have "CHR '':'' \<notin> set (ip4String (To4 (ua_IP a)))" by (auto simp: isDigit_def dest: ip4String_chars)
  moreover from assms(1) have "ua_IP a \<noteq> []" by (auto simp: To4_def split: if_splits)
  ultimately show ?thesis using assms by (simp add: UDPAddr_String_def IP_String_def JoinHostPort_def Let_def)
qed

lemma ip6String_colon:
  assumes "length ip = 16"
  shows "CHR '':'' \<in> set (ip6String ip)"
proof -
  obtain g gs where g: "ip6Groups ip = g # gs" "gs \<noteq> []"
  proof -
    from assms obtain a b c d rest where "ip = a # b # c # d # rest"
      by (cases ip; cases "tl ip"; cases "tl (tl ip)"; cases "tl (tl (tl ip))") auto
    then show ?thesis using that by auto
  qed
  have j: "CHR '':'' \<in> set (joinStr '':'' (map hexNat (g # gs)))"
    using g(2) by (cases gs) auto
  then show ?thesis by (auto simp: ip6String_def g Let_def split: option.split)
qed

lemma UDPAddr_String_v6:
  assumes "To4 (ua_IP a) = []" "length (ua_IP a) = 16" "ua_Zone a = []"
  shows "UDPAddr_String a = ''['' @ ip6String (ua_IP a) @ '']:'' @ Itoa (ua_Port a)"
  using assms ip6String_colon [OF assms(2)]
  by (auto simp: UDPAddr_String_def IP_String_def JoinHostPort_def Let_def)

lemma To4_length: "To4 ip \<noteq> [] \<Longrightarrow> length (To4 ip) = 4"
  by (auto simp: To4_def split: if_splits)

text \<open>A key made of two IPv4 endpoints matches exactly the addresses of these endpoints.\<close>

lemma containsIP_v4:
  assumes "To4 (ua_IP d) \<noteq> []" "ua_Zone d = []" "0 \<le> ua_Port d"
    and "To4 (ua_IP r) \<noteq> []" "ua_Zone r = []" "length ip = 4"
  shows "containsIP (connKey d r) (ip4String ip) \<longleftrightarrow> To4 (ua_IP d) = ip \<or> To4 (ua_IP r) = ip"
proof -
  have nd: "CHR ''-'' \<notin> set (UDPAddr_String d)"
    unfolding UDPAddr_String_v4 [OF assms(1,2)]
    using assms(3) by (auto simp: isDigit_def dest: ip4String_chars Itoa_nonneg_chars)
  have nc: "CHR '':'' \<notin> set (ip4String x)" for x by (auto simp: isDigit_def dest: ip4String_chars)
  have "UDPAddr_String r \<noteq> []" by (simp add: UDPAddr_String_v4 [OF assms(4,5)])
  then have "containsIP (connKey d r) (ip4String ip) \<longleftrightarrow>
      prefix (ip4String ip @ '':'') (UDPAddr_String d @ ''-'' @ UDPAddr_String r)
      \<or> prefix (ip4String ip @ '':'') (UDPAddr_String r)"
    unfolding connKey_def by (rule containsIP_split [OF nd])
  then show ?thesis
    using prefix_colon [OF nc nc, of ip "To4 (ua_IP d)"] prefix_colon [OF nc nc, of ip "To4 (ua_IP r)"]
      assms To4_length by (auto simp: UDPAddr_String_v4 ip4String_inject)
qed

text \<open>
  A key made of two IPv6 endpoints starts each endpoint with a bracket, so no IPv6 address
  matches it, not even its own.
\<close>

lemma containsIP_v6:
  assumes "To4 (ua_IP d) = []" "length (ua_IP d) = 16" "ua_Zone d = []" "0 \<le> ua_Port d"
    and "To4 (ua_IP r) = []" "length (ua_IP r) = 16" "ua_Zone r = []" "length ip = 16"
  shows "\<not> containsIP (connKey d r) (ip6String ip)"
proof -
  have nd: "CHR ''-'' \<notin> set (UDPAddr_String d)"
    unfolding UDPAddr_String_v6 [OF assms(1-3)]
    using assms(4) by (auto simp: isDigit_def dest: ip6String_chars Itoa_nonneg_chars)
  have "ip6String ip \<noteq> []" using ip6String_colon [OF assms(8)] by auto
  moreover have "hd (ip6String ip) \<noteq> CHR ''[''"
    using ip6String_chars [of "hd (ip6String ip)" ip] calculation by auto
  ultimately have np: "\<not> prefix (ip6String ip @ '':'') (CHR ''['' # rest)" for rest
    by (cases "ip6String ip") auto
  have "UDPAddr_String r \<noteq> []" by (simp add: UDPAddr_String_v6 [OF assms(5-7)])
  then have "containsIP (connKey d r) (ip6String ip) \<longleftrightarrow>
      prefix (ip6String ip @ '':'') (UDPAddr_String d @ ''-'' @ UDPAddr_String r)
      \<or> prefix (ip6String ip @ '':'') (UDPAddr_String r)"
    unfolding connKey_def by (rule containsIP_split [OF nd])
  then show ?thesis using np by (simp add: UDPAddr_String_v6 assms)
qed

subsection \<open>Evaluation on a concrete configuration\<close>

lemma wKey [simp]:
  "connKey (wAddr 1) (wAddr 9) = ''10.0.0.1:1-10.0.0.9:1''"
  "connKey (wAddr 2) (wAddr 9) = ''10.0.0.2:1-10.0.0.9:1''"
  "connKey (wAddr 3) (wAddr 9) = ''10.0.0.3:1-10.0.0.9:1''"
  by (simp_all add: wAddr_def connKey_def UDPAddr_String_def IP_String_def To4_def ip4String_def
      Itoa_def itoaNat.simps JoinHostPort_def)

lemmas pool_eval = wServer_def newServer_def getOrCreateConnection_def getOrCreateLocked_def wEnv_def
  Let_def loadOrStore_def rec_metric_def tick_def cleanupIdleConnections_def sweep_def sweepOne_def
  idle_def idleReport_def removeConnection_def removeConnectionLocked_def

lemma wRun:
  "(pool_step 1)\<^sup>*\<^sup>* (newPool (newServer [] []))
     (newPool (snd (getOrCreateLocked (wEnv 0) (wAddr 2) (wAddr 9)
        (snd (getOrCreateLocked (wEnv 0) (wAddr 1) (wAddr 9) wServer)))))"
proof -
  have e: "e_maxUDP (wEnv 0) = 1" by (simp add: wEnv_def)
  have n: "(newPool s)\<lparr>p_srv := s'\<rparr> = newPool s'" for s s' by (simp add: newPool_def)
  have st: "pool_step 1 (newPool s) (newPool (snd (getOrCreateLocked (wEnv 0) d r s)))" for d r s
    using ps_locked [OF e, of "newPool s" d r] n by (simp add: newPool_def)
  show ?thesis unfolding wServer_def [symmetric]
    by (rule rtranclp.rtrancl_into_rtrancl [OF r_into_rtranclp [of "pool_step 1", OF st] st])
qed

subsection \<open>Properties\<close>

text \<open>
  C6: under every interleaving of the packet workers, the idle sweeper and the peer callbacks, the
  number of open sockets stays within \<open>maxUDPConnections\<close> plus the number of removals that finished
  idle sweeps have reported (in particular within the cap as long as no idle sweep has removed a
  socket), and \<open>connectionCount\<close> is below the table size by exactly that number.
\<close>

theorem pool_cap:
  assumes "0 < cap" "(pool_step cap)\<^sup>*\<^sup>* (newPool (newServer url reach)) p"
  shows "int (length (s_connections (p_srv p))) \<le> cap + p_drift p
    \<and> s_connectionCount (p_srv p) = int (length (s_connections (p_srv p))) - p_drift p"
  using pool_reachable [OF assms] by (simp add: pool_inv_def)

text \<open>
  C14: under every interleaving, each socket ever dialled is either in the table under exactly one
  key or has been closed exactly once: the pool leaks no socket and closes none twice.
\<close>

theorem pool_no_leak:
  assumes "0 < cap" "(pool_step cap)\<^sup>*\<^sup>* (newPool (newServer url reach)) p"
  shows "distinct (openIds (p_srv p) @ s_closed (p_srv p))
    \<and> set (openIds (p_srv p)) \<union> set (s_closed (p_srv p)) = {..<s_nextConn (p_srv p)}
    \<and> distinct (map fst (s_connections (p_srv p)))"
proof -
  let ?s = "p_srv p"
  have m: "mset (openIds ?s @ s_closed ?s) = mset [0..<s_nextConn ?s]" and wf: "wf_map (s_connections ?s)"
    using pool_reachable [OF assms] by (auto simp: pool_inv_def sockets_ok_def)
  from m have "distinct (openIds ?s @ s_closed ?s)"
    using mset_eq_imp_distinct_iff [OF m] by simp
  moreover from m have "set (openIds ?s @ s_closed ?s) = set [0..<s_nextConn ?s]"
    by (rule mset_eq_setD)
  ultimately show ?thesis using wf by (auto simp: wf_map_def)
qed

text \<open>
  Whenever no sweep is in progress, the gauge of active UDP connections that the metrics
  export equals the number of open sockets.
\<close>

theorem pool_gauge:
  assumes "0 < cap" "(pool_step cap)\<^sup>*\<^sup>* (newPool (newServer url reach)) p"
    and "p_idle p = 0" "p_clear p = []"
  shows "connGauge (p_srv p) = int (length (s_connections (p_srv p)))"
  using pool_reachable [OF assms(1,2)] assms(3,4) by (simp add: pool_inv_def)

text \<open>
  Removing (or adding) a peer with an IPv4 address closes exactly the connections that have this
  address as destination or as client, and keeps every other IPv4 connection.
\<close>

theorem OnPeerRemoved_exact:
  assumes "wf_map (s_connections s)" "Load (s_connections s) (connKey d r) = Some dc"
    and "To4 (ua_IP d) \<noteq> []" "ua_Zone d = []" "0 \<le> ua_Port d"
    and "To4 (ua_IP r) \<noteq> []" "ua_Zone r = []" "length ip = 4"
  shows "Load (s_connections (OnPeerRemoved (IP_String ip) s)) (connKey d r)
    = (if To4 (ua_IP d) = ip \<or> To4 (ua_IP r) = ip then None else Some dc)"
proof -
  have "IP_String ip = ip4String ip" using assms(8) by (cases ip) (auto simp: IP_String_def To4_def)
  then have c: "containsIP (connKey d r) (IP_String ip) \<longleftrightarrow> To4 (ua_IP d) = ip \<or> To4 (ua_IP r) = ip"
    using containsIP_v4 [OF assms(3-8)] by simp
  have wf': "wf_map (s_connections (OnPeerRemoved (IP_String ip) s))"
    using assms(1) by (simp add: OnPeerRemoved_def clear_connections)
  have "(connKey d r, x) \<in> set (s_connections (OnPeerRemoved (IP_String ip) s)) \<longleftrightarrow>
      (connKey d r, x) \<in> set (s_connections s) \<and> \<not> containsIP (connKey d r) (IP_String ip)" for x
    using assms(1) by (auto simp: OnPeerRemoved_def clear_connections)
  then show ?thesis
    using wf_map_in_set [OF wf'] wf_map_in_set [OF assms(1)] assms(2) c
    by (cases "Load (s_connections (OnPeerRemoved (IP_String ip) s)) (connKey d r)") auto
qed

text \<open>
  Connections between IPv6 endpoints are never closed when their peer is added or removed,
  because connection keys carry the address in brackets and \<open>containsIP\<close> looks for it without.
\<close>

theorem OnPeerRemoved_misses_IPv6:
  assumes "wf_map (s_connections s)" "Load (s_connections s) (connKey d r) = Some dc"
    and "To4 (ua_IP d) = []" "length (ua_IP d) = 16" "ua_Zone d = []" "0 \<le> ua_Port d"
    and "To4 (ua_IP r) = []" "length (ua_IP r) = 16" "ua_Zone r = []"
  shows "Load (s_connections (OnPeerRemoved (IP_String (ua_IP d)) s)) (connKey d r) = Some dc"
proof -
  have "IP_String (ua_IP d) = ip6String (ua_IP d)" using assms(3,4) by (auto simp: IP_String_def)
  then have "\<not> containsIP (connKey d r) (IP_String (ua_IP d))"
    using containsIP_v6 [OF assms(3-9,4)] by simp
  then have "(connKey d r, dc) \<in> set (s_connections (OnPeerRemoved (IP_String (ua_IP d)) s))"
    using Load_in_set [OF assms(2)] assms(1) by (simp add: OnPeerRemoved_def clear_connections)
  moreover have "wf_map (s_connections (OnPeerRemoved (IP_String (ua_IP d)) s))"
    using assms(1) by (simp add: OnPeerRemoved_def clear_connections)
  ultimately show ?thesis by (simp add: wf_map_in_set)
qed

text \<open>
  One idle sweep that removes a socket makes the cap ineffective: the sweep subtracts the
  removal from \<open>connectionCount\<close> although \<open>removeConnection\<close> already did.  With a cap of one socket,
  a socket that idles out leaves the counter at -1, and two later peers hold two sockets open at
  once without any eviction.
\<close>

theorem pool_cap_lost:
  "let s1 = snd (getOrCreateConnection (wEnv 0) (wAddr 1) (wAddr 9) wServer);
       s2 = cleanupIdleConnections (wEnv (6 * minute)) s1;
       s3 = snd (getOrCreateConnection (wEnv (6 * minute)) (wAddr 2) (wAddr 9) s2);
       s4 = snd (getOrCreateConnection (wEnv (6 * minute)) (wAddr 3) (wAddr 9) s3)
   in e_maxUDP (wEnv 0) = 1 \<and> length (s_connections s2) = 0 \<and> s_connectionCount s2 = -1
      \<and> length (s_connections s4) = 2 \<and> s_connectionCount s4 = 1"
  by (simp add: pool_eval)

subsection \<open>Witnesses\<close>

theorem pool_cap_witness:
  "length (s_connections (snd (getOrCreateLocked (wEnv 0) (wAddr 2) (wAddr 9)
     (snd (getOrCreateLocked (wEnv 0) (wAddr 1) (wAddr 9) wServer))))) = 1
   \<and> int (length (s_connections (snd (getOrCreateLocked (wEnv 0) (wAddr 2) (wAddr 9)
     (snd (getOrCreateLocked (wEnv 0) (wAddr 1) (wAddr 9) wServer)))))) \<le> 1"
  using pool_cap [OF zero_less_one wRun] by (simp add: pool_eval evictLRUConnection_def evictionSampleSize_def)

theorem pool_no_leak_witness:
  "let s = snd (getOrCreateLocked (wEnv 0) (wAddr 2) (wAddr 9)
     (snd (getOrCreateLocked (wEnv 0) (wAddr 1) (wAddr 9) wServer)))
   in s_closed s = [0] \<and> openIds s = [1] \<and> set (openIds s) \<union> set (s_closed s) = {..<s_nextConn s}"
  using pool_no_leak [OF zero_less_one wRun]
  by (simp add: pool_eval evictLRUConnection_def evictionSampleSize_def openIds_def newPool_def)

theorem pool_gauge_witness:
  "connGauge (snd (getOrCreateLocked (wEnv 0) (wAddr 2) (wAddr 9)
     (snd (getOrCreateLocked (wEnv 0) (wAddr 1) (wAddr 9) wServer)))) = 1"
  using pool_gauge [OF zero_less_one wRun]
  by (simp add: pool_eval evictLRUConnection_def evictionSampleSize_def newPool_def)

theorem OnPeerRemoved_exact_witness:
  "let s = snd (getOrCreateLocked (wEnv 0) (wAddr 1) (wAddr 9) wServer) in
   Load (s_connections (OnPeerRemoved (IP_String [10, 0, 0, 1]) s)) (connKey (wAddr 1) (wAddr 9)) = None
   \<and> Load (s_connections (OnPeerRemoved (IP_String [10, 0, 0, 11]) s)) (connKey (wAddr 1) (wAddr 9)) \<noteq> None"
proof -
  let ?s = "snd (getOrCreateLocked (wEnv 0) (wAddr 1) (wAddr 9) wServer)"
  let ?dc = "\<lparr>dc_conn = \<lparr>uc_id = 0, uc_dest = wAddr 1\<rparr>, dc_lastUsed = 0\<rparr>"
  have "wf_map (s_connections ?s)" "Load (s_connections ?s) (connKey (wAddr 1) (wAddr 9)) = Some ?dc"
    by (simp_all add: pool_eval wf_map_def)
  note ex = OnPeerRemoved_exact [OF this]
  show ?thesis
    using ex [of "[10, 0, 0, 1]"] ex [of "[10, 0, 0, 11]"] by (simp add: wAddr_def To4_def Let_def)
qed

theorem OnPeerRemoved_misses_IPv6_witness:
  "let a = \<lparr>ua_IP = 32 # replicate 15 0, ua_Port = 1, ua_Zone = []\<rparr>;
       dc = \<lparr>dc_conn = \<lparr>uc_id = 0, uc_dest = a\<rparr>, dc_lastUsed = 0\<rparr>;
       s = wServer\<lparr>s_connections := [(connKey a a, dc)]\<rparr>
   in Load (s_connections (OnPeerRemoved (IP_String (ua_IP a)) s)) (connKey a a) = Some dc"
proof -
  let ?a = "\<lparr>ua_IP = 32 # replicate 15 0, ua_Port = 1, ua_Zone = []\<rparr>"
  let ?dc = "\<lparr>dc_conn = \<lparr>uc_id = 0, uc_dest = ?a\<rparr>, dc_lastUsed = 0\<rparr>"
  have "hd (take 12 (ua_IP ?a)) \<noteq> hd v4InV6Prefix" by (simp add: v4InV6Prefix_def hd_append)
  then have "take 12 (ua_IP ?a) \<noteq> v4InV6Prefix" by metis
  then have "To4 (ua_IP ?a) = []" unfolding To4_def by simp
  then show ?thesis
    using OnPeerRemoved_misses_IPv6 [of "wServer\<lparr>s_connections := [(connKey ?a ?a, ?dc)]\<rparr>" ?a ?a ?dc]
    by (simp add: wf_map_def Let_def)
qed

end
