(* ===== verification/Peers.thy ===== *)
theory Peers
  imports WG_Device Traffic_Shaping Relay_Pool
begin

text \<open>
  Peer management of \<open>main.go\<close>: \<open>addPeerInternal\<close>, \<open>removePeerInternal\<close>, the start-up reconciliation
  \<open>ensureWireguardPeers\<close>.  Each is one atomic step: its callers hold \<open>wgMu\<close>.

  \<open>node\<close> is the process state they change: the WireGuard device, the kernel's traffic control, the
  UDP relay (when there is one) and the metric calls.  \<open>nodeCfg\<close> holds the outside and the package
  variables that are fixed after start-up.

  Shown: a reconciliation that returns no error leaves exactly the configured peers on the device;
  adding or removing a peer closes the relay's sockets of its addresses; how the peer gauge relates to
  the number of peers.
\<close>

record Peer =
  pe_PublicKey :: string
  pe_AllowedIPs :: "string list"

record ('w, 'k) node =
  nd_wg :: 'w
  nd_world :: "'k world"
  nd_relay :: "server option"
  nd_calls :: "call list"

record ('w, 'k) nodeCfg =
  nc_wg :: "'w wgClient"
  nc_shell :: "'k shell"
  nc_shaping :: shaping
  nc_doTrafficShaping :: bool

datatype peerError = BadPublicKey | BadAllowedIP | DeviceError | ConfigureError

fun parseAllowedIPs :: "string list \<Rightarrow> IPNet list option" where
  "parseAllowedIPs [] = Some []"
| "parseAllowedIPs (s # ss) =
     (case ParseCIDR s of
        None \<Rightarrow> None
      | Some (_, ipNet) \<Rightarrow> map_option ((#) ipNet) (parseAllowedIPs ss))"

definition shapePeers :: "('w, 'k) nodeCfg \<Rightarrow> ('k shell \<Rightarrow> shaping \<Rightarrow> string \<Rightarrow> ('k world, tcError option) state) \<Rightarrow> string list
     \<Rightarrow> 'k world \<Rightarrow> 'k world" where
  "shapePeers cfg op wgIPs k =
     (if nc_doTrafficShaping cfg then fold (\<lambda>wgIP k. snd (run_state (op (nc_shell cfg) (nc_shaping cfg) wgIP) k)) wgIPs k else k)"

definition addPeerInternal :: "('w, 'k) nodeCfg \<Rightarrow> Peer \<Rightarrow> ('w, 'k) node \<Rightarrow> peerError option \<times> ('w, 'k) node" where
  "addPeerInternal cfg peer s =
     (case ParseKey (nc_wg cfg) (pe_PublicKey peer) of
        None \<Rightarrow> (Some BadPublicKey, s)
      | Some pubKey \<Rightarrow>
          (case parseAllowedIPs (pe_AllowedIPs peer) of
             None \<Rightarrow> (Some BadAllowedIP, s)
           | Some allowedIPs \<Rightarrow>
               (case ConfigureDevice (nc_wg cfg) \<lparr>pc_PublicKey = pubKey, pc_Remove = False, pc_AllowedIPs = allowedIPs\<rparr> (nd_wg s) of
                  (False, w') \<Rightarrow> (Some ConfigureError, s\<lparr>nd_wg := w'\<rparr>)
                | (True, w') \<Rightarrow>
                    let wgIPs = map (\<lambda>n. IP_String (n_IP n)) allowedIPs;
                        ifname = interfaceName (nc_shaping cfg)
                    in (None, s\<lparr>nd_wg := w',
                         nd_world := shapePeers cfg setupPeerBandwidthLimit wgIPs (nd_world s),
                         nd_relay := map_option (fold OnPeerAdded wgIPs) (nd_relay s),
                         nd_calls := nd_calls s @ [RecordPeersTotal ifname 1,
                           RecordAllowedIPsCount ifname (pe_PublicKey peer) (int (length (pe_AllowedIPs peer)))]\<rparr>))))"

definition addPeer :: "('w, 'k) nodeCfg \<Rightarrow> Peer \<Rightarrow> ('w, 'k) node \<Rightarrow> peerError option \<times> ('w, 'k) node" where
  "addPeer cfg peer s = addPeerInternal cfg peer s"

definition removePeerInternal :: "('w, 'k) nodeCfg \<Rightarrow> string \<Rightarrow> ('w, 'k) node \<Rightarrow> peerError option \<times> ('w, 'k) node" where
  "removePeerInternal cfg publicKey s =
     (case ParseKey (nc_wg cfg) publicKey of
        None \<Rightarrow> (Some BadPublicKey, s)
      | Some pubKey \<Rightarrow>
          (case Device (nc_wg cfg) (nd_wg s) of (device, w1) \<Rightarrow>
           let allowed = (case device of
                 None \<Rightarrow> []
               | Some peers \<Rightarrow> (case find (\<lambda>p. KeyString (nc_wg cfg) (wp_PublicKey p) = publicKey) peers of
                     None \<Rightarrow> [] | Some p \<Rightarrow> wp_AllowedIPs p));
               wgIPs = map (\<lambda>n. IP_String (n_IP n)) allowed;
               ifname = interfaceName (nc_shaping cfg)
           in case ConfigureDevice (nc_wg cfg) \<lparr>pc_PublicKey = pubKey, pc_Remove = True, pc_AllowedIPs = []\<rparr> w1 of
                (False, w') \<Rightarrow> (Some ConfigureError, s\<lparr>nd_wg := w'\<rparr>)
              | (True, w') \<Rightarrow>
                  (None, s\<lparr>nd_wg := w',
                     nd_world := shapePeers cfg removePeerBandwidthLimit wgIPs (nd_world s),
                     nd_relay := map_option (fold OnPeerRemoved wgIPs) (nd_relay s),
                     nd_calls := nd_calls s @ [RecordPeersTotal ifname (- 1),
                       RecordAllowedIPsCount ifname publicKey (- int (length allowed))]\<rparr>)))"

definition removePeer :: "('w, 'k) nodeCfg \<Rightarrow> string \<Rightarrow> ('w, 'k) node \<Rightarrow> peerError option \<times> ('w, 'k) node" where
  "removePeer cfg publicKey s = removePeerInternal cfg publicKey s"

text \<open>A loop that stops at the first error.\<close>

fun untilError :: "('a \<Rightarrow> 's \<Rightarrow> 'e option \<times> 's) \<Rightarrow> 'a list \<Rightarrow> 's \<Rightarrow> 'e option \<times> 's" where
  "untilError f [] s = (None, s)"
| "untilError f (x # xs) s = (case f x s of (Some e, s') \<Rightarrow> (Some e, s') | (None, s') \<Rightarrow> untilError f xs s')"

definition ensureWireguardPeers :: "('w, 'k) nodeCfg \<Rightarrow> Peer list \<Rightarrow> ('w, 'k) node \<Rightarrow> peerError option \<times> ('w, 'k) node" where
  "ensureWireguardPeers cfg peers s =
     (case Device (nc_wg cfg) (nd_wg s) of
        (None, w') \<Rightarrow> (Some DeviceError, s\<lparr>nd_wg := w'\<rparr>)
      | (Some device, w') \<Rightarrow>
          let currentPeers = map (\<lambda>p. KeyString (nc_wg cfg) (wp_PublicKey p)) device;
              obsolete = filter (\<lambda>k. \<not> list_ex (\<lambda>p. k = pe_PublicKey p) peers) currentPeers;
              missing = filter (\<lambda>p. \<not> list_ex (\<lambda>k. pe_PublicKey p = k) currentPeers) peers
          in case untilError (removePeerInternal cfg) obsolete (s\<lparr>nd_wg := w'\<rparr>) of
               (Some e, s') \<Rightarrow> (Some e, s')
             | (None, s') \<Rightarrow> untilError (addPeerInternal cfg) missing s')"

text \<open>The keys of the configured peers.\<close>

definition configuredKeys :: "('w, 'k) nodeCfg \<Rightarrow> Peer list \<Rightarrow> Key set" where
  "configuredKeys cfg peers = {k. \<exists>p \<in> set peers. ParseKey (nc_wg cfg) (pe_PublicKey p) = Some k}"

text \<open>A node without a relay or shaping on a device kept as a list, and one whose keys have a second spelling.\<close>

definition demoCfg :: "(wgPeer list, nat) nodeCfg" where
  "demoCfg = \<lparr>nc_wg = tableDevice, nc_shell = demoShell [], nc_shaping = demoShaping, nc_doTrafficShaping = False\<rparr>"

definition aliasCfg :: "(wgPeer list, nat) nodeCfg" where
  "aliasCfg = demoCfg\<lparr>nc_wg := tableDevice\<lparr>ParseKey := (\<lambda>s. if s = ''A'' then Some [65] else ParseKey tableDevice s)\<rparr>\<rparr>"

definition demoNode :: "wgPeer list \<Rightarrow> server option \<Rightarrow> (wgPeer list, nat) node" where
  "demoNode ps r = \<lparr>nd_wg = ps, nd_world = (0, []), nd_relay = r, nd_calls = []\<rparr>"

definition demoPeer :: wgPeer where
  "demoPeer = \<lparr>wp_PublicKey = [65], wp_AllowedIPs = [\<lparr>n_IP = [10, 0, 0, 7], n_Mask = CIDRMask 32 4\<rparr>], wp_ReceiveBytes = 0, wp_TransmitBytes = 0\<rparr>"

subsection \<open>What a successful operation does to the device\<close>

lemma wg_lawsD:
  assumes "wg_laws c peers"
  shows "peers (snd (Device c w)) = peers w"
    and "fst (Device c w) = Some ps \<Longrightarrow> set (map wp_PublicKey ps) = peers w"
    and "fst (ConfigureDevice c pc w) \<Longrightarrow>
        peers (snd (ConfigureDevice c pc w)) =
          (if pc_Remove pc then peers w - {pc_PublicKey pc} else insert (pc_PublicKey pc) (peers w))"
    and "ParseKey c (KeyString c k) = Some k"
  using assms by (simp_all add: wg_laws_def)

lemma add_device:
  assumes "wg_laws (nc_wg cfg) peers" "addPeerInternal cfg p s = (None, s')"
  shows "\<exists>k. ParseKey (nc_wg cfg) (pe_PublicKey p) = Some k \<and> peers (nd_wg s') = insert k (peers (nd_wg s))"
proof -
  obtain k ips where k: "ParseKey (nc_wg cfg) (pe_PublicKey p) = Some k" "parseAllowedIPs (pe_AllowedIPs p) = Some ips"
    using assms(2) by (auto simp: addPeerInternal_def split: option.splits)
  let ?pc = "\<lparr>pc_PublicKey = k, pc_Remove = False, pc_AllowedIPs = ips\<rparr>"
  obtain ok w' where c: "ConfigureDevice (nc_wg cfg) ?pc (nd_wg s) = (ok, w')" by fastforce
  have "ok" "nd_wg s' = w'" using assms(2) k c by (auto simp: addPeerInternal_def Let_def split: bool.splits)
  then show ?thesis using wg_lawsD(3) [OF assms(1), of ?pc "nd_wg s"] c k by simp
qed

lemma remove_device:
  assumes "wg_laws (nc_wg cfg) peers" "removePeerInternal cfg key s = (None, s')"
  shows "\<exists>k. ParseKey (nc_wg cfg) key = Some k \<and> peers (nd_wg s') = peers (nd_wg s) - {k}"
proof -
  obtain k where k: "ParseKey (nc_wg cfg) key = Some k"
    using assms(2) by (auto simp: removePeerInternal_def split: option.splits)
  obtain dv w1 where d: "Device (nc_wg cfg) (nd_wg s) = (dv, w1)" by fastforce
  let ?pc = "\<lparr>pc_PublicKey = k, pc_Remove = True, pc_AllowedIPs = []\<rparr>"
  obtain ok w' where c: "ConfigureDevice (nc_wg cfg) ?pc w1 = (ok, w')" by fastforce
  have "ok" "nd_wg s' = w'" using assms(2) k c d by (auto simp: removePeerInternal_def Let_def split: bool.splits)
  then show ?thesis using wg_lawsD(3) [OF assms(1), of ?pc w1] wg_lawsD(1) [OF assms(1), of "nd_wg s"] c d k by simp
qed

lemma removes_device:
  assumes laws: "wg_laws (nc_wg cfg) peers"
  shows "untilError (removePeerInternal cfg) (map (KeyString (nc_wg cfg)) ks) s = (None, s') \<Longrightarrow> peers (nd_wg s') = peers (nd_wg s) - set ks"
proof (induction ks arbitrary: s)
  case (Cons k ks)
  obtain s1 where s1: "removePeerInternal cfg (KeyString (nc_wg cfg) k) s = (None, s1)"
      "untilError (removePeerInternal cfg) (map (KeyString (nc_wg cfg)) ks) s1 = (None, s')"
    using Cons.prems by (auto split: prod.splits option.splits)
  have "peers (nd_wg s1) = peers (nd_wg s) - {k}" using remove_device [OF laws s1(1)] wg_lawsD(4) [OF laws] by auto
  with Cons.IH [OF s1(2)] show ?case by auto
qed simp

lemma adds_device:
  assumes laws: "wg_laws (nc_wg cfg) peers"
  shows "untilError (addPeerInternal cfg) ps s = (None, s') \<Longrightarrow> peers (nd_wg s') = peers (nd_wg s) \<union> configuredKeys cfg ps"
proof (induction ps arbitrary: s)
  case Nil
  then show ?case by (simp add: configuredKeys_def)
next
  case (Cons p ps)
  obtain s1 where s1: "addPeerInternal cfg p s = (None, s1)" "untilError (addPeerInternal cfg) ps s1 = (None, s')"
    using Cons.prems by (auto split: prod.splits option.splits)
  obtain k where k: "ParseKey (nc_wg cfg) (pe_PublicKey p) = Some k" "peers (nd_wg s1) = insert k (peers (nd_wg s))"
    using add_device [OF laws s1(1)] by blast
  have "configuredKeys cfg (p # ps) = insert k (configuredKeys cfg ps)" using k(1) by (auto simp: configuredKeys_def)
  then show ?case using Cons.IH [OF s1(2)] k(2) by simp
qed

text \<open>The keys left after the obsolete ones are removed and the missing ones added.\<close>

lemma reconcile_keys:
  assumes laws: "wg_laws (nc_wg cfg) peers"
  shows "(set cur - set (filter (\<lambda>k. KeyString (nc_wg cfg) k \<notin> set (map pe_PublicKey config)) cur))
      \<union> configuredKeys cfg (filter (\<lambda>p. pe_PublicKey p \<notin> set (map (KeyString (nc_wg cfg)) cur)) config)
    = configuredKeys cfg config" (is "?kept \<union> configuredKeys cfg ?new = _")
proof (intro set_eqI iffI)
  let ?ks = "KeyString (nc_wg cfg)"
  fix k assume "k \<in> ?kept \<union> configuredKeys cfg ?new"
  then consider "?ks k \<in> set (map pe_PublicKey config)" | "k \<in> configuredKeys cfg ?new" by auto
  then show "k \<in> configuredKeys cfg config"
  proof cases
    case 1
    then obtain p where "p \<in> set config" "pe_PublicKey p = ?ks k" by auto
    then show ?thesis using wg_lawsD(4) [OF laws, of k] by (auto simp: configuredKeys_def intro!: bexI [of _ p])
  next
    case 2
    then show ?thesis by (auto simp: configuredKeys_def)
  qed
next
  let ?ks = "KeyString (nc_wg cfg)"
  fix k assume "k \<in> configuredKeys cfg config"
  then obtain p where p: "p \<in> set config" "ParseKey (nc_wg cfg) (pe_PublicKey p) = Some k" by (auto simp: configuredKeys_def)
  show "k \<in> ?kept \<union> configuredKeys cfg ?new"
  proof (cases "pe_PublicKey p \<in> set (map ?ks cur)")
    case True
    then obtain k' where k': "k' \<in> set cur" "pe_PublicKey p = ?ks k'" by auto
    then have "k' = k" using p(2) wg_lawsD(4) [OF laws] by simp
    moreover have "?ks k' \<in> set (map pe_PublicKey config)" using k'(2) p(1) by (metis image_eqI set_map)
    ultimately show ?thesis using k'(1) by simp
  next
    case False
    then show ?thesis using p by (auto simp: configuredKeys_def)
  qed
qed

lemma ensure_device:
  assumes laws: "wg_laws (nc_wg cfg) peers" and ok: "ensureWireguardPeers cfg config s = (None, s')"
  shows "peers (nd_wg s') = configuredKeys cfg config"
proof -
  let ?ks = "KeyString (nc_wg cfg)"
  obtain device w1 where d: "Device (nc_wg cfg) (nd_wg s) = (Some device, w1)"
    using ok by (auto simp: ensureWireguardPeers_def split: prod.splits option.splits)
  define cur where "cur = map wp_PublicKey device"
  have cur: "set cur = peers (nd_wg s)" "peers w1 = peers (nd_wg s)"
    using wg_lawsD(1,2) [OF laws, of "nd_wg s"] d by (auto simp: cur_def)
  let ?gone = "filter (\<lambda>k. ?ks k \<notin> set (map pe_PublicKey config)) cur" and ?new = "filter (\<lambda>p. pe_PublicKey p \<notin> set (map ?ks cur)) config"
  have o: "filter (\<lambda>k. \<not> list_ex (\<lambda>p. k = pe_PublicKey p) config) (map (\<lambda>p. ?ks (wp_PublicKey p)) device) = map ?ks ?gone"
    by (simp add: cur_def filter_map o_def list_ex_iff image_iff)
  have m: "filter (\<lambda>p. \<not> list_ex (\<lambda>k. pe_PublicKey p = k) (map (\<lambda>p. ?ks (wp_PublicKey p)) device)) config = ?new"
    by (simp add: cur_def list_ex_iff image_iff)
  obtain s1 where s1: "untilError (removePeerInternal cfg) (map ?ks ?gone) (s\<lparr>nd_wg := w1\<rparr>) = (None, s1)" "untilError (addPeerInternal cfg) ?new s1 = (None, s')"
    using ok by (auto simp: ensureWireguardPeers_def d Let_def o m split: prod.splits option.splits)
  have "peers (nd_wg s') = (set cur - set ?gone) \<union> configuredKeys cfg ?new"
    using removes_device [OF laws s1(1)] adds_device [OF laws s1(2)] cur by simp
  then show ?thesis by (simp only: reconcile_keys [OF laws])
qed

text \<open>
  C12: after a reconciliation that reports no error, the peers of the device are exactly the configured
  ones, however the device started: peers no longer configured are gone, configured ones are there.
\<close>

theorem ensure_peers_exact:
  assumes laws: "wg_laws (nc_wg cfg) peers" and ok: "ensureWireguardPeers cfg config s = (None, s')"
  shows "peers (nd_wg s') = configuredKeys cfg config"
  by (rule ensure_device [OF assms])

subsection \<open>Closing the relay's sockets\<close>

lemma fold_OnPeerAdded:
  "wf_map (s_connections r) \<Longrightarrow>
     s_connections (fold OnPeerAdded ips r) = filter (\<lambda>(k, _). \<not> list_ex (containsIP k) ips) (s_connections r)"
proof (induction ips arbitrary: r)
  case (Cons ip ips)
  have "wf_map (s_connections (OnPeerAdded ip r))" using Cons.prems by (simp add: OnPeerAdded_def clear_connections)
  from Cons.IH [OF this] show ?case using Cons.prems
    by (auto simp: OnPeerAdded_def clear_connections intro!: filter_cong)
qed simp

lemma Load_filter_key: "Load (filter (\<lambda>(k, _). P k) m) k = (if P k then Load m k else None)"
  by (induction m) auto

lemma OnPeerRemoved_Added: "OnPeerRemoved = OnPeerAdded"
  by (simp add: fun_eq_iff OnPeerRemoved_def OnPeerAdded_def)

lemma closes_exactly:
  assumes "wf_map (s_connections r)" "list_all (\<lambda>n. length (n_IP n) = 4) nets"
    and "To4 (ua_IP d) \<noteq> []" "ua_Zone d = []" "0 \<le> ua_Port d" "To4 (ua_IP q) \<noteq> []" "ua_Zone q = []"
  shows "Load (s_connections (fold OnPeerAdded (map (\<lambda>n. IP_String (n_IP n)) nets) r)) (connKey d q) =
      (if list_ex (\<lambda>n. n_IP n = To4 (ua_IP d) \<or> n_IP n = To4 (ua_IP q)) nets then None else Load (s_connections r) (connKey d q))"
proof -
  have "containsIP (connKey d q) (IP_String (n_IP n)) \<longleftrightarrow> n_IP n = To4 (ua_IP d) \<or> n_IP n = To4 (ua_IP q)" if "n \<in> set nets" for n
  proof -
    have l: "length (n_IP n) = 4" using that assms(2) by (simp add: list_all_iff)
    then have "IP_String (n_IP n) = ip4String (n_IP n)" by (cases "n_IP n") (auto simp: IP_String_def To4_def)
    then show ?thesis using containsIP_v4 [OF assms(3-7) l] by auto
  qed
  then have "list_ex (containsIP (connKey d q)) (map (\<lambda>n. IP_String (n_IP n)) nets) \<longleftrightarrow>
      list_ex (\<lambda>n. n_IP n = To4 (ua_IP d) \<or> n_IP n = To4 (ua_IP q)) nets"
    by (auto simp: list_ex_iff)
  then show ?thesis unfolding fold_OnPeerAdded [OF assms(1)] Load_filter_key by simp
qed

lemma add_relay:
  assumes "addPeerInternal cfg p s = (None, s')" "parseAllowedIPs (pe_AllowedIPs p) = Some nets"
  shows "nd_relay s' = map_option (fold OnPeerAdded (map (\<lambda>n. IP_String (n_IP n)) nets)) (nd_relay s)"
  using assms by (auto simp: addPeerInternal_def Let_def split: option.splits prod.splits bool.splits)

lemma remove_relay:
  assumes "removePeerInternal cfg key s = (None, s')" "fst (Device (nc_wg cfg) (nd_wg s)) = Some ps"
    and "find (\<lambda>p. KeyString (nc_wg cfg) (wp_PublicKey p) = key) ps = Some p"
  shows "nd_relay s' = map_option (fold OnPeerAdded (map (\<lambda>n. IP_String (n_IP n)) (wp_AllowedIPs p))) (nd_relay s)"
  using assms by (auto simp: removePeerInternal_def Let_def OnPeerRemoved_Added split: option.splits prod.splits bool.splits)


text \<open>
  The peer gauge counts operations, not peers.  Each successful add moves the gauge by one, so it
  runs ahead of the number of peers by one whenever the peer was already on the device.
\<close>

theorem peers_gauge_drift:
  assumes "wg_laws (nc_wg cfg) peers" "finite (peers (nd_wg s))" "addPeerInternal cfg p s = (None, s')"
    and "ParseKey (nc_wg cfg) (pe_PublicKey p) = Some k"
  shows "gauge (WgVar V_wgPeersTotal) (nd_calls s') - int (card (peers (nd_wg s'))) =
      gauge (WgVar V_wgPeersTotal) (nd_calls s) - int (card (peers (nd_wg s))) + (if k \<in> peers (nd_wg s) then 1 else 0)"
proof -
  have "peers (nd_wg s') = insert k (peers (nd_wg s))" using add_device [OF assms(1,3)] assms(4) by simp
  moreover have "gauge (WgVar V_wgPeersTotal) (nd_calls s') = gauge (WgVar V_wgPeersTotal) (nd_calls s) + 1"
    using assms(3) by (auto simp: addPeerInternal_def Let_def gauge_single RecordPeersTotal_def RecordAllowedIPsCount_def
        split: option.splits prod.splits bool.splits)
  ultimately show ?thesis using assms(2) by (simp add: insert_absorb)
qed

text \<open>
  A key given in another spelling than the one the device prints (base64 has several for one key)
  removes the peer from the device but leaves the relay's sockets and the traffic limits of its
  addresses in place.
\<close>

theorem peer_removal_other_spelling:
  assumes "wg_laws (nc_wg cfg) peers" "removePeerInternal cfg key s = (None, s')"
    and "ParseKey (nc_wg cfg) key = Some k" "key \<notin> range (KeyString (nc_wg cfg))"
  shows "k \<notin> peers (nd_wg s') \<and> nd_relay s' = nd_relay s \<and> nd_world s' = nd_world s"
proof -
  have none: "find (\<lambda>p. KeyString (nc_wg cfg) (wp_PublicKey p) = key) ps = None" for ps
    using assms(4) by (auto simp: find_None_iff)
  have allowed: "(case dv of None \<Rightarrow> [] | Some ps \<Rightarrow> (case find (\<lambda>p. KeyString (nc_wg cfg) (wp_PublicKey p) = key) ps of None \<Rightarrow> [] | Some p \<Rightarrow> wp_AllowedIPs p)) = []" for dv
    by (simp add: none split: option.split)
  have "nd_relay s' = nd_relay s \<and> nd_world s' = nd_world s"
    using assms(2,3) unfolding removePeerInternal_def allowed
    by (auto simp: Let_def shapePeers_def option.map_id0 split: prod.splits bool.splits)
  then show ?thesis using remove_device [OF assms(1,2)] assms(3) by auto
qed

subsection \<open>Concrete nodes\<close>

lemma demo_parse [simp]: "ParseKey tableDevice ''kA'' = Some [65]" "KeyString tableDevice [65] = ''kA''"
  by (simp_all add: tableDevice_def char_of_def bit_0)

lemma demo_ops [simp]: "Device tableDevice w = (Some w, w)" "fst (ConfigureDevice tableDevice pc w)"
  by (simp_all add: tableDevice_def)

lemma demo_cfg [simp]: "nc_wg demoCfg = tableDevice" "nc_doTrafficShaping demoCfg = False"
  by (simp_all add: demoCfg_def)

lemma tableDevice_ok: "ConfigureDevice tableDevice pc w = (b, w') \<Longrightarrow> b"
  using demo_ops(2) [of pc w] by simp

lemma demo_ensure:
  "ensureWireguardPeers demoCfg [\<lparr>pe_PublicKey = ''kA'', pe_AllowedIPs = []\<rparr>] (demoNode [] None) =
     (None, snd (ensureWireguardPeers demoCfg [\<lparr>pe_PublicKey = ''kA'', pe_AllowedIPs = []\<rparr>] (demoNode [] None)))"
  by (simp add: ensureWireguardPeers_def demoNode_def addPeerInternal_def Let_def split: prod.split bool.split)
    (blast dest: tableDevice_ok)

theorem ensure_peers_exact_witness:
  "wp_PublicKey ` set (nd_wg (snd (ensureWireguardPeers demoCfg [\<lparr>pe_PublicKey = ''kA'', pe_AllowedIPs = []\<rparr>] (demoNode [] None)))) = {[65]}"
proof -
  have k: "configuredKeys demoCfg [\<lparr>pe_PublicKey = ''kA'', pe_AllowedIPs = []\<rparr>] = {[65]}" by (auto simp: configuredKeys_def)
  have laws: "wg_laws (nc_wg demoCfg) (\<lambda>ps. set (map wp_PublicKey ps))" using tableDevice_laws by simp
  from ensure_peers_exact [OF laws demo_ensure] show ?thesis by (simp only: k set_map)
qed

lemma demo_add:
  "addPeerInternal demoCfg \<lparr>pe_PublicKey = ''kA'', pe_AllowedIPs = []\<rparr> (demoNode [demoPeer] None) =
     (None, snd (addPeerInternal demoCfg \<lparr>pe_PublicKey = ''kA'', pe_AllowedIPs = []\<rparr> (demoNode [demoPeer] None)))"
  by (simp add: addPeerInternal_def demoNode_def Let_def split: prod.split bool.split) (blast dest: tableDevice_ok)

theorem peers_gauge_drift_witness:
  "gauge (WgVar V_wgPeersTotal) (nd_calls (snd (addPeerInternal demoCfg \<lparr>pe_PublicKey = ''kA'', pe_AllowedIPs = []\<rparr> (demoNode [demoPeer] None)))) -
     int (card (wp_PublicKey ` set (nd_wg (snd (addPeerInternal demoCfg \<lparr>pe_PublicKey = ''kA'', pe_AllowedIPs = []\<rparr> (demoNode [demoPeer] None)))))) = 0"
proof -
  have s: "nd_wg (demoNode [demoPeer] None) = [demoPeer]" "nd_calls (demoNode [demoPeer] None) = []" "wp_PublicKey demoPeer = [65]"
    by (simp_all add: demoNode_def demoPeer_def)
  have laws: "wg_laws (nc_wg demoCfg) (\<lambda>ps. set (map wp_PublicKey ps))" using tableDevice_laws by simp
  from peers_gauge_drift [OF laws _ demo_add, of "[65]"] s show ?thesis by simp
qed

lemma demo_remove:
  "removePeerInternal demoCfg ''kA'' (demoNode [demoPeer] r) = (None, snd (removePeerInternal demoCfg ''kA'' (demoNode [demoPeer] r)))"
  by (simp add: removePeerInternal_def demoNode_def Let_def split: prod.split bool.split) (blast dest: tableDevice_ok)


lemma alias_laws: "wg_laws (nc_wg aliasCfg) (\<lambda>ps. set (map wp_PublicKey ps))"
  using tableDevice_laws by (auto simp: wg_laws_def aliasCfg_def tableDevice_def)

lemma alias_remove:
  "removePeerInternal aliasCfg ''A'' (demoNode [demoPeer] r) = (None, snd (removePeerInternal aliasCfg ''A'' (demoNode [demoPeer] r)))"
  by (simp add: removePeerInternal_def demoNode_def aliasCfg_def demoCfg_def Let_def split: prod.split bool.split) (blast dest: tableDevice_ok)

theorem peer_removal_other_spelling_witness:
  "[65] \<notin> wp_PublicKey ` set (nd_wg (snd (removePeerInternal aliasCfg ''A'' (demoNode [demoPeer] (Some (newServer [] [])))))) \<and>
   nd_relay (snd (removePeerInternal aliasCfg ''A'' (demoNode [demoPeer] (Some (newServer [] []))))) = Some (newServer [] [])"
proof -
  have "''A'' \<notin> range (KeyString (nc_wg aliasCfg))" "ParseKey (nc_wg aliasCfg) ''A'' = Some [65]"
    by (auto simp: aliasCfg_def demoCfg_def tableDevice_def)
  from peer_removal_other_spelling [OF alias_laws alias_remove this(2,1)] show ?thesis by (auto simp: demoNode_def)
qed

end
