(* ===== verification/Control_Plane.thy ===== *)
theory Control_Plane
  imports Go_Strings
begin

text \<open>
  Which control-plane URLs the program accepts and which ones its HTTP clients request:
  \<open>ValidateRemoteConfigURL\<close> of \<open>relay/relay.go\<close> and of \<open>proxy/proxy.go\<close>, the client of
  \<open>NewControlPlaneHTTPClient\<close> and the route client of \<open>NewSNIProxy\<close>.

  \<open>url.Parse\<close> is a parameter: a function from the text to the parts the sources look at.  The
  statements hold for every such function.  \<open>followRedirects\<close> is how \<open>http.Client.Do\<close> uses
  \<open>CheckRedirect\<close>: a redirect is followed exactly when the policy accepts the new request in view of
  the requests already made, oldest first.
\<close>

record URL =
  u_Scheme :: string
  u_Host :: string
  u_Hostname :: string
  u_Port :: string

type_synonym urlParser = "string \<Rightarrow> URL option"

datatype urlError = InvalidURL | NoScheme | NoHost | NotHTTPS

definition relay_ValidateRemoteConfigURL :: "urlParser \<Rightarrow> string \<Rightarrow> urlError option" where
  "relay_ValidateRemoteConfigURL parse serverURL =
     (case parse serverURL of
        None \<Rightarrow> Some InvalidURL
      | Some u \<Rightarrow>
          if u_Scheme u = [] then Some NoScheme
          else if u_Host u = [] then Some NoHost
          else if u_Scheme u \<noteq> ''https'' then Some NotHTTPS
          else None)"

definition proxy_ValidateRemoteConfigURL :: "urlParser \<Rightarrow> string \<Rightarrow> bool" where
  "proxy_ValidateRemoteConfigURL parse remoteConfigURL =
     (remoteConfigURL = [] \<or>
      (case parse remoteConfigURL of
         None \<Rightarrow> False
       | Some u \<Rightarrow> u_Scheme u = ''https'' \<and> u_Hostname u \<noteq> []))"

definition controlCheckRedirect :: "urlParser \<Rightarrow> string \<Rightarrow> string list \<Rightarrow> bool" where
  "controlCheckRedirect parse req via = (length via < 10 \<and> relay_ValidateRemoteConfigURL parse req = None)"

definition routeCheckRedirect :: "urlParser \<Rightarrow> string \<Rightarrow> string list \<Rightarrow> bool" where
  "routeCheckRedirect parse req via =
     (length via < 10 \<and> via \<noteq> [] \<and>
      (case (parse req, parse (via ! 0)) of
         (Some u, Some v) \<Rightarrow> u_Scheme u = ''https'' \<and> u_Host u = u_Host v
       | _ \<Rightarrow> False))"

fun followRedirects :: "(string \<Rightarrow> string list \<Rightarrow> bool) \<Rightarrow> string list \<Rightarrow> string list \<Rightarrow> string list" where
  "followRedirects check via [] = via"
| "followRedirects check via (next # answers) =
     (if check next via then followRedirects check (via @ [next]) answers else via)"

definition httpsHost :: "urlParser \<Rightarrow> string \<Rightarrow> bool" where
  "httpsHost parse s \<longleftrightarrow> (\<exists>u. parse s = Some u \<and> u_Scheme u = ''https'' \<and> u_Host u \<noteq> [])"

text \<open>A parser for the witnesses: it knows two addresses.\<close>

definition demoParse :: urlParser where
  "demoParse s =
     (if s = ''https://a/x'' \<or> s = ''https://a/y'' then Some \<lparr>u_Scheme = ''https'', u_Host = ''a'', u_Hostname = ''a'', u_Port = []\<rparr>
      else if s = ''http://b'' then Some \<lparr>u_Scheme = ''http'', u_Host = ''b'', u_Hostname = ''b'', u_Port = []\<rparr>
      else None)"

subsection \<open>The requests of a client\<close>

lemma relay_Validate_https: "relay_ValidateRemoteConfigURL parse s = None \<longleftrightarrow> httpsHost parse s"
  by (auto simp: relay_ValidateRemoteConfigURL_def httpsHost_def split: option.splits)

lemma followRedirects_all:
  assumes "\<And>n v. check n v \<Longrightarrow> length v < 10 \<and> P n" "length via \<le> 10" "list_all P via"
  shows "length (followRedirects check via answers) \<le> 10 \<and> list_all P (followRedirects check via answers)"
  using assms(2,3)
proof (induction answers arbitrary: via)
  case (Cons n answers)
  have "length (via @ [n]) \<le> 10 \<and> list_all P (via @ [n])" if "check n via"
    using assms(1) [OF that] Cons.prems by simp
  then show ?case using Cons by simp
qed simp

text \<open>
  C33: whatever redirects a server answers with, the control-plane client requests at most ten URLs and
  all of them use HTTPS and name a host, when the first one was accepted by the validation; and the
  route client never leaves the HTTPS origin of its first request.
\<close>

theorem control_plane_requests_authenticated:
  assumes "relay_ValidateRemoteConfigURL parse s = None"
  shows "length (followRedirects (controlCheckRedirect parse) [s] answers) \<le> 10 \<and>
      (\<forall>r \<in> set (followRedirects (controlCheckRedirect parse) [s] answers). httpsHost parse r) \<and>
      length (followRedirects (routeCheckRedirect parse) [s] answers) \<le> 10 \<and>
      (\<forall>r \<in> set (followRedirects (routeCheckRedirect parse) [s] answers).
         httpsHost parse r \<and> map_option u_Host (parse r) = map_option u_Host (parse s))"
proof -
  have s: "httpsHost parse s" using assms relay_Validate_https by blast
  have c: "length (followRedirects (controlCheckRedirect parse) [s] answers) \<le> 10 \<and>
      list_all (httpsHost parse) (followRedirects (controlCheckRedirect parse) [s] answers)"
    by (rule followRedirects_all) (use s in \<open>auto simp: controlCheckRedirect_def relay_Validate_https\<close>)
  let ?P = "\<lambda>r. httpsHost parse r \<and> map_option u_Host (parse r) = map_option u_Host (parse s)"
  have "length (followRedirects (routeCheckRedirect parse) (s # via) answers) \<le> 10 \<and>
      list_all ?P (followRedirects (routeCheckRedirect parse) (s # via) answers)"
    if "length via < 10" "list_all ?P via" for via
    using that
  proof (induction answers arbitrary: via)
    case Nil
    then show ?case using s by simp
  next
    case (Cons n answers)
    show ?case
    proof (cases "routeCheckRedirect parse n (s # via)")
      case True
      then have "?P n" "length via < 9"
        using s by (auto simp: routeCheckRedirect_def httpsHost_def split: option.splits)
      then show ?thesis using True Cons.IH [of "via @ [n]"] Cons.prems by simp
    next
      case False
      then show ?thesis using Cons.prems s by simp
    qed
  qed
  from this [of "[]"] c show ?thesis by (simp add: list_all_iff)
qed

theorem control_plane_requests_witness:
  "httpsHost demoParse ''https://a/y'' \<and>
   followRedirects (controlCheckRedirect demoParse) [''https://a/x''] [''https://a/y'', ''http://b''] = [''https://a/x'', ''https://a/y'']"
proof -
  let ?r = "followRedirects (controlCheckRedirect demoParse) [''https://a/x''] [''https://a/y'', ''http://b'']"
  have r: "?r = [''https://a/x'', ''https://a/y'']"
    by (simp add: controlCheckRedirect_def relay_ValidateRemoteConfigURL_def demoParse_def)
  have "relay_ValidateRemoteConfigURL demoParse ''https://a/x'' = None"
    by (simp add: relay_ValidateRemoteConfigURL_def demoParse_def)
  from control_plane_requests_authenticated [OF this, of "[''https://a/y'', ''http://b'']"]
  have "httpsHost demoParse ''https://a/y''" unfolding r by simp
  with r show ?thesis by simp
qed

end
