(* ===== verification/Remote_Config.thy ===== *)
theory Remote_Config
  imports Peers Control_Plane
begin

text \<open>
  Where the node's key and configuration come from (\<open>main.go\<close>): \<open>loadOrGeneratePrivateKey\<close>,
  \<open>parseRemoteConfigSigningKey\<close>, \<open>loadRemoteConfig\<close> with the loop around it, \<open>loadConfig\<close>.

  The file system is a table from paths to permission bits and contents; \<open>keyIO\<close> says which of the
  system calls of one attempt fail, and holds the generator and the two conversions of a key.
  \<open>remoteEnv\<close> is the control plane and the library code around it: URL parsing, the HTTP client,
  base64, Ed25519 and JSON decoding (which may fill in part of a value before it fails) are
  parameters.

  Shown: a generated key is read back by the next start and an existing file is never changed or
  trusted with open permissions; a remote configuration is only used when the signature over the
  very bytes that are decoded verifies; a decoding error does not always stop the loop.
\<close>

subsection \<open>The private key\<close>

type_synonym fileSys = "(string, 16 word \<times> string) gomap"

record keyIO =
  io_openFails :: bool
  io_statFails :: bool
  io_readFails :: bool
  io_createFails :: bool
  io_writeFails :: bool
  io_written :: nat
  io_closeFails :: bool
  io_generate :: "Key option"
  io_parse :: "string \<Rightarrow> Key option"
  io_print :: "Key \<Rightarrow> string"

datatype keyError = OpenError | StatError | InsecurePermissions "16 word" | ReadError | ParseError
  | GenerateError | CreateError | WriteError | CloseError

definition loadKey :: "keyIO \<Rightarrow> 16 word \<Rightarrow> string \<Rightarrow> keyError + Key" where
  "loadKey io mode content =
     (if io_statFails io then Inl StatError
      else if mode AND 63 \<noteq> 0 then Inl (InsecurePermissions mode)
      else if io_readFails io then Inl ReadError
      else case io_parse io content of None \<Rightarrow> Inl ParseError | Some key \<Rightarrow> Inr key)"

definition loadOrGeneratePrivateKey :: "keyIO \<Rightarrow> string \<Rightarrow> fileSys \<Rightarrow> (keyError + Key) \<times> fileSys" where
  "loadOrGeneratePrivateKey io path fs =
     (case Load fs path of
        Some (mode, content) \<Rightarrow>
          if io_openFails io then (Inl OpenError, fs) else (loadKey io mode content, fs)
      | None \<Rightarrow>
          if io_openFails io then (Inl OpenError, fs)
          else (case io_generate io of
              None \<Rightarrow> (Inl GenerateError, fs)
            | Some key \<Rightarrow>
                if io_createFails io then (Inl CreateError, fs)
                else if io_writeFails io then (Inl WriteError, Store path (384, take (io_written io) (io_print io key)) fs)
                else if io_closeFails io then (Inl CloseError, Store path (384, io_print io key) fs)
                else (Inr key, Store path (384, io_print io key) fs)))"

subsection \<open>The remote configuration\<close>

record WgConfig =
  wc_PrivateKey :: string
  wc_ListenPort :: int
  wc_RelayPort :: int
  wc_IpAddress :: string
  wc_Peers :: "Peer list"

definition emptyConfig :: WgConfig where
  "emptyConfig = \<lparr>wc_PrivateKey = [], wc_ListenPort = 0, wc_RelayPort = 0, wc_IpAddress = [], wc_Peers = []\<rparr>"

record httpResponse =
  hr_StatusCode :: nat
  hr_Body :: bytes
  hr_ReadFails :: bool
  hr_Signature :: string

record configRequest =
  cr_url :: string
  cr_publicKey :: string
  cr_reachableAt :: "string option"

record remoteEnv =
  rv_parse :: urlParser
  rv_newRequest :: "string \<Rightarrow> bool"
  rv_decodeBase64 :: "string \<Rightarrow> bytes option"
  rv_verify :: "bytes \<Rightarrow> bytes \<Rightarrow> bytes \<Rightarrow> bool"
  rv_unmarshal :: "bytes \<Rightarrow> WgConfig \<times> bool"

datatype configError = URLInvalid urlError | RequestError | FetchError | BadStatus nat | BodyError | TooLarge | BadSignature | DecodeError

definition PublicKeySize :: nat where "PublicKeySize = 32"
definition remoteConfigMaxBodyBytes :: nat where "remoteConfigMaxBodyBytes = 1048576"

datatype signingKeyError = KeyMissing | KeyNotBase64 | KeyLength

definition parseRemoteConfigSigningKey :: "(string \<Rightarrow> bytes option) \<Rightarrow> string \<Rightarrow> signingKeyError + bytes" where
  "parseRemoteConfigSigningKey decode encoded =
     (if encoded = [] then Inl KeyMissing
      else case decode encoded of
        None \<Rightarrow> Inl KeyNotBase64
      | Some key \<Rightarrow> if length key \<noteq> PublicKeySize then Inl KeyLength else Inr key)"

definition configRequestOf :: "string \<Rightarrow> string \<Rightarrow> string \<Rightarrow> configRequest" where
  "configRequestOf url publicKey reachableAt =
     \<lparr>cr_url = url, cr_publicKey = publicKey, cr_reachableAt = (if reachableAt = [] then None else Some reachableAt)\<rparr>"

text \<open>\<open>io.ReadAll\<close> of the limited body: the data, or an error met before the limit.\<close>

definition readLimited :: "nat \<Rightarrow> httpResponse \<Rightarrow> bytes option" where
  "readLimited n resp = (if hr_ReadFails resp \<and> length (hr_Body resp) < n then None else Some (take n (hr_Body resp)))"

definition failFetch :: "configError \<Rightarrow> WgConfig \<Rightarrow> configError option \<times> WgConfig \<times> call list" where
  "failFetch e c = (Some e, c, [RecordRemoteConfigFetch ''error''])"

text \<open>
  The result is the error, the configuration value returned beside it, and the metric calls.  The
  exchange \<open>Do\<close> is the response to the one request made.
\<close>

definition loadRemoteConfig ::
  "remoteEnv \<Rightarrow> (configRequest \<Rightarrow> httpResponse option) \<Rightarrow> string \<Rightarrow> string \<Rightarrow> string \<Rightarrow> bytes \<Rightarrow> configError option \<times> WgConfig \<times> call list" where
  "loadRemoteConfig env Do url publicKey reachableAt signingKey =
     (case relay_ValidateRemoteConfigURL (rv_parse env) url of
        Some e \<Rightarrow> failFetch (URLInvalid e) emptyConfig
      | None \<Rightarrow>
          if \<not> rv_newRequest env url then failFetch RequestError emptyConfig
          else (case Do (configRequestOf url publicKey reachableAt) of
              None \<Rightarrow> failFetch FetchError emptyConfig
            | Some resp \<Rightarrow>
                if hr_StatusCode resp \<noteq> 200 then failFetch (BadStatus (hr_StatusCode resp)) emptyConfig
                else (case readLimited (remoteConfigMaxBodyBytes + 1) resp of
                    None \<Rightarrow> failFetch BodyError emptyConfig
                  | Some data \<Rightarrow>
                      if length data > remoteConfigMaxBodyBytes then failFetch TooLarge emptyConfig
                      else (case rv_decodeBase64 env (hr_Signature resp) of
                          None \<Rightarrow> failFetch BadSignature emptyConfig
                        | Some signature \<Rightarrow>
                            if length signingKey \<noteq> PublicKeySize \<or> \<not> rv_verify env signingKey data signature
                            then failFetch BadSignature emptyConfig
                            else (case rv_unmarshal env data of
                                (config, False) \<Rightarrow> failFetch DecodeError config
                              | (config, True) \<Rightarrow> (None, config, [RecordRemoteConfigFetch ''success'']))))))"

text \<open>
  The loop of \<open>main\<close>: one fetch per element of the list, which says how that request is answered and
  whether the context is cancelled by then.  \<open>Waiting\<close> is a loop that is still trying.
\<close>

datatype fetchOutcome = Configured WgConfig | Cancelled | Waiting

fun fetchLoop :: "remoteEnv \<Rightarrow> string \<Rightarrow> string \<Rightarrow> string \<Rightarrow> string \<Rightarrow> bytes \<Rightarrow> WgConfig
    \<Rightarrow> ((configRequest \<Rightarrow> httpResponse option) \<times> bool) list \<Rightarrow> fetchOutcome" where
  "fetchLoop env url privateKey publicKey reachableAt signingKey wgconfig attempts =
     (if wc_PrivateKey wgconfig \<noteq> [] then Configured wgconfig
      else case attempts of
        [] \<Rightarrow> Waiting
      | (Do, cancelled) # rest \<Rightarrow>
          (case loadRemoteConfig env Do (url @ ''/gerbil/get-config'') publicKey reachableAt signingKey of
             (Some e, config, _) \<Rightarrow>
               if cancelled then Cancelled
               else fetchLoop env url privateKey publicKey reachableAt signingKey config rest
           | (None, config, _) \<Rightarrow>
               fetchLoop env url privateKey publicKey reachableAt signingKey (config\<lparr>wc_PrivateKey := privateKey\<rparr>) rest))"

declare fetchLoop.simps [simp del]

definition loadConfig :: "(bytes \<Rightarrow> WgConfig \<times> bool) \<Rightarrow> (string \<Rightarrow> bytes option) \<Rightarrow> string \<Rightarrow> WgConfig option" where
  "loadConfig unmarshal read filename =
     (case read filename of
        None \<Rightarrow> None
      | Some byteValue \<Rightarrow> (case unmarshal byteValue of (wgconfig, True) \<Rightarrow> Some wgconfig | (_, False) \<Rightarrow> None))"

definition fromSigned :: "remoteEnv \<Rightarrow> string \<Rightarrow> string \<Rightarrow> string \<Rightarrow> string \<Rightarrow> bytes \<Rightarrow> (configRequest \<Rightarrow> httpResponse option) \<Rightarrow> WgConfig \<Rightarrow> bool" where
  "fromSigned env url privateKey pk ra sk Do c \<longleftrightarrow>
     (\<exists>resp sig cfg ok. Do (configRequestOf (url @ ''/gerbil/get-config'') pk ra) = Some resp \<and> rv_decodeBase64 env (hr_Signature resp) = Some sig \<and>
        length sk = PublicKeySize \<and> rv_verify env sk (hr_Body resp) sig \<and> rv_unmarshal env (hr_Body resp) = (cfg, ok) \<and>
        c = (if ok then cfg\<lparr>wc_PrivateKey := privateKey\<rparr> else cfg))"

subsection \<open>Concrete outsides\<close>

definition goodIO :: keyIO where
  "goodIO = \<lparr>io_openFails = False, io_statFails = False, io_readFails = False, io_createFails = False, io_writeFails = False, io_written = 0,
     io_closeFails = False, io_generate = Some [7], io_parse = ParseKey tableDevice, io_print = KeyString tableDevice\<rparr>"

definition demoRemote :: remoteEnv where
  "demoRemote = \<lparr>rv_parse = (\<lambda>s. Some \<lparr>u_Scheme = ''https'', u_Host = ''a'', u_Hostname = ''a'', u_Port = []\<rparr>), rv_newRequest = (\<lambda>_. True),
     rv_decodeBase64 = (\<lambda>s. Some []), rv_verify = (\<lambda>key d sig. d = [1] \<or> d = [2]),
     rv_unmarshal = (\<lambda>d. if d = [1] then (emptyConfig\<lparr>wc_ListenPort := 51820\<rparr>, True) else (emptyConfig\<lparr>wc_PrivateKey := ''other''\<rparr>, False))\<rparr>"

definition answer :: "bytes \<Rightarrow> configRequest \<Rightarrow> httpResponse option" where
  "answer body = (\<lambda>_. Some \<lparr>hr_StatusCode = 200, hr_Body = body, hr_ReadFails = False, hr_Signature = ''s''\<rparr>)"

subsection \<open>Properties\<close>

text \<open>
  C36: a private key that was generated is the key of every later start.  The new file is readable by
  its owner only, and the next start reads the same key from it and changes nothing.
\<close>

theorem key_file_roundtrip:
  assumes "Load fs path = None" "loadOrGeneratePrivateKey io path fs = (Inr key, fs')"
    and "\<not> io_openFails io'" "\<not> io_statFails io'" "\<not> io_readFails io'" "io_parse io' (io_print io key) = Some key"
  shows "loadOrGeneratePrivateKey io' path fs' = (Inr key, fs')"
proof -
  have "fs' = Store path (384, io_print io key) fs"
    using assms(1,2) by (auto simp: loadOrGeneratePrivateKey_def split: if_splits option.splits)
  then show ?thesis using assms(3-6) by (simp add: loadOrGeneratePrivateKey_def loadKey_def Load_Store)
qed

theorem key_file_roundtrip_witness:
  "loadOrGeneratePrivateKey goodIO ''k'' (snd (loadOrGeneratePrivateKey goodIO ''k'' [])) = (Inr [7], snd (loadOrGeneratePrivateKey goodIO ''k'' []))"
  by (rule key_file_roundtrip [where fs = "[]" and io = goodIO]) (simp_all add: goodIO_def loadOrGeneratePrivateKey_def tableKey_round)

text \<open>
  An existing key file is never changed, and it is only trusted when neither group nor others
  have any permission on it.
\<close>

theorem key_file_protected:
  assumes "Load fs path = Some (mode, content)"
  shows "snd (loadOrGeneratePrivateKey io path fs) = fs \<and>
      (fst (loadOrGeneratePrivateKey io path fs) = Inr key \<longrightarrow> mode AND 63 = 0 \<and> io_parse io content = Some key)"
  using assms by (auto simp: loadOrGeneratePrivateKey_def loadKey_def split: if_splits option.splits)

theorem key_file_protected_witness:
  "snd (loadOrGeneratePrivateKey goodIO ''k'' [(''k'', (420, ''kA''))]) = [(''k'', (420, ''kA''))] \<and>
   fst (loadOrGeneratePrivateKey goodIO ''k'' [(''k'', (420, ''kA''))]) \<noteq> Inr [65]"
  using key_file_protected [of "[(''k'', (420, ''kA''))]" "''k''" 420 "''kA''" goodIO "[65]"] by auto

lemma loadRemoteConfig_ok:
  assumes "loadRemoteConfig env Do url pk ra sk = (None, config, calls)"
  shows "httpsHost (rv_parse env) url \<and>
    (\<exists>resp sig. Do (configRequestOf url pk ra) = Some resp \<and> hr_StatusCode resp = 200 \<and> length (hr_Body resp) \<le> remoteConfigMaxBodyBytes \<and>
       rv_decodeBase64 env (hr_Signature resp) = Some sig \<and> length sk = PublicKeySize \<and> rv_verify env sk (hr_Body resp) sig \<and>
       rv_unmarshal env (hr_Body resp) = (config, True))"
  using assms unfolding loadRemoteConfig_def failFetch_def readLimited_def
  by (auto simp: relay_Validate_https split: option.splits if_splits prod.splits bool.splits)

text \<open>
  A remote configuration is accepted only from an HTTPS URL, from a 200 response of at most 1 MiB
  whose header carries a signature that verifies, under a signing key of the right size, over exactly
  the bytes the configuration was decoded from.
\<close>

theorem remote_config_signed:
  assumes "loadRemoteConfig env Do url pk ra sk = (None, config, calls)"
  shows "httpsHost (rv_parse env) url \<and> calls = [RecordRemoteConfigFetch ''success''] \<and>
    (\<exists>resp sig. Do (configRequestOf url pk ra) = Some resp \<and> hr_StatusCode resp = 200 \<and> length (hr_Body resp) \<le> remoteConfigMaxBodyBytes \<and>
       rv_decodeBase64 env (hr_Signature resp) = Some sig \<and> length sk = PublicKeySize \<and> rv_verify env sk (hr_Body resp) sig \<and>
       rv_unmarshal env (hr_Body resp) = (config, True))"
proof -
  have "calls = [RecordRemoteConfigFetch ''success'']"
    using assms unfolding loadRemoteConfig_def failFetch_def
    by (auto split: option.splits if_splits prod.splits bool.splits)
  then show ?thesis using loadRemoteConfig_ok [OF assms] by blast
qed

theorem remote_config_signed_witness:
  "rv_verify demoRemote (replicate 32 0) [1] []"
proof -
  have "loadRemoteConfig demoRemote (answer [1]) ''https://a'' ''p'' [] (replicate 32 0) =
      (None, emptyConfig\<lparr>wc_ListenPort := 51820\<rparr>, [RecordRemoteConfigFetch ''success''])"
    by (simp add: loadRemoteConfig_def relay_ValidateRemoteConfigURL_def demoRemote_def answer_def readLimited_def remoteConfigMaxBodyBytes_def PublicKeySize_def)
  from remote_config_signed [OF this] show ?thesis by (auto simp: answer_def demoRemote_def)
qed

lemma loadRemoteConfig_decoded:
  assumes "loadRemoteConfig env Do url pk ra sk = (res, config, calls)" "config \<noteq> emptyConfig \<or> res = None"
  shows "\<exists>resp sig. Do (configRequestOf url pk ra) = Some resp \<and> rv_decodeBase64 env (hr_Signature resp) = Some sig \<and>
      length sk = PublicKeySize \<and> rv_verify env sk (hr_Body resp) sig \<and> rv_unmarshal env (hr_Body resp) = (config, res = None)"
  using assms unfolding loadRemoteConfig_def failFetch_def readLimited_def
  by (auto split: option.splits if_splits prod.splits bool.splits)

lemma fetchLoop_key: "fetchLoop env url privateKey pk ra sk c0 attempts = Configured c \<Longrightarrow> wc_PrivateKey c \<noteq> []"
proof (induction attempts arbitrary: c0)
  case Nil
  then show ?case by (subst (asm) fetchLoop.simps) (auto split: if_splits)
next
  case (Cons a rest)
  show ?case using Cons.prems Cons.IH
    by (subst (asm) fetchLoop.simps) (auto split: if_splits option.splits prod.splits)
qed

lemma fetchLoop_signed:
  "fetchLoop env url privateKey pk ra sk c0 attempts = Configured c \<Longrightarrow> privateKey \<noteq> [] \<Longrightarrow>
     c = c0 \<or> (\<exists>Do b. (Do, b) \<in> set attempts \<and> fromSigned env url privateKey pk ra sk Do c)"
proof (induction attempts arbitrary: c0)
  case Nil
  then show ?case by (auto simp: fetchLoop.simps split: if_splits)
next
  case (Cons a rest)
  obtain Do b where a: "a = (Do, b)" by (cases a)
  show ?case
  proof (cases "wc_PrivateKey c0 = []")
    case False
    then show ?thesis using Cons.prems by (simp add: fetchLoop.simps)
  next
    case True
    obtain res config calls where l: "loadRemoteConfig env Do (url @ ''/gerbil/get-config'') pk ra sk = (res, config, calls)" by (metis prod_cases3)
    let ?c1 = "if res = None then config\<lparr>wc_PrivateKey := privateKey\<rparr> else config"
    have nx: "fetchLoop env url privateKey pk ra sk ?c1 rest = Configured c"
      using Cons.prems(1) True l unfolding a by (subst (asm) fetchLoop.simps) (auto split: option.splits if_splits)
    from Cons.IH [OF nx Cons.prems(2)] show ?thesis
    proof
      assume c: "c = ?c1"
      show ?thesis
      proof (cases "config \<noteq> emptyConfig \<or> res = None")
        case True
        obtain resp sig where "Do (configRequestOf (url @ ''/gerbil/get-config'') pk ra) = Some resp" "rv_decodeBase64 env (hr_Signature resp) = Some sig"
            "length sk = PublicKeySize" "rv_verify env sk (hr_Body resp) sig" "rv_unmarshal env (hr_Body resp) = (config, res = None)"
          using loadRemoteConfig_decoded [OF l True] by blast
        then have "fromSigned env url privateKey pk ra sk Do c" unfolding fromSigned_def
          by (intro exI [of _ resp] exI [of _ sig] exI [of _ config] exI [of _ "res = None"]) (simp add: c)
        then show ?thesis unfolding a by auto
      next
        case False
        then have "wc_PrivateKey c = []" using c by (auto simp: emptyConfig_def)
        moreover have "wc_PrivateKey c \<noteq> []" by (rule fetchLoop_key [OF nx])
        ultimately show ?thesis by simp
      qed
    next
      assume "\<exists>Do b. (Do, b) \<in> set rest \<and> fromSigned env url privateKey pk ra sk Do c"
      then show ?thesis by auto
    qed
  qed
qed

text \<open>
  Whatever number of attempts it takes, the configuration the node starts with was decoded from
  bytes that one of the responses carried with a signature verifying under the configured key; when
  decoding succeeded, the private key in it is the node's own.
\<close>

theorem fetched_config_signed:
  assumes "fetchLoop env url privateKey pk ra sk emptyConfig attempts = Configured c" "privateKey \<noteq> []"
  shows "\<exists>Do b. (Do, b) \<in> set attempts \<and> fromSigned env url privateKey pk ra sk Do c"
proof -
  have "c \<noteq> emptyConfig" using fetchLoop_key [OF assms(1)] by (auto simp: emptyConfig_def)
  then show ?thesis using fetchLoop_signed [OF assms] by blast
qed

lemma demo_load:
  "loadRemoteConfig demoRemote (answer [1]) u pk [] (replicate 32 0) = (None, emptyConfig\<lparr>wc_ListenPort := 51820\<rparr>, [RecordRemoteConfigFetch ''success''])"
  "loadRemoteConfig demoRemote (answer [2]) u pk [] (replicate 32 0) =
     (Some DecodeError, emptyConfig\<lparr>wc_PrivateKey := ''other''\<rparr>, [RecordRemoteConfigFetch ''error''])"
  by (simp_all add: loadRemoteConfig_def relay_ValidateRemoteConfigURL_def demoRemote_def answer_def readLimited_def
      remoteConfigMaxBodyBytes_def PublicKeySize_def failFetch_def)

theorem fetched_config_signed_witness:
  "\<exists>Do b. (Do, b) \<in> set [((\<lambda>_. None), False), (answer [1], False)] \<and>
     fromSigned demoRemote ''https://a'' ''own'' ''p'' [] (replicate 32 0) Do (emptyConfig\<lparr>wc_ListenPort := 51820, wc_PrivateKey := ''own''\<rparr>)"
proof -
  have n: "loadRemoteConfig demoRemote (\<lambda>_. None) u pk [] (replicate 32 0) = (Some FetchError, emptyConfig, [RecordRemoteConfigFetch ''error''])" for u pk
    by (simp add: loadRemoteConfig_def relay_ValidateRemoteConfigURL_def demoRemote_def failFetch_def)
  have "fetchLoop demoRemote ''https://a'' ''own'' ''p'' [] (replicate 32 0) emptyConfig [((\<lambda>_. None), False), (answer [1], False)] =
      Configured (emptyConfig\<lparr>wc_ListenPort := 51820, wc_PrivateKey := ''own''\<rparr>)"
    by (simp add: fetchLoop.simps n demo_load emptyConfig_def)
  from fetched_config_signed [OF this] show ?thesis by simp
qed

text \<open>
  An error of the fetch does not always lead to another attempt.  When decoding fails after it
  filled in a private key, the loop ends with that half-decoded configuration, and the node runs with
  the private key of the response instead of its own.
\<close>

theorem fetch_keeps_failed_decode:
  assumes "loadRemoteConfig env Do (url @ ''/gerbil/get-config'') pk ra sk = (Some e, config, calls)" "wc_PrivateKey config \<noteq> []"
  shows "fetchLoop env url privateKey pk ra sk emptyConfig ((Do, False) # rest) = Configured config"
  using assms by (simp add: fetchLoop.simps emptyConfig_def)

theorem fetch_keeps_failed_decode_witness:
  "fetchLoop demoRemote ''https://a'' ''own'' ''p'' [] (replicate 32 0) emptyConfig [(answer [2], False)] =
     Configured (emptyConfig\<lparr>wc_PrivateKey := ''other''\<rparr>)"
  by (rule fetch_keeps_failed_decode [OF demo_load(2)]) simp

end
