(* ===== verification/Startup.thy ===== *)
theory Startup
  imports Remote_Config Logger
begin

text \<open>
  Start-up of \<open>main.go\<close> up to the point where the components run: \<open>main\<close>'s reading of environment
  variables and command-line flags, and the checks that end the process.

  A flag is registered only when its environment variable is not set (the metrics flags always are);
  \<open>flag.Parse\<close> ends the process when an argument is not registered or does not parse.  Registering
  also stores the flag's default in the variable.  \<open>environ\<close> is \<open>os.Getenv\<close>, \<open>args\<close> the flags given
  with their values; the parsers of integers and durations are parameters.

  Shown: what holds whenever start-up succeeds (token, one source of configuration, a verified URL
  and key, a listener that is not public), how flags and variables combine, and that the environment
  variable of the local overrides is lost.
\<close>

type_synonym environ = "string \<Rightarrow> string"
type_synonym args = "(string, string) gomap"

record valueParsers =
  vp_Int :: "string \<Rightarrow> int option"
  vp_Duration :: "string \<Rightarrow> duration option"

definition ParseBool :: "string \<Rightarrow> bool option" where
  "ParseBool s = (if s \<in> set [''1'', ''t'', ''T'', ''TRUE'', ''true'', ''True''] then Some True
     else if s \<in> set [''0'', ''f'', ''F'', ''FALSE'', ''false'', ''False''] then Some False else None)"

text \<open>The flags that exist only when their variable is not set, by kind.\<close>

definition stringFlags :: "(string \<times> string) list" where
  "stringFlags = [(''INTERFACE'', ''interface''), (''CONFIG'', ''config''), (''REMOTE_CONFIG'', ''remoteConfig''),
     (''REMOTE_CONFIG_SIGNING_KEY'', ''remote-config-signing-key''), (''LISTEN'', ''listen''),
     (''GENERATE_AND_SAVE_KEY_TO'', ''generateAndSaveKeyTo''), (''REACHABLE_AT'', ''reachableAt''), (''LOG_LEVEL'', ''log-level''),
     (''MTU'', ''mtu''), (''NOTIFY_URL'', ''notify''), (''LOCAL_PROXY'', ''local-proxy''),
     (''TRUSTED_UPSTREAMS'', ''trusted-upstreams''), (''SNI_PROXY_ALLOWED_CIDRS'', ''sni-proxy-allowed-cidrs''),
     (''BANDWIDTH_LIMIT'', ''bandwidth-limit'')]"

definition intFlags :: "(string \<times> string) list" where
  "intFlags = [(''SNI_PORT'', ''sni-port''), (''LOCAL_PROXY_PORT'', ''local-proxy-port'')]"

definition boolFlags :: "(string \<times> string) list" where
  "boolFlags = [(''PROXY_PROTOCOL'', ''proxy-protocol''), (''DO_TRAFFIC_SHAPING'', ''do-traffic-shaping''), (''DISABLE_FIREWALL'', ''disable-firewall'')]"

definition metricsStringFlags :: "string list" where
  "metricsStringFlags = [''metrics-backend'', ''metrics-path'', ''otel-metrics-protocol'', ''otel-metrics-endpoint'']"

definition metricsBoolFlags :: "string list" where
  "metricsBoolFlags = [''metrics-enabled'', ''otel-metrics-insecure'']"

definition durationFlags :: "string list" where
  "durationFlags = [''otel-metrics-export-interval'', ''otel-metrics-timeout'']"

definition unset :: "environ \<Rightarrow> (string \<times> string) list \<Rightarrow> string list" where
  "unset env fs = map snd (filter (\<lambda>(var, _). env var = []) fs)"

definition flagOk :: "valueParsers \<Rightarrow> environ \<Rightarrow> string \<times> string \<Rightarrow> bool" where
  "flagOk vp env a = (case a of (f, v) \<Rightarrow>
     f \<in> set (''reportBandwidthTo'' # unset env stringFlags @ metricsStringFlags) \<or>
     (f = ''local-overrides'' \<and> env ''LOCAL_OVERRIDES'' \<noteq> []) \<or>
     (f \<in> set (unset env intFlags) \<and> vp_Int vp v \<noteq> None) \<or>
     (f \<in> set (unset env boolFlags @ metricsBoolFlags) \<and> ParseBool v \<noteq> None) \<or>
     (f \<in> set durationFlags \<and> vp_Duration vp v \<noteq> None))"

definition flagStr :: "args \<Rightarrow> string \<Rightarrow> string \<Rightarrow> string" where
  "flagStr args f dflt = (case Load args f of Some v \<Rightarrow> v | None \<Rightarrow> dflt)"

definition flagVal :: "(string \<Rightarrow> 'a option) \<Rightarrow> args \<Rightarrow> string \<Rightarrow> 'a \<Rightarrow> 'a" where
  "flagVal parse args f dflt = (case Load args f of Some v \<Rightarrow> (case parse v of Some x \<Rightarrow> x | None \<Rightarrow> dflt) | None \<Rightarrow> dflt)"

text \<open>A variable, or the flag when the variable is empty.\<close>

definition strSetting :: "environ \<Rightarrow> args \<Rightarrow> string \<Rightarrow> string \<Rightarrow> string \<Rightarrow> string" where
  "strSetting env args var f dflt = (if env var \<noteq> [] then env var else flagStr args f dflt)"

definition boolSetting :: "environ \<Rightarrow> args \<Rightarrow> string \<Rightarrow> string \<Rightarrow> bool \<Rightarrow> bool" where
  "boolSetting env args var f dflt = (if env var \<noteq> [] then toLower (env var) = ''true'' else flagVal ParseBool args f dflt)"

definition portSetting :: "valueParsers \<Rightarrow> environ \<Rightarrow> args \<Rightarrow> string \<Rightarrow> string \<Rightarrow> int \<Rightarrow> int" where
  "portSetting vp env args var f dflt =
     (if env var \<noteq> [] then (case Atoi (env var) of Some port \<Rightarrow> port | None \<Rightarrow> 0) else flagVal (vp_Int vp) args f dflt)"

definition orDefault :: "string \<Rightarrow> string \<Rightarrow> string" where
  "orDefault v dflt = (if v \<noteq> [] then v else dflt)"

definition envDuration :: "valueParsers \<Rightarrow> string \<Rightarrow> duration \<Rightarrow> duration" where
  "envDuration vp v dflt = (if v \<noteq> [] then (case vp_Duration vp v of Some d \<Rightarrow> d | None \<Rightarrow> dflt) else dflt)"

record settings =
  st_interfaceName :: string
  st_configFile :: string
  st_remoteConfigURL :: string
  st_remoteConfigKey :: string
  st_listenAddr :: string
  st_generateAndSaveKeyTo :: string
  st_reachableAt :: string
  st_logLevel :: string
  st_mtu :: string
  st_notifyURL :: string
  st_controlAPIToken :: string
  st_sniProxyPort :: int
  st_localProxyAddr :: string
  st_localProxyPort :: int
  st_localOverridesStr :: string
  st_trustedUpstreamsStr :: string
  st_proxyAllowedCIDRsStr :: string
  st_proxyProtocol :: bool
  st_doTrafficShaping :: bool
  st_disableFirewall :: bool
  st_bandwidthLimit :: string
  st_metricsEnabled :: bool
  st_metricsBackend :: string
  st_metricsPath :: string
  st_otelProtocol :: string
  st_otelEndpoint :: string
  st_otelInsecure :: bool
  st_otelInterval :: duration
  st_otelTimeout :: duration

definition readSettings :: "valueParsers \<Rightarrow> environ \<Rightarrow> args \<Rightarrow> settings" where
  "readSettings vp env args = \<lparr>
     st_interfaceName = strSetting env args ''INTERFACE'' ''interface'' ''wg0'',
     st_configFile = strSetting env args ''CONFIG'' ''config'' [],
     st_remoteConfigURL = strSetting env args ''REMOTE_CONFIG'' ''remoteConfig'' [],
     st_remoteConfigKey = strSetting env args ''REMOTE_CONFIG_SIGNING_KEY'' ''remote-config-signing-key'' [],
     st_listenAddr = strSetting env args ''LISTEN'' ''listen'' [],
     st_generateAndSaveKeyTo = strSetting env args ''GENERATE_AND_SAVE_KEY_TO'' ''generateAndSaveKeyTo'' [],
     st_reachableAt = strSetting env args ''REACHABLE_AT'' ''reachableAt'' [],
     st_logLevel = strSetting env args ''LOG_LEVEL'' ''log-level'' ''INFO'',
     st_mtu = strSetting env args ''MTU'' ''mtu'' ''1280'',
     st_notifyURL = strSetting env args ''NOTIFY_URL'' ''notify'' [],
     st_controlAPIToken = env ''CONTROL_API_TOKEN'',
     st_sniProxyPort = portSetting vp env args ''SNI_PORT'' ''sni-port'' 8443,
     st_localProxyAddr = strSetting env args ''LOCAL_PROXY'' ''local-proxy'' ''localhost'',
     st_localProxyPort = portSetting vp env args ''LOCAL_PROXY_PORT'' ''local-proxy-port'' 443,
     st_localOverridesStr = (if env ''LOCAL_OVERRIDES'' \<noteq> [] then flagStr args ''local-overrides'' [] else env ''LOCAL_OVERRIDES''),
     st_trustedUpstreamsStr = strSetting env args ''TRUSTED_UPSTREAMS'' ''trusted-upstreams'' [],
     st_proxyAllowedCIDRsStr = strSetting env args ''SNI_PROXY_ALLOWED_CIDRS'' ''sni-proxy-allowed-cidrs'' [],
     st_proxyProtocol = boolSetting env args ''PROXY_PROTOCOL'' ''proxy-protocol'' True,
     st_doTrafficShaping = boolSetting env args ''DO_TRAFFIC_SHAPING'' ''do-traffic-shaping'' False,
     st_disableFirewall = boolSetting env args ''DISABLE_FIREWALL'' ''disable-firewall'' False,
     st_bandwidthLimit = strSetting env args ''BANDWIDTH_LIMIT'' ''bandwidth-limit'' ''50mbit'',
     st_metricsEnabled = flagVal ParseBool args ''metrics-enabled'' (if env ''METRICS_ENABLED'' \<noteq> [] then toLower (env ''METRICS_ENABLED'') = ''true'' else True),
     st_metricsBackend = flagStr args ''metrics-backend'' (orDefault (env ''METRICS_BACKEND'') ''prometheus''),
     st_metricsPath = flagStr args ''metrics-path'' (orDefault (env ''METRICS_PATH'') ''/metrics''),
     st_otelProtocol = flagStr args ''otel-metrics-protocol'' (orDefault (env ''OTEL_METRICS_PROTOCOL'') ''grpc''),
     st_otelEndpoint = flagStr args ''otel-metrics-endpoint'' (orDefault (env ''OTEL_METRICS_ENDPOINT'') ''localhost:4317''),
     st_otelInsecure = flagVal ParseBool args ''otel-metrics-insecure''
       (if env ''OTEL_METRICS_INSECURE'' \<noteq> [] then toLower (env ''OTEL_METRICS_INSECURE'') = ''true'' else True),
     st_otelInterval = flagVal (vp_Duration vp) args ''otel-metrics-export-interval'' (envDuration vp (env ''OTEL_METRICS_EXPORT_INTERVAL'') (60 * second)),
     st_otelTimeout = flagVal (vp_Duration vp) args ''otel-metrics-timeout'' (envDuration vp (env ''OTEL_METRICS_TIMEOUT'') (10 * second))\<rparr>"

definition parseFlags :: "valueParsers \<Rightarrow> environ \<Rightarrow> args \<Rightarrow> settings option" where
  "parseFlags vp env args = (if list_all (flagOk vp env) args then Some (readSettings vp env args) else None)"

datatype fatal = UsageError | RemoteURLRejected | MetricsError | BadReachableAt | TokenTooShort | BadMTU | NoConfig | BothConfigs
  | BadSigningKey signingKeyError | RemoteURLInvalid urlError | ListenError | PublicListener IP

text \<open>What the later stages take from the checks, and from start-up with the listener.\<close>

record checks =
  pl_settings :: settings
  pl_ifbName :: string
  pl_listenAddr :: string
  pl_mtuInt :: int
  pl_remoteConfigURL :: string
  pl_signingKey :: "bytes option"
  pl_logLevel :: LogLevel

record plan = checks +
  pl_listenerIP :: IP

record startEnv =
  se_values :: valueParsers
  se_parseURL :: urlParser
  se_initMetrics :: "MetricsConfig \<Rightarrow> bool"
  se_decodeBase64 :: "string \<Rightarrow> bytes option"
  se_listen :: "string \<Rightarrow> IP option"

definition metricsConfigOf :: "environ \<Rightarrow> settings \<Rightarrow> MetricsConfig" where
  "metricsConfigOf env st = \<lparr>mc_Enabled = st_metricsEnabled st, mc_Backend = st_metricsBackend st, mc_PrometheusPath = st_metricsPath st,
     mc_OTel = \<lparr>otel_Protocol = st_otelProtocol st, otel_Endpoint = st_otelEndpoint st, otel_Insecure = st_otelInsecure st,
       otel_ExportInterval = st_otelInterval st, otel_Timeout = st_otelTimeout st\<rparr>,
     mc_ServiceName = ''gerbil'', mc_ServiceVersion = ''1.0.0'', mc_DeploymentEnvironment = env ''DEPLOYMENT_ENVIRONMENT''\<rparr>"

definition listenAddress :: "urlParser \<Rightarrow> settings \<Rightarrow> string option" where
  "listenAddress parse st =
     (if st_reachableAt st \<noteq> [] \<and> st_listenAddr st = [] then
        (case parse (st_reachableAt st) of
           None \<Rightarrow> None
         | Some u \<Rightarrow>
             if (u_Scheme u \<noteq> ''http'' \<and> u_Scheme u \<noteq> ''https'') \<or> u_Hostname u = [] \<or> u_Port u = [] then None
             else Some (JoinHostPort (u_Hostname u) (u_Port u)))
      else Some (orDefault (st_listenAddr st) ''127.0.0.1:3003''))"

definition trimConfigURL :: "string \<Rightarrow> string" where
  "trimConfigURL url = trimSuffix (trimSuffix url ''/gerbil/get-config'') ''/''"

definition signingKeyOf :: "startEnv \<Rightarrow> settings \<Rightarrow> signingKeyError + bytes option" where
  "signingKeyOf E st =
     (if st_remoteConfigURL st = [] then Inr None
      else case parseRemoteConfigSigningKey (se_decodeBase64 E) (st_remoteConfigKey st) of Inl e \<Rightarrow> Inl e | Inr k \<Rightarrow> Inr (Some k))"

text \<open>
  The checks of \<open>main\<close> in their order.  The listener is opened, and its address checked, after the
  components are up; \<open>startup\<close> is the checks with that last one.
\<close>

definition startChecks :: "startEnv \<Rightarrow> environ \<Rightarrow> args \<Rightarrow> fatal + checks" where
  "startChecks E env args =
     (case parseFlags (se_values E) env args of
        None \<Rightarrow> Inl UsageError
      | Some st \<Rightarrow>
          if \<not> proxy_ValidateRemoteConfigURL (se_parseURL E) (st_remoteConfigURL st) then Inl RemoteURLRejected
          else if \<not> se_initMetrics E (metricsConfigOf env st) then Inl MetricsError
          else (case listenAddress (se_parseURL E) st of
              None \<Rightarrow> Inl BadReachableAt
            | Some addr \<Rightarrow>
                if length (st_controlAPIToken st) < 32 then Inl TokenTooShort
                else (case Atoi (st_mtu st) of
                    None \<Rightarrow> Inl BadMTU
                  | Some mtuInt \<Rightarrow>
                      if st_configFile st = [] \<and> st_remoteConfigURL st = [] then Inl NoConfig
                      else if st_configFile st \<noteq> [] \<and> st_remoteConfigURL st \<noteq> [] then Inl BothConfigs
                      else (case signingKeyOf E st of
                          Inl e \<Rightarrow> Inl (BadSigningKey e)
                        | Inr key \<Rightarrow>
                            let url = trimConfigURL (st_remoteConfigURL st) in
                            (case (if url \<noteq> [] then relay_ValidateRemoteConfigURL (se_parseURL E) url else None) of
                               Some e \<Rightarrow> Inl (RemoteURLInvalid e)
                             | None \<Rightarrow> Inr \<lparr>pl_settings = st, pl_ifbName = newIfbName (st_interfaceName st), pl_listenAddr = addr,
                                 pl_mtuInt = mtuInt, pl_remoteConfigURL = url, pl_signingKey = key,
                                 pl_logLevel = parseLogLevel (st_logLevel st)\<rparr>)))))"

definition openListener :: "startEnv \<Rightarrow> string \<Rightarrow> fatal + IP" where
  "openListener E addr =
     (case se_listen E addr of
        None \<Rightarrow> Inl ListenError
      | Some ip \<Rightarrow> if \<not> IsLoopback ip \<and> \<not> IsPrivate ip then Inl (PublicListener ip) else Inr ip)"

definition startup :: "startEnv \<Rightarrow> environ \<Rightarrow> args \<Rightarrow> fatal + plan" where
  "startup E env args =
     (case startChecks E env args of
        Inl e \<Rightarrow> Inl e
      | Inr c \<Rightarrow>
          (case openListener E (pl_listenAddr c) of
             Inl e \<Rightarrow> Inl e
           | Inr ip \<Rightarrow> Inr (checks.extend c (plan.fields ip))))"

text \<open>The comma-separated lists handed to \<open>NewSNIProxy\<close>, and the relay port.\<close>

definition splitList :: "string \<Rightarrow> string list" where
  "splitList s = (if s = [] then [] else map trimSpace (splitOn CHR '','' s))"

definition relayPortOf :: "WgConfig \<Rightarrow> int" where
  "relayPortOf c = (if wc_RelayPort c = 0 then 21820 else wc_RelayPort c)"

subsection \<open>Concrete outsides\<close>

definition demoStart :: startEnv where
  "demoStart = \<lparr>se_values = \<lparr>vp_Int = Atoi, vp_Duration = (\<lambda>_. None)\<rparr>, se_parseURL = demoParse, se_initMetrics = (\<lambda>_. True),
     se_decodeBase64 = (\<lambda>s. if s = ''key'' then Some (replicate 32 0) else None), se_listen = (\<lambda>a. Some [127, 0, 0, 1])\<rparr>"

definition demoEnviron :: environ where
  "demoEnviron v = (if v = ''REMOTE_CONFIG'' then ''https://a/x'' else if v = ''REMOTE_CONFIG_SIGNING_KEY'' then ''key''
     else if v = ''CONTROL_API_TOKEN'' then ''0123456789abcdef0123456789abcdef'' else if v = ''LOCAL_OVERRIDES'' then ''a.example'' else [])"

definition demoSettings :: settings where
  "demoSettings = readSettings (se_values demoStart) demoEnviron []"

definition demoChecks :: checks where
  "demoChecks = \<lparr>pl_settings = demoSettings, pl_ifbName = newIfbName (st_interfaceName demoSettings), pl_listenAddr = ''127.0.0.1:3003'',
     pl_mtuInt = 1280, pl_remoteConfigURL = ''https://a/x'', pl_signingKey = Some (replicate 32 0),
     pl_logLevel = parseLogLevel (st_logLevel demoSettings)\<rparr>"

subsection \<open>Properties\<close>

lemma parseFlags_Some: "parseFlags vp env args = Some st \<longleftrightarrow> list_all (flagOk vp env) args \<and> st = readSettings vp env args"
  by (auto simp: parseFlags_def)

lemma signingKeyOf_key: "signingKeyOf E st = Inr key \<Longrightarrow> st_remoteConfigURL st \<noteq> [] \<Longrightarrow> \<exists>k. key = Some k \<and> length k = PublicKeySize"
  by (auto simp: signingKeyOf_def parseRemoteConfigSigningKey_def split: sum.splits option.splits if_splits)

lemma openListener_ok: "openListener E addr = Inr ip \<Longrightarrow> IsLoopback ip \<or> IsPrivate ip"
  by (auto simp: openListener_def split: option.splits if_splits)

lemma startChecks_ok:
  assumes "startChecks E env args = Inr c"
  shows "32 \<le> length (st_controlAPIToken (pl_settings c)) \<and>
      ((st_configFile (pl_settings c) = []) \<noteq> (st_remoteConfigURL (pl_settings c) = [])) \<and>
      (st_remoteConfigURL (pl_settings c) \<noteq> [] \<longrightarrow>
         (\<exists>k. pl_signingKey c = Some k \<and> length k = PublicKeySize) \<and>
         proxy_ValidateRemoteConfigURL (se_parseURL E) (st_remoteConfigURL (pl_settings c)) \<and>
         (pl_remoteConfigURL c \<noteq> [] \<longrightarrow> httpsHost (se_parseURL E) (pl_remoteConfigURL c)))"
proof -
  obtain st where st: "parseFlags (se_values E) env args = Some st" using assms by (auto simp: startChecks_def split: option.splits)
  have steps: "proxy_ValidateRemoteConfigURL (se_parseURL E) (st_remoteConfigURL st)" "32 \<le> length (st_controlAPIToken st)"
      "(st_configFile st = []) \<noteq> (st_remoteConfigURL st = [])" "pl_settings c = st"
      "signingKeyOf E st = Inr (pl_signingKey c)" "pl_remoteConfigURL c = trimConfigURL (st_remoteConfigURL st)"
      "pl_remoteConfigURL c \<noteq> [] \<longrightarrow> relay_ValidateRemoteConfigURL (se_parseURL E) (pl_remoteConfigURL c) = None"
    using assms by (auto simp: startChecks_def st Let_def split: if_splits option.splits sum.splits)
  show ?thesis using steps signingKeyOf_key [OF steps(5)] by (simp add: relay_Validate_https)
qed

text \<open>
  A node that gets through start-up has a control token of at least 32 bytes, exactly one source
  of configuration, a listener on a loopback or private address, and, when the configuration is
  remote, an HTTPS URL and a signing key of the right length.
\<close>

theorem startup_safe:
  assumes "startup E env args = Inr pl"
  shows "32 \<le> length (st_controlAPIToken (pl_settings pl)) \<and>
      ((st_configFile (pl_settings pl) = []) \<noteq> (st_remoteConfigURL (pl_settings pl) = [])) \<and>
      (IsLoopback (pl_listenerIP pl) \<or> IsPrivate (pl_listenerIP pl)) \<and>
      (st_remoteConfigURL (pl_settings pl) \<noteq> [] \<longrightarrow>
         (\<exists>k. pl_signingKey pl = Some k \<and> length k = PublicKeySize) \<and>
         proxy_ValidateRemoteConfigURL (se_parseURL E) (st_remoteConfigURL (pl_settings pl)) \<and>
         (pl_remoteConfigURL pl \<noteq> [] \<longrightarrow> httpsHost (se_parseURL E) (pl_remoteConfigURL pl)))"
proof -
  obtain c ip where c: "startChecks E env args = Inr c" "openListener E (pl_listenAddr c) = Inr ip"
      "pl = checks.extend c (plan.fields ip)"
    using assms by (auto simp: startup_def split: sum.splits)
  then have "pl_settings pl = pl_settings c" "pl_signingKey pl = pl_signingKey c" "pl_remoteConfigURL pl = pl_remoteConfigURL c"
      "pl_listenerIP pl = ip"
    by (simp_all add: checks.defs plan.defs)
  with startChecks_ok [OF c(1)] openListener_ok [OF c(2)] show ?thesis by simp
qed

text \<open>
  The variable \<open>LOCAL_OVERRIDES\<close> has no effect on its own.  Setting it only makes the flag exist,
  and registering the flag overwrites the value; unless the flag is given as well, the node starts
  without local overrides, and without the variable the flag ends the process.
\<close>

theorem local_overrides_lost:
  "(Load args ''local-overrides'' = None \<longrightarrow> st_localOverridesStr (readSettings vp env args) = []) \<and>
   (env ''LOCAL_OVERRIDES'' = [] \<and> hasKey args ''local-overrides'' \<longrightarrow> parseFlags vp env args = None)"
proof -
  have u: "\<not> flagOk vp env (''local-overrides'', v)" if "env ''LOCAL_OVERRIDES'' = []" for v
    using that by (auto simp: flagOk_def unset_def stringFlags_def intFlags_def boolFlags_def metricsStringFlags_def metricsBoolFlags_def durationFlags_def)
  have "parseFlags vp env args = None" if "env ''LOCAL_OVERRIDES'' = []" "hasKey args ''local-overrides''"
    using u [OF that(1)] that(2) unfolding parseFlags_def list_all_iff hasKey_iff by force
  then show ?thesis by (simp add: readSettings_def flagStr_def)
qed

lemma unset_mem: "f \<in> set (unset env fs) \<longleftrightarrow> (\<exists>v. (v, f) \<in> set fs \<and> env v = [])"
  by (force simp: unset_def)

lemma flag_names_distinct:
  "distinct (map snd (stringFlags @ intFlags @ boolFlags) @ ''reportBandwidthTo'' # ''local-overrides'' # metricsStringFlags @ metricsBoolFlags @ durationFlags)"
  by (simp add: stringFlags_def intFlags_def boolFlags_def metricsStringFlags_def metricsBoolFlags_def durationFlags_def)

text \<open>
  For the other settings a variable and its flag exclude each other: giving the flag of a
  variable that is set ends the process.  For the metrics settings the flag wins over the variable and
  the variable over the default.
\<close>

theorem settings_precedence:
  assumes "(var, f) \<in> set (stringFlags @ intFlags @ boolFlags)" "env var \<noteq> []"
  shows "(hasKey args f \<longrightarrow> parseFlags vp env args = None) \<and>
    st_metricsBackend (readSettings vp env args) =
      (case Load args ''metrics-backend'' of Some v \<Rightarrow> v | None \<Rightarrow> if env ''METRICS_BACKEND'' \<noteq> [] then env ''METRICS_BACKEND'' else ''prometheus'')"
proof -
  have u: "\<not> flagOk vp env (f, v)" for v
  proof
    assume ok: "flagOk vp env (f, v)"
    have dis: "f \<notin> set (''reportBandwidthTo'' # ''local-overrides'' # metricsStringFlags @ metricsBoolFlags @ durationFlags)"
    proof -
      have "f \<in> set (map snd (stringFlags @ intFlags @ boolFlags))" using assms(1) unfolding set_map by (metis image_eqI snd_conv)
      moreover have "set (map snd (stringFlags @ intFlags @ boolFlags)) \<inter>
          set (''reportBandwidthTo'' # ''local-overrides'' # metricsStringFlags @ metricsBoolFlags @ durationFlags) = {}"
        using flag_names_distinct unfolding distinct_append by (elim conjE)
      ultimately show ?thesis by blast
    qed
    have "f \<in> set (unset env (stringFlags @ intFlags @ boolFlags))"
      using ok dis unfolding flagOk_def unset_def by auto
    then obtain var' where v: "(var', f) \<in> set (stringFlags @ intFlags @ boolFlags)" "env var' = []" unfolding unset_mem by blast
    have "distinct (map snd (stringFlags @ intFlags @ boolFlags))"
      using flag_names_distinct unfolding distinct_append [of "map snd (stringFlags @ intFlags @ boolFlags)"] by (elim conjE)
    then have "var' = var" using inj_onD [of snd "set (stringFlags @ intFlags @ boolFlags)" "(var', f)" "(var, f)"] v(1) assms(1)
      unfolding distinct_map by (metis prod.inject snd_conv)
    then show False using v(2) assms(2) by simp
  qed
  have "parseFlags vp env args = None" if "hasKey args f"
    using u that unfolding parseFlags_def list_all_iff hasKey_iff by force
  then show ?thesis by (simp add: readSettings_def flagStr_def orDefault_def split: option.split)
qed

theorem settings_precedence_witness:
  "parseFlags \<lparr>vp_Int = Atoi, vp_Duration = (\<lambda>_. None)\<rparr> demoEnviron [(''remoteConfig'', ''https://b'')] = None"
proof -
  have "(''REMOTE_CONFIG'', ''remoteConfig'') \<in> set (stringFlags @ intFlags @ boolFlags)" by (simp add: stringFlags_def)
  moreover have "demoEnviron ''REMOTE_CONFIG'' \<noteq> []" by (simp add: demoEnviron_def)
  ultimately show ?thesis
    using settings_precedence [of "''REMOTE_CONFIG''" "''remoteConfig''" demoEnviron "[(''remoteConfig'', ''https://b'')]"] by (simp add: hasKey_def)
qed

lemma demo_settings:
  "st_remoteConfigURL demoSettings = ''https://a/x''" "st_configFile demoSettings = []"
  "st_remoteConfigKey demoSettings = ''key''" "st_mtu demoSettings = ''1280''"
  "st_reachableAt demoSettings = []" "st_listenAddr demoSettings = []" "st_generateAndSaveKeyTo demoSettings = []"
  "st_controlAPIToken demoSettings = ''0123456789abcdef0123456789abcdef''" "st_interfaceName demoSettings = ''wg0''"
  by (simp_all add: demoSettings_def readSettings_def strSetting_def flagStr_def demoEnviron_def)

lemma demo_checks: "startChecks demoStart demoEnviron [] = Inr demoChecks"
proof -
  have mtu: "Atoi ''1280'' = Some 1280" by (simp add: Atoi_def parseUint_def isDigit_def digitVal_def int64_ok_def)
  have url: "trimConfigURL ''https://a/x'' = ''https://a/x''" by (simp add: trimConfigURL_def trimSuffix_def)
  have f: "parseFlags (se_values demoStart) demoEnviron [] = Some demoSettings" by (simp add: parseFlags_def demoSettings_def)
  show ?thesis
    unfolding startChecks_def f
    by (simp add: demo_settings mtu url listenAddress_def orDefault_def signingKeyOf_def parseRemoteConfigSigningKey_def demoChecks_def
        demoStart_def proxy_ValidateRemoteConfigURL_def relay_ValidateRemoteConfigURL_def demoParse_def PublicKeySize_def Let_def)
qed

lemma demo_listener: "openListener demoStart a = Inr [127, 0, 0, 1]"
  by (simp add: openListener_def demoStart_def IsLoopback_def To4_def)

theorem startup_safe_witness:
  "\<exists>pl. startup demoStart demoEnviron [] = Inr pl \<and> (IsLoopback (pl_listenerIP pl) \<or> IsPrivate (pl_listenerIP pl))"
proof -
  obtain pl where pl: "startup demoStart demoEnviron [] = Inr pl"
    by (simp add: startup_def demo_checks demo_listener)
  then show ?thesis using startup_safe [OF pl] by blast
qed

theorem local_overrides_lost_witness:
  "st_localOverridesStr (readSettings \<lparr>vp_Int = Atoi, vp_Duration = (\<lambda>_. None)\<rparr> demoEnviron []) = [] \<and> demoEnviron ''LOCAL_OVERRIDES'' = ''a.example''"
  using local_overrides_lost [of "[]"] by (simp add: demoEnviron_def)

end
