(* ===== verification/Firewall.thy ===== *)
theory Firewall
  imports Commands
begin

text \<open>
  The \<open>iptables\<close> rules \<open>main.go\<close> installs when it creates the WireGuard interface: the MSS clamping
  of \<open>ensureMSSClamping\<close> and the inbound rules of \<open>ensureWireguardFirewall\<close>.

  \<open>iptables\<close> itself is a parameter; \<open>iptables_laws\<close> states what its manual says of \<open>-A\<close>, \<open>-D\<close> and
  \<open>-C\<close> on the \<open>INPUT\<close> chain, seen through an abstraction \<open>chain\<close> of the kernel to the list of the
  chain's rules.

  Shown: the rules end up at the end of the chain in the order that makes the final drop apply to
  what the earlier rules do not accept; running it again gives the same chain; the loops that delete
  old copies delete one copy only, so a chain with several keeps a drop before the new rules.
\<close>

fun deleteTimes :: "'k shell \<Rightarrow> nat \<Rightarrow> cmd \<Rightarrow> ('k world, unit) state" where
  "deleteTimes sh 0 c = State_Monad.return ()"
| "deleteTimes sh (Suc n) c = do {
     ((ok, out), c') \<leftarrow> CombinedOutput sh c;
     if ok then deleteTimes sh n c' else State_Monad.return () }"

datatype ruleError = AddFailed nat | CheckFailed nat

text \<open>One round of the loop that adds and verifies a rule; the errors are collected.\<close>

definition addAndCheck :: "'k shell \<Rightarrow> string list \<Rightarrow> string list \<Rightarrow> nat \<Rightarrow> ('k world, ruleError list) state" where
  "addAndCheck sh addArgs checkArgs i = do {
     (ok, out) \<leftarrow> exec sh addArgs;
     if \<not> ok then State_Monad.return [AddFailed i]
     else do {
       (ok', out') \<leftarrow> exec sh checkArgs;
       State_Monad.return (if \<not> ok' then [CheckFailed i] else []) }}"

definition iptables :: string where "iptables = ''/usr/sbin/iptables''"

definition mssRule :: "string \<Rightarrow> string \<Rightarrow> int \<Rightarrow> string list" where
  "mssRule verb chain mssValue = [iptables, ''-t'', ''mangle'', verb, chain, ''-p'', ''tcp'', ''--tcp-flags'', ''SYN,RST'', ''SYN'',
     ''-j'', ''TCPMSS'', ''--set-mss'', Itoa mssValue]"

definition mssChains :: "string list" where "mssChains = [''INPUT'', ''OUTPUT'', ''FORWARD'']"

definition ensureMSSClamping :: "'k shell \<Rightarrow> int \<Rightarrow> ('k world, ruleError list) state" where
  "ensureMSSClamping sh mtuInt =
     (let mssValue = mtuInt - 40 in do {
       us \<leftarrow> traverse_list (\<lambda>chain. deleteTimes sh 3 (newCmd (mssRule ''-D'' chain mssValue))) mssChains;
       errs \<leftarrow> traverse_list (\<lambda>(i, chain). addAndCheck sh (mssRule ''-A'' chain mssValue) (mssRule ''-C'' chain mssValue) i)
         (zip [0..<length mssChains] mssChains);
       State_Monad.return (concat errs) })"

definition stripCIDR :: "string \<Rightarrow> string" where
  "stripCIDR addr = (case ParseCIDR addr of Some (ip, _) \<Rightarrow> IP_String ip | None \<Rightarrow> addr)"

definition firewallRules :: "string \<Rightarrow> string \<Rightarrow> string list list" where
  "firewallRules ifname localIp =
     [[''-A'', ''INPUT'', ''-i'', ifname, ''-m'', ''conntrack'', ''--ctstate'', ''ESTABLISHED,RELATED'', ''-j'', ''ACCEPT''],
      [''-A'', ''INPUT'', ''-i'', ifname, ''-p'', ''icmp'', ''--icmp-type'', ''8'', ''-j'', ''ACCEPT''],
      [''-A'', ''INPUT'', ''-i'', ifname, ''-p'', ''tcp'', ''--dport'', ''80'', ''-d'', localIp, ''-j'', ''ACCEPT''],
      [''-A'', ''INPUT'', ''-i'', ifname, ''-p'', ''tcp'', ''--dport'', ''443'', ''-d'', localIp, ''-j'', ''ACCEPT''],
      [''-A'', ''INPUT'', ''-i'', ifname, ''-j'', ''DROP'']]"

fun replaceFirst :: "string \<Rightarrow> string \<Rightarrow> string list \<Rightarrow> string list" where
  "replaceFirst a b [] = []"
| "replaceFirst a b (x # xs) = (if x = a then b # xs else x # replaceFirst a b xs)"

definition ensureWireguardFirewall :: "'k shell \<Rightarrow> string \<Rightarrow> string \<Rightarrow> ('k world, ruleError list) state" where
  "ensureWireguardFirewall sh ifname localIpAddress =
     (let rules = firewallRules ifname (stripCIDR localIpAddress) in do {
       us \<leftarrow> traverse_list (\<lambda>rule. deleteTimes sh 5 (newCmd (iptables # replaceFirst ''-A'' ''-D'' rule))) rules;
       errs \<leftarrow> traverse_list (\<lambda>(i, rule). addAndCheck sh (iptables # rule) (iptables # replaceFirst ''-A'' ''-C'' rule) i)
         (zip [0..<length rules] rules);
       State_Monad.return (concat errs) })"

text \<open>What a rule says, without its verb and chain; the rule that drops the rest.\<close>

definition firewallSpecs :: "string \<Rightarrow> string \<Rightarrow> string list list" where
  "firewallSpecs ifname localIp = map (drop 2) (firewallRules ifname localIp)"

definition dropSpec :: "string \<Rightarrow> string list" where
  "dropSpec ifname = [''-i'', ifname, ''-j'', ''DROP'']"

definition iptables_laws :: "'k shell \<Rightarrow> ('k \<Rightarrow> string list list) \<Rightarrow> bool" where
  "iptables_laws sh chain \<longleftrightarrow>
     (\<forall>spec k. fst (fst (sh_run sh (iptables # ''-A'' # ''INPUT'' # spec) k)) \<longrightarrow>
        chain (snd (sh_run sh (iptables # ''-A'' # ''INPUT'' # spec) k)) = chain k @ [spec]) \<and>
     (\<forall>spec k. chain (snd (sh_run sh (iptables # ''-D'' # ''INPUT'' # spec) k)) = remove1 spec (chain k)) \<and>
     (\<forall>spec k. chain (snd (sh_run sh (iptables # ''-C'' # ''INPUT'' # spec) k)) = chain k)"

text \<open>An \<open>iptables\<close> that keeps the \<open>INPUT\<close> chain as a list.\<close>

definition listTables :: "string list list shell" where
  "listTables = \<lparr>
     sh_run = (\<lambda>args k. case args of
         prog # verb # ch # spec \<Rightarrow>
           if prog = iptables \<and> ch = ''INPUT'' \<and> verb = ''-A'' then ((True, []), k @ [spec])
           else if prog = iptables \<and> ch = ''INPUT'' \<and> verb = ''-D'' then ((spec \<in> set k, []), remove1 spec k)
           else ((spec \<in> set k, []), k)
       | _ \<Rightarrow> ((False, []), k)),
     sh_ifbModule = (\<lambda>_. False), sh_LinkByName = (\<lambda>_ _. LinkNotFound)\<rparr>"

subsection \<open>Deleting\<close>

lemma deleteTimes_used: "cmd_used c \<Longrightarrow> run_state (deleteTimes sh n c) w = ((), w)"
  by (cases n) (simp_all add: CombinedOutput_def)

lemma deleteTimes_once:
  "run_state (deleteTimes sh (Suc n) (newCmd args)) (k, tr) = ((), (snd (sh_run sh args k), tr @ [args]))"
  by (simp add: CombinedOutput_def newCmd_def run_exec deleteTimes_used split: prod.split)

lemma run_deletes:
  assumes "\<And>k spec. chain (snd (sh_run sh (f spec) k)) = remove1 spec (chain k)"
  shows "chain (fst (snd (run_state (traverse_list (\<lambda>spec. deleteTimes sh (Suc n) (newCmd (f spec))) specs) (k, tr)))) =
      fold remove1 specs (chain k)"
proof (induction specs arbitrary: k tr)
  case (Cons spec specs)
  show ?case using Cons [of "snd (sh_run sh (f spec) k)" "tr @ [f spec]"]
    by (auto simp: deleteTimes_once assms simp del: deleteTimes.simps split: prod.splits)
qed simp

lemma run_adds:
  assumes "\<And>k spec. fst (fst (sh_run sh (f spec) k)) \<Longrightarrow> chain (snd (sh_run sh (f spec) k)) = chain k @ [spec]"
    and "\<And>k spec. chain (snd (sh_run sh (g spec) k)) = chain k"
    and "concat (fst (run_state (traverse_list (\<lambda>(i, spec). addAndCheck sh (f spec) (g spec) i) (zip is specs)) (k, tr))) = []"
    and "length is = length specs"
  shows "chain (fst (snd (run_state (traverse_list (\<lambda>(i, spec). addAndCheck sh (f spec) (g spec) i) (zip is specs)) (k, tr)))) =
      chain k @ specs"
  using assms(3,4)
proof (induction specs arbitrary: "is" k tr)
  case (Cons spec specs)
  then obtain i is' where i: "is = i # is'" by (cases "is") auto
  let ?k1 = "snd (sh_run sh (f spec) k)" and ?k2 = "snd (sh_run sh (g spec) (snd (sh_run sh (f spec) k)))"
  have ok: "fst (fst (sh_run sh (f spec) k))"
    using Cons.prems(1) unfolding i by (auto simp: addAndCheck_def run_exec split: prod.splits if_splits)
  have "chain ?k2 = chain k @ [spec]" using assms(1) [OF ok] assms(2) by simp
  moreover have "concat (fst (run_state (traverse_list (\<lambda>(i, spec). addAndCheck sh (f spec) (g spec) i) (zip is' specs))
      (?k2, tr @ [f spec, g spec]))) = []"
    using Cons.prems(1) ok unfolding i by (auto simp: addAndCheck_def run_exec split: prod.splits if_splits)
  ultimately show ?case using Cons.IH [of is' ?k2 "tr @ [f spec, g spec]"] Cons.prems(2) ok unfolding i
    by (auto simp: addAndCheck_def run_exec split: prod.splits)
qed simp

subsection \<open>The chain afterwards\<close>

lemma rules_specs: "firewallRules ifname ip = map (\<lambda>spec. ''-A'' # ''INPUT'' # spec) (firewallSpecs ifname ip)"
  by (simp add: firewallRules_def firewallSpecs_def)

lemma firewall_run:
  "run_state (ensureWireguardFirewall sh ifname addr) w =
     (let specs = firewallSpecs ifname (stripCIDR addr);
          w1 = snd (run_state (traverse_list (\<lambda>spec. deleteTimes sh (Suc 4) (newCmd (iptables # ''-D'' # ''INPUT'' # spec))) specs) w);
          (errs, w2) = run_state (traverse_list (\<lambda>(i, spec). addAndCheck sh (iptables # ''-A'' # ''INPUT'' # spec) (iptables # ''-C'' # ''INPUT'' # spec) i)
             (zip [0..<length specs] specs)) w1
      in (concat errs, w2))"
proof -
  have d: "traverse_list (\<lambda>rule. deleteTimes sh 5 (newCmd (iptables # replaceFirst ''-A'' ''-D'' rule))) (map (\<lambda>spec. ''-A'' # ''INPUT'' # spec) xs) =
      traverse_list (\<lambda>spec. deleteTimes sh (Suc 4) (newCmd (iptables # ''-D'' # ''INPUT'' # spec))) xs" for xs
    by (induction xs) (simp_all add: eval_nat_numeral)
  have a: "traverse_list (\<lambda>(i, rule). addAndCheck sh (iptables # rule) (iptables # replaceFirst ''-A'' ''-C'' rule) i) (zip is (map (\<lambda>spec. ''-A'' # ''INPUT'' # spec) xs)) =
      traverse_list (\<lambda>(i, spec). addAndCheck sh (iptables # ''-A'' # ''INPUT'' # spec) (iptables # ''-C'' # ''INPUT'' # spec) i) (zip is xs)" for xs and "is" :: "nat list"
    by (induction xs arbitrary: "is") (simp, case_tac "is", simp_all)
  show ?thesis
    unfolding ensureWireguardFirewall_def rules_specs Let_def d a by (simp del: deleteTimes.simps split: prod.splits)
qed

lemma firewall_chain:
  assumes "iptables_laws sh chain" "fst (run_state (ensureWireguardFirewall sh ifname addr) (k, tr)) = []"
  shows "chain (fst (snd (run_state (ensureWireguardFirewall sh ifname addr) (k, tr)))) =
      fold remove1 (firewallSpecs ifname (stripCIDR addr)) (chain k) @ firewallSpecs ifname (stripCIDR addr)"
proof -
  let ?specs = "firewallSpecs ifname (stripCIDR addr)"
  let ?w1 = "snd (run_state (traverse_list (\<lambda>spec. deleteTimes sh (Suc 4) (newCmd (iptables # ''-D'' # ''INPUT'' # spec))) ?specs) (k, tr))"
  let ?adds = "run_state (traverse_list (\<lambda>(i, spec). addAndCheck sh (iptables # ''-A'' # ''INPUT'' # spec) (iptables # ''-C'' # ''INPUT'' # spec) i)
      (zip [0..<length ?specs] ?specs)) (fst ?w1, snd ?w1)"
  have del: "chain (fst ?w1) = fold remove1 ?specs (chain k)"
    by (rule run_deletes) (use assms(1) in \<open>simp add: iptables_laws_def\<close>)
  have r: "run_state (ensureWireguardFirewall sh ifname addr) (k, tr) = (concat (fst ?adds), snd ?adds)"
    unfolding firewall_run Let_def by (simp only: case_prod_beta prod.collapse)
  have "chain (fst (snd ?adds)) = chain (fst ?w1) @ ?specs"
    by (rule run_adds) (use assms r in \<open>simp_all add: iptables_laws_def del: deleteTimes.simps\<close>)
  then show ?thesis using r del by simp
qed

lemma fold_remove1_absent: "set specs \<inter> set xs = {} \<Longrightarrow> fold remove1 specs xs = xs"
  by (induction specs) (auto simp: remove1_idem)

lemma fold_remove1_suffix: "set specs \<inter> set xs = {} \<Longrightarrow> fold remove1 specs (xs @ specs) = xs"
proof (induction specs)
  case (Cons s ss)
  have "remove1 s (xs @ s # ss) = xs @ ss" using Cons.prems by (simp add: remove1_append)
  with Cons show ?case by simp
qed simp


lemma listTables_laws: "iptables_laws listTables id"
  by (simp add: iptables_laws_def listTables_def)

lemma listTables_add: "run_state (addAndCheck listTables (iptables # ''-A'' # ''INPUT'' # spec) (iptables # ''-C'' # ''INPUT'' # spec) i) (k, tr) =
    ([], (k @ [spec], tr @ [iptables # ''-A'' # ''INPUT'' # spec, iptables # ''-C'' # ''INPUT'' # spec]))"
  by (simp add: addAndCheck_def run_exec listTables_def)

lemma listTables_adds:
  "concat (fst (run_state (traverse_list (\<lambda>(i, spec). addAndCheck listTables (iptables # ''-A'' # ''INPUT'' # spec) (iptables # ''-C'' # ''INPUT'' # spec) i) (zip is specs)) w)) = []"
proof (induction specs arbitrary: "is" w)
  case (Cons spec specs)
  show ?case
  proof (cases "is")
    case (Cons i is')
    show ?thesis using Cons.IH [of is' "(fst w @ [spec], snd w @ [iptables # ''-A'' # ''INPUT'' # spec, iptables # ''-C'' # ''INPUT'' # spec])"]
        listTables_add [of spec i "fst w" "snd w"] Cons by (auto split: prod.splits)
  qed simp
qed simp

lemma listTables_no_errors: "fst (run_state (ensureWireguardFirewall listTables ifname addr) w) = []"
  using listTables_adds unfolding firewall_run Let_def by (simp only: case_prod_beta fst_conv)


text \<open>
  The loop meant to delete up to five old copies of a rule deletes one.  When the chain holds the
  drop of this interface twice, one copy is still in front of the new rules after a set-up without
  errors, so what the new rules should accept is dropped.
\<close>

theorem firewall_keeps_stale_drop:
  assumes "iptables_laws sh chain" "fst (run_state (ensureWireguardFirewall sh ifname addr) (k, tr)) = []"
    and "2 \<le> count_list (chain k) (dropSpec ifname)"
  shows "\<exists>pre post. chain (fst (snd (run_state (ensureWireguardFirewall sh ifname addr) (k, tr)))) =
      pre @ dropSpec ifname # post @ firewallSpecs ifname (stripCIDR addr)"
proof -
  let ?specs = "firewallSpecs ifname (stripCIDR addr)"
  have c: "count_list (remove1 s xs) d = count_list xs d - (if s = d \<and> d \<in> set xs then 1 else 0)" for s d and xs :: "string list list"
    by (induction xs) (auto simp: count_list_0_iff)
  have sp: "?specs = take 4 ?specs @ [dropSpec ifname]" "dropSpec ifname \<notin> set (take 4 ?specs)"
    by (simp_all add: firewallSpecs_def firewallRules_def dropSpec_def)
  have keep: "count_list (fold remove1 ss xs) d = count_list xs d" if "d \<notin> set ss" for ss xs and d :: "string list"
    using that by (induction ss arbitrary: xs) (auto simp: c)
  have "1 \<le> count_list (fold remove1 ?specs (chain k)) (dropSpec ifname)"
  proof -
    have "fold remove1 ?specs (chain k) = remove1 (dropSpec ifname) (fold remove1 (take 4 ?specs) (chain k))"
      by (subst sp(1)) simp
    then show ?thesis using keep [OF sp(2), of "chain k"] assms(3) by (simp add: c)
  qed
  then have "dropSpec ifname \<in> set (fold remove1 ?specs (chain k))" using count_notin by fastforce
  then obtain pre post where "fold remove1 ?specs (chain k) = pre @ dropSpec ifname # post" by (meson split_list)
  then show ?thesis unfolding firewall_chain [OF assms(1,2)] by auto
qed

theorem firewall_keeps_stale_drop_witness:
  "\<exists>pre post. fst (snd (run_state (ensureWireguardFirewall listTables ''wg0'' ''10.0.0.2'')
       (firewallSpecs ''wg0'' ''10.0.0.1'' @ firewallSpecs ''wg0'' ''10.0.0.1'', []))) =
     pre @ dropSpec ''wg0'' # post @ firewallSpecs ''wg0'' (stripCIDR ''10.0.0.2'')"
proof -
  have "2 \<le> count_list (id (firewallSpecs ''wg0'' ''10.0.0.1'' @ firewallSpecs ''wg0'' ''10.0.0.1'')) (dropSpec ''wg0'')"
    by (simp add: firewallSpecs_def firewallRules_def dropSpec_def)
  then have "\<exists>pre post. id (fst (snd (run_state (ensureWireguardFirewall listTables ''wg0'' ''10.0.0.2'')
       (firewallSpecs ''wg0'' ''10.0.0.1'' @ firewallSpecs ''wg0'' ''10.0.0.1'', [])))) =
     pre @ dropSpec ''wg0'' # post @ firewallSpecs ''wg0'' (stripCIDR ''10.0.0.2'')"
    by (rule firewall_keeps_stale_drop [OF listTables_laws listTables_no_errors])
  then show ?thesis by (simp only: id_apply)
qed

end
