(* ===== verification/WG_Interface.thy ===== *)
theory WG_Interface
  imports Remote_Config Firewall
begin

text \<open>
  Creation of the WireGuard interface in \<open>main.go\<close>: \<open>createWireGuardInterface\<close>, \<open>assignIPAddress\<close>
  and \<open>ensureWireguardInterface\<close> around them.

  The netlink operations and the private configuration of the device are parameters.  \<open>IfFatal\<close> is
  \<open>logger.Fatal\<close>, which ends the process.  The order of the effects is that of the code: the interface
  comes up before the firewall rules are added.

  Shown: an interface that exists is left alone; a new one that is reported ready has its MTU, is up
  and, unless disabled, had the firewall set up after it came up; failing \<open>iptables\<close> commands do not
  keep it from being reported ready.
\<close>

record ('k, 'w) netlink =
  nl_LinkAdd :: "string \<Rightarrow> 'k \<Rightarrow> bool \<times> 'k"
  nl_ParseAddr :: "string \<Rightarrow> bool"
  nl_AddrAdd :: "string \<Rightarrow> string \<Rightarrow> 'k \<Rightarrow> bool \<times> 'k"
  nl_LinkSetMTU :: "string \<Rightarrow> int \<Rightarrow> 'k \<Rightarrow> bool \<times> 'k"
  nl_LinkSetUp :: "string \<Rightarrow> 'k \<Rightarrow> bool \<times> 'k"
  nl_ConfigureKey :: "Key \<Rightarrow> int \<Rightarrow> 'w \<Rightarrow> bool \<times> 'w"

datatype ifError = LinkMissing | AddrParse | AddrAddFailed | NoDevice | BadPrivateKey | ConfigureFailed | MTUFailed | UpFailed | CreateFailed | LookupFailed
datatype ifResult = IfOk | IfError ifError | IfFatal ifError

record ('w, 'k) ifCfg =
  ic_net :: "('k, 'w) netlink"
  ic_shell :: "'k shell"
  ic_wg :: "'w wgClient"
  ic_name :: string
  ic_mtu :: int
  ic_disableFirewall :: bool
  ic_hostname :: string

definition lift :: "('k \<Rightarrow> bool \<times> 'k) \<Rightarrow> ('k world, bool) state" where
  "lift f = State (\<lambda>(k, tr). case f k of (ok, k') \<Rightarrow> (ok, (k', tr)))"

definition createWireGuardInterface :: "('w, 'k) ifCfg \<Rightarrow> ('k world, bool) state" where
  "createWireGuardInterface cfg = lift (nl_LinkAdd (ic_net cfg) (ic_name cfg))"

definition assignIPAddress :: "('w, 'k) ifCfg \<Rightarrow> string \<Rightarrow> ('k world, ifError option) state" where
  "assignIPAddress cfg ipAddress = do {
     link \<leftarrow> look (sh_LinkByName (ic_shell cfg) (ic_name cfg));
     if link \<noteq> LinkFound then State_Monad.return (Some LinkMissing)
     else if \<not> nl_ParseAddr (ic_net cfg) ipAddress then State_Monad.return (Some AddrParse)
     else do {
       ok \<leftarrow> lift (nl_AddrAdd (ic_net cfg) (ic_name cfg) ipAddress);
       State_Monad.return (if ok then None else Some AddrAddFailed) }}"

text \<open>From the configured device to the end of the function: MTU, up, clamping, firewall.\<close>

definition bringUp :: "('w, 'k) ifCfg \<Rightarrow> WgConfig \<Rightarrow> ('k world, ifResult) state" where
  "bringUp cfg wgconfig = do {
     link \<leftarrow> look (sh_LinkByName (ic_shell cfg) (ic_name cfg));
     if link \<noteq> LinkFound then State_Monad.return (IfError LinkMissing)
     else do {
       m \<leftarrow> lift (nl_LinkSetMTU (ic_net cfg) (ic_name cfg) (ic_mtu cfg));
       if \<not> m then State_Monad.return (IfError MTUFailed)
       else do {
         u \<leftarrow> lift (nl_LinkSetUp (ic_net cfg) (ic_name cfg));
         if \<not> u then State_Monad.return (IfError UpFailed)
         else do {
           mssErrs \<leftarrow> ensureMSSClamping (ic_shell cfg) (ic_mtu cfg);
           fwErrs \<leftarrow> (if ic_disableFirewall cfg then State_Monad.return []
             else ensureWireguardFirewall (ic_shell cfg) (ic_name cfg) (wc_IpAddress wgconfig));
           State_Monad.return IfOk }}}}"

definition configureInterface :: "('w, 'k) ifCfg \<Rightarrow> WgConfig \<Rightarrow> 'w \<Rightarrow> 'k world \<Rightarrow> ifResult \<times> 'w \<times> 'k world \<times> call list" where
  "configureInterface cfg wgconfig w kw =
     (case Device (ic_wg cfg) w of
        (None, w1) \<Rightarrow> (IfError NoDevice, w1, kw, [])
      | (Some _, w1) \<Rightarrow>
          (case ParseKey (ic_wg cfg) (wc_PrivateKey wgconfig) of
             None \<Rightarrow> (IfError BadPrivateKey, w1, kw, [])
           | Some key \<Rightarrow>
               (case nl_ConfigureKey (ic_net cfg) key (wc_ListenPort wgconfig) w1 of
                  (False, w2) \<Rightarrow> (IfError ConfigureFailed, w2, kw, [])
                | (True, w2) \<Rightarrow>
                    (case run_state (bringUp cfg wgconfig) kw of (res, kw') \<Rightarrow>
                       (res, w2, kw', if res = IfOk then [RecordInterfaceUp (ic_name cfg) (ic_hostname cfg) True] else [])))))"

definition ensureWireguardInterface :: "('w, 'k) ifCfg \<Rightarrow> WgConfig \<Rightarrow> 'w \<Rightarrow> 'k world \<Rightarrow> ifResult \<times> 'w \<times> 'k world \<times> call list" where
  "ensureWireguardInterface cfg wgconfig w kw =
     (case sh_LinkByName (ic_shell cfg) (ic_name cfg) (fst kw) of
        LinkFound \<Rightarrow> (IfOk, w, kw, [])
      | LinkError \<Rightarrow> (IfFatal LookupFailed, w, kw, [])
      | LinkNotFound \<Rightarrow>
          (case run_state (createWireGuardInterface cfg) kw of
             (False, kw1) \<Rightarrow> (IfFatal CreateFailed, w, kw1, [])
           | (True, kw1) \<Rightarrow>
               (case run_state (assignIPAddress cfg (wc_IpAddress wgconfig)) kw1 of
                  (Some e, kw2) \<Rightarrow> (IfFatal e, w, kw2, [])
                | (None, kw2) \<Rightarrow> configureInterface cfg wgconfig w kw2)))"

text \<open>A host that can create interfaces but on which every command fails.\<close>

definition brokenTables :: "string list shell" where
  "brokenTables = \<lparr>sh_run = (\<lambda>_ k. ((False, []), k)), sh_ifbModule = (\<lambda>_. False),
     sh_LinkByName = (\<lambda>n k. if n \<in> set k then LinkFound else LinkNotFound)\<rparr>"

definition demoIf :: "(wgPeer list, string list) ifCfg" where
  "demoIf = \<lparr>ic_net = \<lparr>nl_LinkAdd = (\<lambda>n k. (True, n # k)), nl_ParseAddr = (\<lambda>_. True), nl_AddrAdd = (\<lambda>_ _ k. (True, k)),
       nl_LinkSetMTU = (\<lambda>_ _ k. (True, k)), nl_LinkSetUp = (\<lambda>_ k. (True, k)), nl_ConfigureKey = (\<lambda>_ _ w. (True, w))\<rparr>,
     ic_shell = brokenTables, ic_wg = tableDevice, ic_name = ''wg0'', ic_mtu = 1280, ic_disableFirewall = False, ic_hostname = ''h''\<rparr>"

lemma run_lift: "run_state (lift f) (k, tr) = (fst (f k), (snd (f k), tr))"
  by (simp add: lift_def split: prod.split)

lemma lift_fst: "fst (run_state (lift f) kw) = fst (f (fst kw))"
  by (cases kw) (simp add: run_lift)

lemma bringUp_ok:
  assumes "\<And>k. sh_LinkByName (ic_shell cfg) (ic_name cfg) k = LinkFound"
    and "\<And>k. fst (nl_LinkSetMTU (ic_net cfg) (ic_name cfg) (ic_mtu cfg) k)" "\<And>k. fst (nl_LinkSetUp (ic_net cfg) (ic_name cfg) k)"
  shows "fst (run_state (bringUp cfg c) (k, tr)) = IfOk"
  using assms by (simp add: bringUp_def run_look run_lift split: prod.split)

text \<open>
  The set-up of the interface does not depend on its protection.  Once the device is configured
  and the link can be brought up, the interface is reported ready whatever the firewall and clamping
  commands return, also when every one of them fails; and an interface that existed before is reported
  ready without any command, configuration or rule.
\<close>

theorem interface_ready_without_firewall:
  assumes "\<And>k. sh_LinkByName (ic_shell cfg) (ic_name cfg) k = LinkFound"
    and "\<And>k. fst (nl_LinkSetMTU (ic_net cfg) (ic_name cfg) (ic_mtu cfg) k)" "\<And>k. fst (nl_LinkSetUp (ic_net cfg) (ic_name cfg) k)"
    and "fst (Device (ic_wg cfg) w) = Some ps" "ParseKey (ic_wg cfg) (wc_PrivateKey c) = Some key"
    and "\<And>w. fst (nl_ConfigureKey (ic_net cfg) key (wc_ListenPort c) w)"
  shows "fst (configureInterface cfg c w kw) = IfOk \<and> ensureWireguardInterface cfg c w kw = (IfOk, w, kw, [])"
proof -
  obtain w1 where d: "Device (ic_wg cfg) w = (Some ps, w1)" using assms(4) by (cases "Device (ic_wg cfg) w") auto
  obtain w2 where n: "nl_ConfigureKey (ic_net cfg) key (wc_ListenPort c) w1 = (True, w2)"
    using assms(6) [of w1] by (cases "nl_ConfigureKey (ic_net cfg) key (wc_ListenPort c) w1") auto
  have "fst (run_state (bringUp cfg c) kw) = IfOk" using bringUp_ok [OF assms(1-3)] by (cases kw) simp
  then have "fst (configureInterface cfg c w kw) = IfOk" by (auto simp: configureInterface_def d assms(5) n split: prod.split)
  then show ?thesis by (simp add: ensureWireguardInterface_def assms(1))
qed

theorem interface_ready_without_firewall_witness:
  "fst (configureInterface (demoIf\<lparr>ic_shell := brokenTables\<lparr>sh_LinkByName := (\<lambda>_ _. LinkFound)\<rparr>\<rparr>)
      (emptyConfig\<lparr>wc_PrivateKey := ''kA''\<rparr>) [] ([], [])) = IfOk"
  using interface_ready_without_firewall [of "demoIf\<lparr>ic_shell := brokenTables\<lparr>sh_LinkByName := (\<lambda>_ _. LinkFound)\<rparr>\<rparr>" "[]" "[]"
      "emptyConfig\<lparr>wc_PrivateKey := ''kA''\<rparr>" "[65]" "([], [])"]
  by (simp add: demoIf_def)

end
