(* ===== verification/Relay_Sessions.thy ===== *)
theory Relay_Sessions
  imports Relay_Pool
begin

text \<open>
  Session and communication-pattern tracking of \<open>relay/relay.go\<close>: learning a session from a
  handshake response, \<open>trackCommunicationPattern\<close>, \<open>tryRebuildSession\<close>, \<open>cleanupIdleSessions\<close>,
  \<open>clearSessionsForIP\<close> and \<open>cleanupIdleCommunicationPatterns\<close> (one tick each).

  A session object is a cell of \<open>s_heap\<close>; \<open>wgSessions\<close> and \<open>sessionsByReceiverIndex\<close> hold references,
  so refreshing \<open>LastSeen\<close> through one table is seen through the other.

  \<open>sess_inv\<close> is the invariant: keys are unique, references are valid, the session gauge is the size
  of \<open>wgSessions\<close>, the pattern gauge the size of \<open>commPatterns\<close>, and an index recorded in a pattern
  comes with the time of a packet of that direction.
\<close>

definition GetDestAddr :: "nat \<Rightarrow> server \<Rightarrow> UDPAddr option" where
  "GetDestAddr r s = ws_DestAddr (s_heap s ! r)"

definition GetLastSeen :: "nat \<Rightarrow> server \<Rightarrow> time" where
  "GetLastSeen r s = ws_LastSeen (s_heap s ! r)"

definition UpdateLastSeen :: "env \<Rightarrow> nat \<Rightarrow> server \<Rightarrow> server" where
  "UpdateLastSeen E r s = s\<lparr>s_heap := (s_heap s)[r := (s_heap s ! r)\<lparr>ws_LastSeen := e_now E\<rparr>]\<rparr>"

text \<open>
  A new session object goes into \<open>wgSessions\<close> with \<open>LoadOrStore\<close>, replacing an old one; the gauge
  counts only new keys.
\<close>

definition putSession :: "call list \<Rightarrow> string \<Rightarrow> WireGuardSession \<Rightarrow> server \<Rightarrow> nat \<times> server" where
  "putSession onNew sessionKey session s =
     (let r = length (s_heap s);
          s = s\<lparr>s_heap := s_heap s @ [session]\<rparr>;
          (_, loaded, m) = loadOrStore sessionKey r (s_wgSessions s)
      in (r, if loaded then s\<lparr>s_wgSessions := Store sessionKey r (s_wgSessions s)\<rparr>
             else s\<lparr>s_wgSessions := m, s_mlog := s_mlog s @ onNew\<rparr>))"

definition indexSession :: "u32 \<Rightarrow> nat \<Rightarrow> server \<Rightarrow> server" where
  "indexSession idx r s = s\<lparr>s_sessionsByReceiverIndex := Store idx r (s_sessionsByReceiverIndex s)\<rparr>"

definition learnSession :: "env \<Rightarrow> string \<Rightarrow> u32 \<Rightarrow> u32 \<Rightarrow> UDPAddr \<Rightarrow> server \<Rightarrow> server" where
  "learnSession E sessionKey receiverIndex senderIndex destAddr s =
     (let (r, s) = putSession [RecordSession relayIfname 1] sessionKey
            \<lparr>ws_ReceiverIndex = receiverIndex, ws_SenderIndex = senderIndex,
             ws_DestAddr = Some destAddr, ws_LastSeen = e_now E\<rparr> s
      in indexSession senderIndex r s)"

definition rebuildAllowed :: "CommunicationPattern \<Rightarrow> bool" where
  "rebuildAllowed pattern =
     (if cp_ClientIndex pattern = 0 \<or> cp_DestIndex pattern = 0 \<or> cp_PacketCount pattern < 4 then False
      else
        let timeDiff = timeSub (cp_LastFromClient pattern) (cp_LastFromDest pattern);
            timeDiff = (if timeDiff < 0 then negDuration timeDiff else timeDiff)
        in \<not> 30 * second \<le> timeDiff)"

definition tryRebuildSession :: "env \<Rightarrow> CommunicationPattern \<Rightarrow> server \<Rightarrow> server" where
  "tryRebuildSession E pattern s =
     (if \<not> rebuildAllowed pattern then s
      else
        let sessionKey = fmtPair (cp_DestIndex pattern) (cp_ClientIndex pattern);
            destStr = UDPAddr_String (cp_ToDestination pattern);
            create = (\<lambda>s.
              let (r, s) = putSession [RecordSession relayIfname 1, RecordSessionRebuilt relayIfname] sessionKey
                     \<lparr>ws_ReceiverIndex = cp_DestIndex pattern, ws_SenderIndex = cp_ClientIndex pattern,
                      ws_DestAddr = Some (cp_ToDestination pattern), ws_LastSeen = e_now E\<rparr> s
              in indexSession (cp_ClientIndex pattern) r s)
        in case Load (s_wgSessions s) sessionKey of
             Some r \<Rightarrow>
               (case GetDestAddr r s of
                  Some da \<Rightarrow>
                    if UDPAddr_String da = destStr then
                      (let s = UpdateLastSeen E r s in
                       if Load (s_sessionsByReceiverIndex s) (cp_ClientIndex pattern) = None
                       then indexSession (cp_ClientIndex pattern) r s else s)
                    else create s
                | None \<Rightarrow> create s)
           | None \<Rightarrow> create s)"

definition patternKey :: "UDPAddr \<Rightarrow> UDPAddr \<Rightarrow> string" where
  "patternKey clientAddr destAddr = UDPAddr_String clientAddr @ ''-'' @ UDPAddr_String destAddr"

definition updatePattern :: "env \<Rightarrow> u32 \<Rightarrow> bool \<Rightarrow> CommunicationPattern \<Rightarrow> CommunicationPattern" where
  "updatePattern E receiverIndex fromClient pattern =
     (let pattern = (if fromClient
            then pattern\<lparr>cp_LastFromClient := e_now E,
                   cp_ClientIndex := (if cp_ClientIndex pattern = 0 then receiverIndex else cp_ClientIndex pattern)\<rparr>
            else pattern\<lparr>cp_LastFromDest := e_now E,
                   cp_DestIndex := (if cp_DestIndex pattern = 0 then receiverIndex else cp_DestIndex pattern)\<rparr>)
      in pattern\<lparr>cp_PacketCount := cp_PacketCount pattern + 1\<rparr>)"

definition newPattern :: "env \<Rightarrow> UDPAddr \<Rightarrow> UDPAddr \<Rightarrow> u32 \<Rightarrow> bool \<Rightarrow> CommunicationPattern" where
  "newPattern E clientAddr destAddr receiverIndex fromClient =
     \<lparr>cp_FromClient = clientAddr, cp_ToDestination = destAddr,
      cp_ClientIndex = (if fromClient then receiverIndex else 0),
      cp_DestIndex = (if fromClient then 0 else receiverIndex),
      cp_LastFromClient = (if fromClient then e_now E else zeroTime),
      cp_LastFromDest = (if fromClient then zeroTime else e_now E),
      cp_PacketCount = 1\<rparr>"

definition trackCommunicationPattern :: "env \<Rightarrow> UDPAddr \<Rightarrow> UDPAddr \<Rightarrow> u32 \<Rightarrow> bool \<Rightarrow> server \<Rightarrow> server" where
  "trackCommunicationPattern E fromAddr toAddr receiverIndex fromClient s =
     (let (clientAddr, destAddr) = (if fromClient then (fromAddr, toAddr) else (toAddr, fromAddr));
          key = patternKey clientAddr destAddr
      in case Load (s_commPatterns s) key of
           Some existing \<Rightarrow>
             (let pattern = updatePattern E receiverIndex fromClient existing in
              tryRebuildSession E pattern (s\<lparr>s_commPatterns := Store key pattern (s_commPatterns s)\<rparr>))
         | None \<Rightarrow>
             (let (_, loaded, m) = loadOrStore key (newPattern E clientAddr destAddr receiverIndex fromClient)
                    (s_commPatterns s);
                  s = s\<lparr>s_commPatterns := m\<rparr>
              in if \<not> loaded then rec_metric (RecordCommPattern relayIfname 1) s else s))"

definition sessionIdle :: "env \<Rightarrow> nat \<Rightarrow> server \<Rightarrow> bool" where
  "sessionIdle E r s \<longleftrightarrow> 15 * minute < timeSub (e_now E) (GetLastSeen r s)"

definition cleanupSessionOne :: "env \<Rightarrow> string \<times> nat \<Rightarrow> server \<Rightarrow> server" where
  "cleanupSessionOne E kv s = (let (key, r) = kv in
     if sessionIdle E r s then
       rec_metric (RecordProxyCleanupRemoved relayIfname ''session'' 1)
         (rec_metric (RecordSession relayIfname (-1)) (s\<lparr>s_wgSessions := Delete key (s_wgSessions s)\<rparr>))
     else s)"

definition cleanupIdleSessions :: "env \<Rightarrow> server \<Rightarrow> server" where
  "cleanupIdleSessions E s = rec_metric (RecordProxyIdleCleanupDuration relayIfname ''session'' 0)
     (fold (cleanupSessionOne E) (s_wgSessions s) s)"

definition sessionMatchesIP :: "string \<Rightarrow> server \<Rightarrow> nat \<Rightarrow> bool" where
  "sessionMatchesIP ip s r =
     (case GetDestAddr r s of None \<Rightarrow> False | Some a \<Rightarrow> IP_String (ua_IP a) = ip)"

definition clearSessionsForIP :: "string \<Rightarrow> server \<Rightarrow> server" where
  "clearSessionsForIP ip s =
     (let keysToDelete = map fst (filter (\<lambda>(_, r). sessionMatchesIP ip s r) (s_wgSessions s));
          s = s\<lparr>s_wgSessions := fold Delete keysToDelete (s_wgSessions s)\<rparr>
      in if 0 < length keysToDelete then
           rec_metric (RecordProxyCleanupRemoved relayIfname ''session'' (int (length keysToDelete)))
             (rec_metric (RecordSession relayIfname (- int (length keysToDelete))) s)
         else s)"

definition patternIdle :: "env \<Rightarrow> CommunicationPattern \<Rightarrow> bool" where
  "patternIdle E pattern \<longleftrightarrow>
     (let lastActivity = cp_LastFromClient pattern;
          lastActivity = (if lastActivity < cp_LastFromDest pattern then cp_LastFromDest pattern else lastActivity)
      in 20 * minute < timeSub (e_now E) lastActivity)"

definition cleanupPatternOne :: "env \<Rightarrow> string \<times> CommunicationPattern \<Rightarrow> server \<Rightarrow> server" where
  "cleanupPatternOne E kv s = (let (key, pattern) = kv in
     if patternIdle E pattern then
       rec_metric (RecordProxyCleanupRemoved relayIfname ''comm_pattern'' 1)
         (rec_metric (RecordCommPattern relayIfname (-1)) (s\<lparr>s_commPatterns := Delete key (s_commPatterns s)\<rparr>))
     else s)"

definition cleanupIdleCommunicationPatterns :: "env \<Rightarrow> server \<Rightarrow> server" where
  "cleanupIdleCommunicationPatterns E s =
     rec_metric (RecordProxyIdleCleanupDuration relayIfname ''comm_pattern'' 0)
       (fold (cleanupPatternOne E) (s_commPatterns s) s)"

subsection \<open>The invariant\<close>

definition clock_ok :: "env \<Rightarrow> bool" where
  "clock_ok E \<longleftrightarrow> 0 \<le> e_now E \<and> e_now E \<le> maxDuration"

definition pattern_ok :: "CommunicationPattern \<Rightarrow> bool" where
  "pattern_ok p \<longleftrightarrow> cp_LastFromClient p \<le> maxDuration \<and> cp_LastFromDest p \<le> maxDuration
     \<and> (cp_ClientIndex p \<noteq> 0 \<longrightarrow> 0 \<le> cp_LastFromClient p) \<and> (cp_DestIndex p \<noteq> 0 \<longrightarrow> 0 \<le> cp_LastFromDest p)"

definition sess_inv :: "server \<Rightarrow> bool" where
  "sess_inv s \<longleftrightarrow> wf_map (s_wgSessions s) \<and> wf_map (s_sessionsByReceiverIndex s) \<and> wf_map (s_commPatterns s)
     \<and> (\<forall>(_, r) \<in> set (s_wgSessions s). r < length (s_heap s))
     \<and> (\<forall>(_, r) \<in> set (s_sessionsByReceiverIndex s). r < length (s_heap s))
     \<and> sessGauge s = int (length (s_wgSessions s))
     \<and> pattGauge s = int (length (s_commPatterns s))
     \<and> (\<forall>(_, p) \<in> set (s_commPatterns s). pattern_ok p)"

text \<open>
  \<open>other_eq\<close>: two states agree on everything but the session tables, the patterns and the metric
  calls about them.
\<close>

definition other_eq :: "server \<Rightarrow> server \<Rightarrow> bool" where
  "other_eq t s \<longleftrightarrow> s_connections t = s_connections s \<and> s_connectionCount t = s_connectionCount s
     \<and> s_closed t = s_closed s \<and> s_nextConn t = s_nextConn s \<and> s_out t = s_out s
     \<and> s_responders t = s_responders s \<and> s_proxyMappings t = s_proxyMappings s \<and> s_pool t = s_pool s
     \<and> s_lastEndpointCache t = s_lastEndpointCache s \<and> s_notifyChan t = s_notifyChan s
     \<and> s_addrCache t = s_addrCache s \<and> connGauge t = connGauge s \<and> mapGauge t = mapGauge s
     \<and> s_done t = s_done s \<and> s_packetChanClosed t = s_packetChanClosed s"

lemma sess_inv_cong:
  assumes "sess_inv s" "s_wgSessions t = s_wgSessions s" "s_heap t = s_heap s"
    "s_sessionsByReceiverIndex t = s_sessionsByReceiverIndex s" "s_commPatterns t = s_commPatterns s"
    "sessGauge t = sessGauge s" "pattGauge t = pattGauge s"
  shows "sess_inv t"
  using assms unfolding sess_inv_def by simp

lemma putSession_fields:
  assumes "putSession calls key session s = (r, t)"
  shows "r = length (s_heap s)" "s_heap t = s_heap s @ [session]" "Load (s_wgSessions t) key = Some r"
    "s_sessionsByReceiverIndex t = s_sessionsByReceiverIndex s" "s_commPatterns t = s_commPatterns s"
    "s_wgSessions t = Store key r (s_wgSessions s)"
    "s_mlog t = (if hasKey (s_wgSessions s) key then s_mlog s else s_mlog s @ calls)"
  using assms
  by (auto simp: putSession_def Let_def loadOrStore_def hasKey_def Load_Store split: option.splits)

lemma putSession_inv:
  assumes "sess_inv s" "putSession calls key session s = (r, t)"
    "gauge (SysVar V_activeSessions) calls = 1" "gauge (RelayVar V_commPatternActive) calls = 0"
  shows "sess_inv t"
proof -
  note f = putSession_fields [OF assms(2)]
  have sub: "set (s_wgSessions t) \<subseteq> insert (key, r) (set (s_wgSessions s))"
    unfolding f(6) by (rule set_Store_subset)
  from assms(1) have wg: "\<And>k q. (k, q) \<in> set (s_wgSessions s) \<Longrightarrow> q < length (s_heap s)"
    and ix: "\<And>k q. (k, q) \<in> set (s_sessionsByReceiverIndex s) \<Longrightarrow> q < length (s_heap s)"
    by (auto simp: sess_inv_def)
  have "\<forall>(_, q) \<in> set (s_wgSessions t). q < length (s_heap t)"
    using sub wg by (fastforce simp: f(1,2) less_Suc_eq)
  moreover have "\<forall>(_, q) \<in> set (s_sessionsByReceiverIndex t). q < length (s_heap t)"
    using ix by (fastforce simp: f(2,4) less_Suc_eq)
  moreover have "sessGauge t = int (length (s_wgSessions t))" "pattGauge t = int (length (s_commPatterns t))"
    using assms(1,3,4) by (simp_all add: f(5,6,7) sess_inv_def length_Store)
  ultimately show ?thesis
    using assms(1) unfolding sess_inv_def by (simp add: f(4,5,6))
qed

lemma indexSession_inv:
  assumes "sess_inv s" "r < length (s_heap s)"
  shows "sess_inv (indexSession idx r s)"
  using assms set_Store_subset [of idx r "s_sessionsByReceiverIndex s"]
  unfolding sess_inv_def indexSession_def by auto

lemma UpdateLastSeen_inv: "sess_inv s \<Longrightarrow> sess_inv (UpdateLastSeen E r s)"
  unfolding sess_inv_def UpdateLastSeen_def by simp

lemma put_index_inv:
  assumes "sess_inv s" "gauge (SysVar V_activeSessions) calls = 1" "gauge (RelayVar V_commPatternActive) calls = 0"
  shows "sess_inv (case putSession calls key session s of (r, t) \<Rightarrow> indexSession idx r t)"
proof -
  obtain r t where p: "putSession calls key session s = (r, t)" by force
  from putSession_inv [OF assms(1) p assms(2,3)] putSession_fields(1,2) [OF p] show ?thesis
    by (simp add: p indexSession_inv)
qed

lemma learnSession_inv [inv_rules]: "sess_inv s \<Longrightarrow> sess_inv (learnSession E key ri si a s)"
  unfolding learnSession_def Let_def by (rule put_index_inv) simp_all

lemma refs_valid:
  "sess_inv s \<Longrightarrow> Load (s_wgSessions s) key = Some r \<Longrightarrow> r < length (s_heap s)"
  "sess_inv s \<Longrightarrow> Load (s_sessionsByReceiverIndex s) idx = Some r \<Longrightarrow> r < length (s_heap s)"
  by (auto simp: sess_inv_def dest!: Load_in_set)

lemma tryRebuildSession_inv [inv_rules]: "sess_inv s \<Longrightarrow> sess_inv (tryRebuildSession E p s)"
proof -
  assume inv: "sess_inv s"
  have create: "sess_inv (case putSession [RecordSession relayIfname 1, RecordSessionRebuilt relayIfname] key session s of
      (r, t) \<Rightarrow> indexSession idx r t)" for key session idx
    by (rule put_index_inv [OF inv]) simp_all
  have refresh: "sess_inv (indexSession i r (UpdateLastSeen E r s))"
    if "Load (s_wgSessions s) key = Some r" for i r key
    using refs_valid(1) [OF inv that] UpdateLastSeen_inv [OF inv] by (intro indexSession_inv) (auto simp: UpdateLastSeen_def)
  show ?thesis
    unfolding tryRebuildSession_def Let_def
    using inv create refresh UpdateLastSeen_inv [OF inv] by (auto split: option.split)
qed

lemma pattern_ok_new: "clock_ok E \<Longrightarrow> pattern_ok (newPattern E c d i b)"
  by (auto simp: pattern_ok_def newPattern_def clock_ok_def zeroTime_def maxDuration_def)

lemma pattern_ok_update: "clock_ok E \<Longrightarrow> pattern_ok p \<Longrightarrow> pattern_ok (updatePattern E i b p)"
  by (auto simp: pattern_ok_def updatePattern_def clock_ok_def)

lemma storePattern_inv:
  assumes "sess_inv s" "pattern_ok p" "hasKey (s_commPatterns s) key"
  shows "sess_inv (s\<lparr>s_commPatterns := Store key p (s_commPatterns s)\<rparr>)"
  using assms set_Store_subset [of key p "s_commPatterns s"]
  unfolding sess_inv_def by (auto simp: length_Store)

lemma track_inv [inv_rules]:
  assumes "sess_inv s" "clock_ok E"
  shows "sess_inv (trackCommunicationPattern E a b i c s)"
proof -
  define ca da where "ca = (if c then a else b)" and "da = (if c then b else a)"
  show ?thesis
  proof (cases "Load (s_commPatterns s) (patternKey ca da)")
    case None
    let ?p = "newPattern E ca da i c"
    have "trackCommunicationPattern E a b i c s = rec_metric (RecordCommPattern relayIfname 1)
        (s\<lparr>s_commPatterns := Store (patternKey ca da) ?p (s_commPatterns s)\<rparr>)"
      using None by (auto simp: trackCommunicationPattern_def ca_def da_def loadOrStore_def)
    with None show ?thesis
      using assms pattern_ok_new [OF assms(2), of ca da i c]
        set_Store_subset [of "patternKey ca da" ?p "s_commPatterns s"]
      unfolding sess_inv_def by (auto simp: length_Store hasKey_def)
  next
    case (Some p)
    have "trackCommunicationPattern E a b i c s = tryRebuildSession E (updatePattern E i c p)
        (s\<lparr>s_commPatterns := Store (patternKey ca da) (updatePattern E i c p) (s_commPatterns s)\<rparr>)"
      using Some by (auto simp: trackCommunicationPattern_def ca_def da_def Let_def)
    moreover have "pattern_ok p" using assms(1) Load_in_set [OF Some] by (auto simp: sess_inv_def)
    ultimately show ?thesis
      using Some assms by (auto intro!: tryRebuildSession_inv storePattern_inv pattern_ok_update simp: hasKey_def)
  qed
qed

subsection \<open>What the operations leave alone\<close>

lemma putSession_frame:
  assumes "putSession calls key session s = (r, t)"
  shows "s_connections t = s_connections s" "s_connectionCount t = s_connectionCount s"
    "s_closed t = s_closed s" "s_nextConn t = s_nextConn s" "s_out t = s_out s"
    "s_responders t = s_responders s" "s_proxyMappings t = s_proxyMappings s" "s_pool t = s_pool s"
    "s_lastEndpointCache t = s_lastEndpointCache s" "s_notifyChan t = s_notifyChan s"
    "s_holePunchRateLimiter t = s_holePunchRateLimiter s" "s_io t = s_io s" "s_addrCache t = s_addrCache s"
    "s_done t = s_done s" "s_packetChanClosed t = s_packetChanClosed s"
  using assms by (auto simp: putSession_def Let_def loadOrStore_def split: option.splits)

lemma indexSession_frame [simp]:
  "s_connections (indexSession i r s) = s_connections s" "s_connectionCount (indexSession i r s) = s_connectionCount s"
  "s_closed (indexSession i r s) = s_closed s" "s_nextConn (indexSession i r s) = s_nextConn s"
  "s_out (indexSession i r s) = s_out s" "s_responders (indexSession i r s) = s_responders s"
  "s_proxyMappings (indexSession i r s) = s_proxyMappings s" "s_pool (indexSession i r s) = s_pool s"
  "s_done (indexSession i r s) = s_done s" "s_packetChanClosed (indexSession i r s) = s_packetChanClosed s"
  "s_lastEndpointCache (indexSession i r s) = s_lastEndpointCache s"
  "s_notifyChan (indexSession i r s) = s_notifyChan s" "s_mlog (indexSession i r s) = s_mlog s"
  "s_holePunchRateLimiter (indexSession i r s) = s_holePunchRateLimiter s" "s_io (indexSession i r s) = s_io s"
  "s_addrCache (indexSession i r s) = s_addrCache s"
  "s_wgSessions (indexSession i r s) = s_wgSessions s" "s_heap (indexSession i r s) = s_heap s"
  "s_commPatterns (indexSession i r s) = s_commPatterns s"
  by (simp_all add: indexSession_def)

lemma UpdateLastSeen_frame [simp]:
  "s_connections (UpdateLastSeen E r s) = s_connections s" "s_connectionCount (UpdateLastSeen E r s) = s_connectionCount s"
  "s_closed (UpdateLastSeen E r s) = s_closed s" "s_nextConn (UpdateLastSeen E r s) = s_nextConn s"
  "s_out (UpdateLastSeen E r s) = s_out s" "s_responders (UpdateLastSeen E r s) = s_responders s"
  "s_proxyMappings (UpdateLastSeen E r s) = s_proxyMappings s" "s_pool (UpdateLastSeen E r s) = s_pool s"
  "s_done (UpdateLastSeen E r s) = s_done s" "s_packetChanClosed (UpdateLastSeen E r s) = s_packetChanClosed s"
  "s_lastEndpointCache (UpdateLastSeen E r s) = s_lastEndpointCache s"
  "s_notifyChan (UpdateLastSeen E r s) = s_notifyChan s" "s_mlog (UpdateLastSeen E r s) = s_mlog s"
  "s_holePunchRateLimiter (UpdateLastSeen E r s) = s_holePunchRateLimiter s" "s_io (UpdateLastSeen E r s) = s_io s"
  "s_addrCache (UpdateLastSeen E r s) = s_addrCache s"
  "s_wgSessions (UpdateLastSeen E r s) = s_wgSessions s" "s_commPatterns (UpdateLastSeen E r s) = s_commPatterns s"
  "s_sessionsByReceiverIndex (UpdateLastSeen E r s) = s_sessionsByReceiverIndex s"
  by (simp_all add: UpdateLastSeen_def)

lemma other_eq_trans [trans]: "other_eq a b \<Longrightarrow> other_eq b c \<Longrightarrow> other_eq a c"
  by (simp add: other_eq_def)

lemma other_eq_putIndex:
  assumes "gauge (RelayVar V_relayUDPConnectionsActive) calls = 0" "gauge (RelayVar V_proxyMappingActive) calls = 0"
  shows "other_eq (case putSession calls key session s of (r, t) \<Rightarrow> indexSession idx r t) s"
proof -
  obtain r t where p: "putSession calls key session s = (r, t)" by force
  show ?thesis using assms by (simp add: p other_eq_def putSession_frame [OF p] putSession_fields [OF p])
qed

lemma learnSession_other: "other_eq (learnSession E key ri si a s) s"
  unfolding learnSession_def Let_def by (rule other_eq_putIndex) simp_all

lemma tryRebuildSession_other: "other_eq (tryRebuildSession E p s) s"
  unfolding tryRebuildSession_def Let_def
  by (auto split: option.split intro!: other_eq_putIndex) (simp_all add: other_eq_def)

lemma track_other: "other_eq (trackCommunicationPattern E a b i c s) s"
proof -
  have "other_eq (tryRebuildSession E p (s\<lparr>s_commPatterns := m\<rparr>)) s" for p m
    using tryRebuildSession_other [of E p "s\<lparr>s_commPatterns := m\<rparr>"] by (simp add: other_eq_def)
  then show ?thesis
    by (auto simp: trackCommunicationPattern_def Let_def loadOrStore_def split: option.split prod.split)
      (simp_all add: other_eq_def)
qed

lemma rebuild_patterns [simp]: "s_commPatterns (tryRebuildSession E p s) = s_commPatterns s"
  unfolding tryRebuildSession_def Let_def
  by (auto split: option.split prod.split dest: putSession_fields(5))

subsection \<open>Clean-up\<close>

interpretation sess_clean: table_cleanup s_wgSessions "cleanupSessionOne E" "\<lambda>s r. sessionIdle E r s"
    sessGauge "\<lambda>t s. other_eq t s \<and> s_heap t = s_heap s \<and> s_commPatterns t = s_commPatterns s
      \<and> s_sessionsByReceiverIndex t = s_sessionsByReceiverIndex s \<and> pattGauge t = pattGauge s" for E
  by unfold_locales
    (auto simp: cleanupSessionOne_def sessionIdle_def GetLastSeen_def other_eq_def fun_eq_iff split: if_splits)

interpretation patt_clean: table_cleanup s_commPatterns "cleanupPatternOne E" "\<lambda>s p. patternIdle E p"
    pattGauge "\<lambda>t s. other_eq t s \<and> s_heap t = s_heap s \<and> s_wgSessions t = s_wgSessions s
      \<and> s_sessionsByReceiverIndex t = s_sessionsByReceiverIndex s \<and> sessGauge t = sessGauge s" for E
  by unfold_locales (auto simp: cleanupPatternOne_def other_eq_def fun_eq_iff split: if_splits)

lemma cleanupIdleSessions_tables:
  assumes "wf_map (s_wgSessions s)"
  shows "s_wgSessions (cleanupIdleSessions E s) = filter (\<lambda>(_, r). \<not> sessionIdle E r s) (s_wgSessions s)"
    "s_sessionsByReceiverIndex (cleanupIdleSessions E s) = s_sessionsByReceiverIndex s"
    "s_heap (cleanupIdleSessions E s) = s_heap s" "other_eq (cleanupIdleSessions E s) s"
    "s_commPatterns (cleanupIdleSessions E s) = s_commPatterns s" "pattGauge (cleanupIdleSessions E s) = pattGauge s"
    "sessGauge (cleanupIdleSessions E s) - int (length (s_wgSessions (cleanupIdleSessions E s)))
       = sessGauge s - int (length (s_wgSessions s))"
  using sess_clean.pass_table [OF assms, of E] sess_clean.pass_frame [of E "s_wgSessions s" s]
    sess_clean.pass_meter [OF assms, of E]
  by (simp_all add: cleanupIdleSessions_def other_eq_def)

lemma cleanupIdleSessions_inv [inv_rules]:
  assumes "sess_inv s"
  shows "sess_inv (cleanupIdleSessions E s)"
proof -
  from assms have wf: "wf_map (s_wgSessions s)" by (simp add: sess_inv_def)
  note tab = cleanupIdleSessions_tables [OF wf, of E]
  from assms tab(7) have "sessGauge (cleanupIdleSessions E s) = int (length (s_wgSessions (cleanupIdleSessions E s)))"
    by (simp add: sess_inv_def)
  then show ?thesis using assms wf by (auto simp: sess_inv_def tab(1-3,5,6))
qed

lemma cleanupPatterns_tables:
  assumes "wf_map (s_commPatterns s)"
  shows "s_commPatterns (cleanupIdleCommunicationPatterns E s) = filter (\<lambda>(_, p). \<not> patternIdle E p) (s_commPatterns s)"
    "s_sessionsByReceiverIndex (cleanupIdleCommunicationPatterns E s) = s_sessionsByReceiverIndex s"
    "s_heap (cleanupIdleCommunicationPatterns E s) = s_heap s" "other_eq (cleanupIdleCommunicationPatterns E s) s"
    "s_wgSessions (cleanupIdleCommunicationPatterns E s) = s_wgSessions s"
    "sessGauge (cleanupIdleCommunicationPatterns E s) = sessGauge s"
    "pattGauge (cleanupIdleCommunicationPatterns E s) - int (length (s_commPatterns (cleanupIdleCommunicationPatterns E s)))
       = pattGauge s - int (length (s_commPatterns s))"
  using patt_clean.pass_table [OF assms, of E] patt_clean.pass_frame [of E "s_commPatterns s" s]
    patt_clean.pass_meter [OF assms, of E]
  by (simp_all add: cleanupIdleCommunicationPatterns_def other_eq_def)

lemma cleanupPatterns_inv [inv_rules]:
  assumes "sess_inv s"
  shows "sess_inv (cleanupIdleCommunicationPatterns E s)"
proof -
  from assms have wf: "wf_map (s_commPatterns s)" by (simp add: sess_inv_def)
  note tab = cleanupPatterns_tables [OF wf, of E]
  from assms tab(7) have "pattGauge (cleanupIdleCommunicationPatterns E s)
      = int (length (s_commPatterns (cleanupIdleCommunicationPatterns E s)))"
    by (simp add: sess_inv_def)
  then show ?thesis using assms wf by (auto simp: sess_inv_def tab(1-3,5,6))
qed

lemma clearSessionsForIP_tables:
  assumes "wf_map (s_wgSessions s)"
  shows "s_wgSessions (clearSessionsForIP ip s) = filter (\<lambda>(_, r). \<not> sessionMatchesIP ip s r) (s_wgSessions s)"
    "s_sessionsByReceiverIndex (clearSessionsForIP ip s) = s_sessionsByReceiverIndex s"
    "s_heap (clearSessionsForIP ip s) = s_heap s" "s_commPatterns (clearSessionsForIP ip s) = s_commPatterns s"
    "other_eq (clearSessionsForIP ip s) s" "pattGauge (clearSessionsForIP ip s) = pattGauge s"
    "sessGauge (clearSessionsForIP ip s) = sessGauge s - int (length (filter (\<lambda>(_, r). sessionMatchesIP ip s r) (s_wgSessions s)))"
  using fold_Delete_filter_keys [OF assms, of "sessionMatchesIP ip s"]
  by (auto simp: clearSessionsForIP_def Let_def other_eq_def)

lemma clearSessionsForIP_inv [inv_rules]:
  assumes "sess_inv s"
  shows "sess_inv (clearSessionsForIP ip s)"
proof -
  from assms have wf: "wf_map (s_wgSessions s)" by (simp add: sess_inv_def)
  note tab = clearSessionsForIP_tables [OF wf, of ip]
  have "sessGauge (clearSessionsForIP ip s) = int (length (s_wgSessions (clearSessionsForIP ip s)))"
    using assms length_filter_pairs [of "s_wgSessions s" "\<lambda>_ r. sessionMatchesIP ip s r"]
    by (simp add: tab(1,7) sess_inv_def)
  then show ?thesis using assms wf by (auto simp: sess_inv_def tab(1-4,6))
qed

subsection \<open>Rebuilding a session\<close>

lemma rebuild_result:
  assumes "sess_inv s" "rebuildAllowed p"
  shows "\<exists>r a. Load (s_wgSessions (tryRebuildSession E p s)) (fmtPair (cp_DestIndex p) (cp_ClientIndex p)) = Some r
     \<and> r < length (s_heap (tryRebuildSession E p s))
     \<and> GetDestAddr r (tryRebuildSession E p s) = Some a \<and> UDPAddr_String a = UDPAddr_String (cp_ToDestination p)
     \<and> GetLastSeen r (tryRebuildSession E p s) = e_now E
     \<and> Load (s_sessionsByReceiverIndex (tryRebuildSession E p s)) (cp_ClientIndex p) \<noteq> None"
proof -
  let ?key = "fmtPair (cp_DestIndex p) (cp_ClientIndex p)"
  let ?sess = "\<lparr>ws_ReceiverIndex = cp_DestIndex p, ws_SenderIndex = cp_ClientIndex p,
     ws_DestAddr = Some (cp_ToDestination p), ws_LastSeen = e_now E\<rparr>"
  obtain q u where p: "putSession [RecordSession relayIfname 1, RecordSessionRebuilt relayIfname] ?key ?sess s = (q, u)"
    by force
  note f = putSession_fields [OF p]
  let ?t = "tryRebuildSession E p s"
  have fresh: ?thesis if "?t = indexSession (cp_ClientIndex p) q u"
    using f unfolding that
    by (intro exI [of _ q] exI [of _ "cp_ToDestination p"])
      (simp add: GetDestAddr_def GetLastSeen_def indexSession_def Load_Store)
  consider (new) "?t = indexSession (cp_ClientIndex p) q u"
    | (old) r a where "Load (s_wgSessions s) ?key = Some r" "GetDestAddr r s = Some a"
        "UDPAddr_String a = UDPAddr_String (cp_ToDestination p)"
        "?t = (if Load (s_sessionsByReceiverIndex s) (cp_ClientIndex p) = None
               then indexSession (cp_ClientIndex p) r (UpdateLastSeen E r s) else UpdateLastSeen E r s)"
    using assms(2) p by (fastforce simp: tryRebuildSession_def Let_def split: option.splits if_splits)
  then show ?thesis
  proof cases
    case new
    then show ?thesis by (rule fresh)
  next
    case (old r a)
    from refs_valid(1) [OF assms(1) old(1)] have r: "r < length (s_heap s)" .
    show ?thesis unfolding old(4)
      using r old(1-3) by (intro exI [of _ r] exI [of _ a])
        (simp add: GetDestAddr_def GetLastSeen_def indexSession_def UpdateLastSeen_def Load_Store)
  qed
qed

lemma track_first:
  assumes "Load (s_commPatterns s) (patternKey c d) = None"
  shows "Load (s_commPatterns (trackCommunicationPattern E c d i True s)) (patternKey c d)
    = Some (newPattern E c d i True)"
  using assms by (simp add: trackCommunicationPattern_def loadOrStore_def Load_Store)

lemma track_next:
  assumes "Load (s_commPatterns s) (patternKey c d) = Some p"
  shows "Load (s_commPatterns (trackCommunicationPattern E c d i True s)) (patternKey c d) = Some (updatePattern E i True p)"
    "Load (s_commPatterns (trackCommunicationPattern E d c i False s)) (patternKey c d) = Some (updatePattern E i False p)"
  using assms by (simp_all add: trackCommunicationPattern_def Let_def Load_Store)

subsection \<open>Properties\<close>

text \<open>
  For a pattern whose recorded indices come from observed packets, a rebuild is allowed exactly
  when both indices are known, at least four packets were seen and the last packets of the two
  directions are less than 30 seconds apart (the saturating subtraction and the wrapping negation
  of \<open>time.Duration\<close> change nothing).
\<close>

theorem rebuildAllowed_iff:
  assumes "pattern_ok p"
  shows "rebuildAllowed p \<longleftrightarrow> cp_ClientIndex p \<noteq> 0 \<and> cp_DestIndex p \<noteq> 0 \<and> 4 \<le> cp_PacketCount p
    \<and> \<bar>cp_LastFromClient p - cp_LastFromDest p\<bar> < 30 * second"
proof (cases "cp_ClientIndex p \<noteq> 0 \<and> cp_DestIndex p \<noteq> 0")
  case True
  let ?d = "cp_LastFromClient p - cp_LastFromDest p"
  from True assms have "- maxDuration \<le> ?d" "?d \<le> maxDuration" by (auto simp: pattern_ok_def)
  then have "timeSub (cp_LastFromClient p) (cp_LastFromDest p) = ?d" "?d \<noteq> minDuration"
    by (auto simp: timeSub_def minDuration_def maxDuration_def)
  then have "(if timeSub (cp_LastFromClient p) (cp_LastFromDest p) < 0
      then negDuration (timeSub (cp_LastFromClient p) (cp_LastFromDest p))
      else timeSub (cp_LastFromClient p) (cp_LastFromDest p)) = \<bar>?d\<bar>"
    by (auto simp: negDuration_def)
  with True show ?thesis by (auto simp: rebuildAllowed_def Let_def)
qed (auto simp: rebuildAllowed_def)


text \<open>
  Clearing the sessions of an address removes from the session table exactly the sessions whose
  destination prints as that address and lowers the exported session gauge accordingly, but leaves
  the receiver index as it is: the fast path still finds the cleared sessions.
\<close>

theorem clearSessionsForIP_exact:
  assumes "sess_inv s"
  shows "s_wgSessions (clearSessionsForIP ip s) = filter (\<lambda>(_, r). \<not> sessionMatchesIP ip s r) (s_wgSessions s)
    \<and> sessGauge (clearSessionsForIP ip s) = int (length (s_wgSessions (clearSessionsForIP ip s)))
    \<and> s_sessionsByReceiverIndex (clearSessionsForIP ip s) = s_sessionsByReceiverIndex s
    \<and> s_heap (clearSessionsForIP ip s) = s_heap s"
proof -
  from assms have "wf_map (s_wgSessions s)" by (simp add: sess_inv_def)
  with clearSessionsForIP_inv [OF assms, of ip] show ?thesis
    by (simp add: clearSessionsForIP_tables(1-3)) (simp add: sess_inv_def clearSessionsForIP_tables(1))
qed

subsection \<open>Witnesses\<close>

lemma wServer_sess: "sess_inv wServer"
  by (simp add: sess_inv_def wServer_def newServer_def)

theorem rebuildAllowed_iff_witness:
  "rebuildAllowed \<lparr>cp_FromClient = wAddr 9, cp_ToDestination = wAddr 1, cp_ClientIndex = 7, cp_DestIndex = 8,
     cp_LastFromClient = 100 * second, cp_LastFromDest = 129 * second, cp_PacketCount = 4\<rparr>"
  using rebuildAllowed_iff [of "\<lparr>cp_FromClient = wAddr 9, cp_ToDestination = wAddr 1, cp_ClientIndex = 7, cp_DestIndex = 8,
     cp_LastFromClient = 100 * second, cp_LastFromDest = 129 * second, cp_PacketCount = 4\<rparr>"]
  by (simp add: pattern_ok_def maxDuration_def)


theorem clearSessionsForIP_exact_witness:
  "s_wgSessions (clearSessionsForIP ''10.0.0.1'' (learnSession (wEnv 0) ''7:8'' 7 8 (wAddr 1) wServer)) = []
   \<and> s_sessionsByReceiverIndex (clearSessionsForIP ''10.0.0.1'' (learnSession (wEnv 0) ''7:8'' 7 8 (wAddr 1) wServer)) = [(8, 0)]"
  using clearSessionsForIP_exact [OF learnSession_inv [OF wServer_sess, of "wEnv 0" "''7:8''" 7 8 "wAddr 1"], of "''10.0.0.1''"]
  by (simp add: learnSession_def putSession_def indexSession_def wServer_def newServer_def loadOrStore_def
      sessionMatchesIP_def GetDestAddr_def wAddr_def IP_String_def To4_def ip4String_def itoaNat.simps)

end
