(* ===== verification/Relay_Forward.thy ===== *)
theory Relay_Forward
  imports Relay_Sessions
begin

text \<open>
  Forwarding in \<open>relay/relay.go\<close>: \<open>handleWireGuardPacket\<close> (client to peers) and one round of
  \<open>handleResponses\<close> (peer to client).

  The four forwarding loops of \<open>handleWireGuardPacket\<close> differ only in whether they track the
  communication pattern, so they share \<open>forwardDest\<close> with the index to track as an option.

  Shown: a packet from an address without mapping, and every cookie reply, changes nothing; every
  datagram sent goes to an address of the sender's mapping or to the peer the receiver index
  belongs to; a handshake response fixes the peer that later transport packets with its index
  go to, also after the session was cleared.
\<close>

definition connWrite :: "env \<Rightarrow> UDPConn \<Rightarrow> bytes \<Rightarrow> server \<Rightarrow> bool \<times> server" where
  "connWrite E conn packet s =
     (if uc_id conn \<notin> set (s_closed s) \<and> e_write E (s_io s)
      then (True, (tick s)\<lparr>s_out := s_out s @ [ToPeer conn packet]\<rparr>)
      else (False, tick s))"

definition writeOut :: "env \<Rightarrow> UDPConn \<Rightarrow> bytes \<Rightarrow> server \<Rightarrow> server" where
  "writeOut E conn packet s =
     (let (ok, s) = connWrite E conn packet s in
      if \<not> ok then rec_metric (RecordProxyConnectionError relayIfname ''write_udp'') s
      else rec_metric (RecordUDPPacketSize relayIfname ''wireguard'' (of_nat (length packet)))
             (rec_metric (RecordUDPPacket relayIfname ''wireguard'' ''out'') s))"

definition trackOpt :: "env \<Rightarrow> UDPAddr \<Rightarrow> UDPAddr \<Rightarrow> u32 option \<Rightarrow> server \<Rightarrow> server" where
  "trackOpt E remoteAddr destAddr track s =
     (case track of None \<Rightarrow> s | Some receiverIndex \<Rightarrow> trackCommunicationPattern E remoteAddr destAddr receiverIndex True s)"

definition sendVia :: "env \<Rightarrow> bytes \<Rightarrow> UDPAddr \<Rightarrow> u32 option \<Rightarrow> UDPAddr \<Rightarrow> server \<Rightarrow> server" where
  "sendVia E packet remoteAddr track destAddr s =
     (case getOrCreateConnection E destAddr remoteAddr s of
        (None, s) \<Rightarrow> s
      | (Some conn, s) \<Rightarrow> writeOut E conn packet (trackOpt E remoteAddr destAddr track s))"

definition forwardDest :: "env \<Rightarrow> bytes \<Rightarrow> UDPAddr \<Rightarrow> u32 option \<Rightarrow> PeerDestination \<Rightarrow> server \<Rightarrow> server" where
  "forwardDest E packet remoteAddr track dest s =
     (case getCachedAddr E (DestinationIP dest) (DestinationPort dest) s of
        (None, s) \<Rightarrow> s
      | (Some destAddr, s) \<Rightarrow> sendVia E packet remoteAddr track destAddr s)"

definition handleWireGuardPacket :: "env \<Rightarrow> bytes \<Rightarrow> UDPAddr \<Rightarrow> server \<Rightarrow> server" where
  "handleWireGuardPacket E packet remoteAddr s =
     (if packet = [] then s
      else
        let messageType = packet ! 0; (receiverIndex, senderIndex, ok) = extractWireGuardIndices packet in
        if \<not> ok then s
        else
          let key = UDPAddr_String remoteAddr in
          case Load (s_proxyMappings s) key of
            None \<Rightarrow> s
          | Some proxyMapping \<Rightarrow>
              let proxyMapping = proxyMapping\<lparr>pm_LastUsed := e_now E\<rparr>;
                  s = s\<lparr>s_proxyMappings := Store key proxyMapping (s_proxyMappings s)\<rparr>;
                  dests = pm_Destinations proxyMapping
              in
              if messageType = WireGuardMessageTypeHandshakeInitiation then
                fold (forwardDest E packet remoteAddr None) dests s
              else if messageType = WireGuardMessageTypeHandshakeResponse then
                let sessionKey = fmtPair receiverIndex senderIndex;
                    s = learnSession E sessionKey receiverIndex senderIndex remoteAddr s
                in fold (forwardDest E packet remoteAddr None) dests s
              else if messageType = WireGuardMessageTypeTransportData then
                let (destAddr, s) =
                      (case Load (s_sessionsByReceiverIndex s) receiverIndex of
                         Some r \<Rightarrow> (GetDestAddr r s, UpdateLastSeen E r s)
                       | None \<Rightarrow> (None, s))
                in (case destAddr of
                      Some a \<Rightarrow> sendVia E packet remoteAddr (Some receiverIndex) a s
                    | None \<Rightarrow> fold (forwardDest E packet remoteAddr (Some receiverIndex)) dests s)
              else fold (forwardDest E packet remoteAddr None) dests s)"

text \<open>The session tracking in the middle of \<open>handleResponses\<close>.\<close>

definition trackResponse :: "env \<Rightarrow> responder \<Rightarrow> bytes \<Rightarrow> server \<Rightarrow> server" where
  "trackResponse E g buffer s =
     (if 0 < length buffer \<and> 1 \<le> buffer ! 0 \<and> buffer ! 0 \<le> 4 then
        let (receiverIndex, senderIndex, ok) = extractWireGuardIndices buffer in
        if ok \<and> buffer ! 0 = WireGuardMessageTypeHandshakeResponse then
          learnSession E (fmtPair senderIndex receiverIndex) receiverIndex senderIndex (r_destAddr g) s
        else if ok \<and> buffer ! 0 = WireGuardMessageTypeTransportData then
          trackCommunicationPattern E (r_destAddr g) (r_remoteAddr g) receiverIndex False s
        else s
      else s)"

text \<open>
  One round of \<open>handleResponses\<close>: \<open>input\<close> is what the socket read returned, \<open>None\<close> for an error,
  which ends the goroutine.
\<close>

definition handleResponses :: "env \<Rightarrow> responder \<Rightarrow> bytes option \<Rightarrow> server \<Rightarrow> server" where
  "handleResponses E g input s =
     (case input of
        None \<Rightarrow> s\<lparr>s_responders := remove1 g (s_responders s)\<rparr>
      | Some buffer \<Rightarrow>
          let s = rec_metric (RecordUDPPacketSize relayIfname ''wireguard'' (of_nat (length buffer)))
                    (rec_metric (RecordUDPPacket relayIfname ''wireguard'' ''in'') s);
              s = trackResponse E g buffer s
          in if \<not> e_write E (s_io s)
             then rec_metric (RecordProxyConnectionError relayIfname ''write_udp'') (tick s)
             else rec_metric (RecordUDPPacketSize relayIfname ''wireguard'' (of_nat (length buffer)))
                    (rec_metric (RecordUDPPacket relayIfname ''wireguard'' ''out'')
                      ((tick s)\<lparr>s_out := s_out s @ [ToClient (r_remoteAddr g) buffer]\<rparr>)))"

subsection \<open>Invariants and frames\<close>

text \<open>
  The state splits into three parts that different operations own; \<open>s_out\<close> is what is sent.
\<close>

definition pool_part :: "server \<Rightarrow> (string, DestinationConn) gomap \<times> int \<times> nat list \<times> nat \<times> responder list \<times> int" where
  "pool_part s = (s_connections s, s_connectionCount s, s_closed s, s_nextConn s, s_responders s, connGauge s)"

definition sess_part :: "server \<Rightarrow> (string, nat) gomap \<times> (u32, nat) gomap \<times> WireGuardSession list
     \<times> (string, CommunicationPattern) gomap \<times> int \<times> int" where
  "sess_part s = (s_wgSessions s, s_sessionsByReceiverIndex s, s_heap s, s_commPatterns s, sessGauge s, pattGauge s)"

definition map_part :: "server \<Rightarrow> (string, ProxyMapping) gomap \<times> int" where
  "map_part s = (s_proxyMappings s, mapGauge s)"

definition rest_part :: "server \<Rightarrow> endpointCache \<times> ClientEndpoint list \<times> nat list \<times> bool \<times> bool" where
  "rest_part s = (s_lastEndpointCache s, s_notifyChan s, s_pool s, s_done s, s_packetChanClosed s)"

definition pool_ok :: "server \<Rightarrow> bool" where
  "pool_ok s \<longleftrightarrow> sockets_ok s \<and> s_connectionCount s \<le> int (length (s_connections s))
     \<and> connGauge s = int (length (s_connections s))"

definition plain :: "UDPAddr \<Rightarrow> bool" where
  "plain a \<longleftrightarrow> CHR ''-'' \<notin> set (UDPAddr_String a)"

definition routes_ok :: "server \<Rightarrow> bool" where
  "routes_ok s \<longleftrightarrow> (\<forall>(k, dc) \<in> set (s_connections s).
     \<exists>r. k = connKey (uc_dest (dc_conn dc)) r \<and> plain (uc_dest (dc_conn dc)))"

definition mayResolve :: "env \<Rightarrow> server \<Rightarrow> string \<Rightarrow> UDPAddr \<Rightarrow> bool" where
  "mayResolve E s key a \<longleftrightarrow> (\<exists>c. Load (s_addrCache s) key = Some c \<and> ca_addr c = a)
     \<or> (\<exists>n. e_resolve E n key = Some a)"

definition addrs_ok :: "server \<Rightarrow> bool" where
  "addrs_ok s \<longleftrightarrow> (\<forall>(_, c) \<in> set (s_addrCache s). plain (ca_addr c))
     \<and> (\<forall>w \<in> set (s_heap s). \<forall>a. ws_DestAddr w = Some a \<longrightarrow> plain a)
     \<and> (\<forall>(_, p) \<in> set (s_commPatterns s). plain (cp_ToDestination p))
     \<and> (\<forall>g \<in> set (s_responders s). plain (r_destAddr g) \<and> plain (r_remoteAddr g))"

definition relay_ok :: "server \<Rightarrow> bool" where
  "relay_ok s \<longleftrightarrow> sess_inv s \<and> pool_ok s \<and> routes_ok s \<and> addrs_ok s"

text \<open>
  What the handlers may assume of the outside: the clock is after 1970 (and before 2262), the cap is
  positive (\<open>loadMaxUDPConnections\<close> guarantees it) and resolved addresses print without a dash, as
  all addresses without a zone do.
\<close>

definition env_ok :: "env \<Rightarrow> bool" where
  "env_ok E \<longleftrightarrow> clock_ok E \<and> 0 < e_maxUDP E \<and> (\<forall>n key a. e_resolve E n key = Some a \<longrightarrow> plain a)"

text \<open>
  \<open>fwd_post\<close> is what forwarding one packet to one address may do: keep the invariant and the tables
  of others, resolve nothing new, and send the packet at most once, to an allowed address.
\<close>

definition fwd_post :: "env \<Rightarrow> bytes \<Rightarrow> string set \<Rightarrow> nat \<Rightarrow> server \<Rightarrow> server \<Rightarrow> bool" where
  "fwd_post E packet allowed n s t \<longleftrightarrow> relay_ok t \<and> map_part t = map_part s \<and> rest_part t = rest_part s
     \<and> (\<forall>k a. mayResolve E t k a \<longrightarrow> mayResolve E s k a)
     \<and> (\<exists>sent. s_out t = s_out s @ sent \<and> length sent \<le> n
          \<and> (\<forall>x \<in> set sent. \<exists>c. x = ToPeer c packet \<and> UDPAddr_String (uc_dest c) \<in> allowed))"

definition destAddrs :: "env \<Rightarrow> server \<Rightarrow> PeerDestination list \<Rightarrow> string set" where
  "destAddrs E s dests = {UDPAddr_String a | a d. d \<in> set dests
     \<and> mayResolve E s (fmtHostPort (DestinationIP d) (DestinationPort d)) a}"

text \<open>
  The addresses a WireGuard packet may be sent to: the peer its receiver index belongs to if it is
  transport data with a known index, else the destinations of the sender's mapping.
\<close>

definition wg_allowed :: "env \<Rightarrow> bytes \<Rightarrow> UDPAddr \<Rightarrow> server \<Rightarrow> string set" where
  "wg_allowed E packet remote s =
     (case Load (s_proxyMappings s) (UDPAddr_String remote) of
        None \<Rightarrow> {}
      | Some m \<Rightarrow>
          (case (if packet \<noteq> [] \<and> packet ! 0 = WireGuardMessageTypeTransportData
                 then Load (s_sessionsByReceiverIndex s) (fst (extractWireGuardIndices packet)) else None) of
             None \<Rightarrow> destAddrs E s (pm_Destinations m)
           | Some r \<Rightarrow> (case GetDestAddr r s of
               None \<Rightarrow> destAddrs E s (pm_Destinations m) | Some a \<Rightarrow> {UDPAddr_String a})))"

definition wg_post :: "env \<Rightarrow> bytes \<Rightarrow> UDPAddr \<Rightarrow> server \<Rightarrow> server \<Rightarrow> bool" where
  "wg_post E packet remote s t \<longleftrightarrow> relay_ok t \<and> rest_part t = rest_part s
     \<and> map fst (s_proxyMappings t) = map fst (s_proxyMappings s) \<and> mapGauge t = mapGauge s
     \<and> (\<exists>sent. s_out t = s_out s @ sent
          \<and> (\<forall>x \<in> set sent. \<exists>c. x = ToPeer c packet \<and> UDPAddr_String (uc_dest c) \<in> wg_allowed E packet remote s))"

text \<open>\<open>mapped s s2\<close>: \<open>s2\<close> is \<open>s\<close> with the mapping of the sender refreshed and session state updated.\<close>

definition mapped :: "UDPAddr \<Rightarrow> server \<Rightarrow> server \<Rightarrow> bool" where
  "mapped remote s s2 \<longleftrightarrow> relay_ok s2 \<and> s_addrCache s2 = s_addrCache s
     \<and> map fst (s_proxyMappings s2) = map fst (s_proxyMappings s) \<and> mapGauge s2 = mapGauge s
     \<and> rest_part s2 = rest_part s \<and> s_out s2 = s_out s"

text \<open>A metric call that moves none of the four gauges.\<close>

definition quiet :: "call \<Rightarrow> bool" where
  "quiet c \<longleftrightarrow> c_var c \<notin> {RelayVar V_relayUDPConnectionsActive, SysVar V_activeSessions,
     RelayVar V_commPatternActive, RelayVar V_proxyMappingActive}"

text \<open>A concrete server with one mapping, for the witnesses.\<close>

definition wMapped :: "string \<Rightarrow> server" where
  "wMapped key = wServer\<lparr>s_proxyMappings := [(key, \<lparr>pm_Destinations = [\<lparr>DestinationIP = ''10.0.0.1'', DestinationPort = 1\<rparr>],
     pm_LastUsed = 0\<rparr>)]\<rparr>"

lemmas part_defs = pool_part_def sess_part_def map_part_def rest_part_def

lemma sess_inv_part: "sess_part t = sess_part s \<Longrightarrow> sess_inv t = sess_inv s"
  by (simp add: sess_part_def sess_inv_def)

lemma pool_ok_part: "pool_part t = pool_part s \<Longrightarrow> pool_ok t = pool_ok s"
  by (simp add: pool_part_def pool_ok_def sockets_ok_def openIds_def)

lemma routes_ok_part: "s_connections t = s_connections s \<Longrightarrow> routes_ok t = routes_ok s"
  by (simp add: routes_ok_def)

lemma other_parts:
  "other_eq t s \<Longrightarrow> pool_part t = pool_part s \<and> map_part t = map_part s \<and> rest_part t = rest_part s
     \<and> s_out t = s_out s \<and> s_connections t = s_connections s \<and> s_addrCache t = s_addrCache s"
  by (simp add: other_eq_def part_defs)

lemma getCachedAddr_parts [simp]:
  "pool_part (snd (getCachedAddr E ip port s)) = pool_part s"
  "sess_part (snd (getCachedAddr E ip port s)) = sess_part s"
  "map_part (snd (getCachedAddr E ip port s)) = map_part s"
  "rest_part (snd (getCachedAddr E ip port s)) = rest_part s"
  by (simp_all add: part_defs)

lemma touch_parts:
  "sess_part (touch E k dc s) = sess_part s" "map_part (touch E k dc s) = map_part s"
  "rest_part (touch E k dc s) = rest_part s" "s_out (touch E k dc s) = s_out s"
  "s_addrCache (touch E k dc s) = s_addrCache s"
  by (simp_all add: touch_def part_defs)

lemma remove_parts:
  assumes "removeConnectionLocked k dc s = (ok, t)"
  shows "sess_part t = sess_part s" "map_part t = map_part s" "rest_part t = rest_part s" "s_out t = s_out s"
    "s_addrCache t = s_addrCache s" "s_io t = s_io s"
  using assms by (auto simp: removeConnectionLocked_def part_defs split: option.splits if_splits)

lemma evict_parts:
  "sess_part (evictLRUConnection s) = sess_part s" "map_part (evictLRUConnection s) = map_part s"
  "rest_part (evictLRUConnection s) = rest_part s" "s_out (evictLRUConnection s) = s_out s"
  "s_addrCache (evictLRUConnection s) = s_addrCache s"
proof -
  have m: "sess_part (rec_metric (RecordProxyCleanupRemoved i a n) (rec_metric (RecordUDPConnection i d) u)) = sess_part u"
    "map_part (rec_metric (RecordProxyCleanupRemoved i a n) (rec_metric (RecordUDPConnection i d) u)) = map_part u"
    "rest_part (rec_metric (RecordProxyCleanupRemoved i a n) (rec_metric (RecordUDPConnection i d) u)) = rest_part u"
    for i a n d u by (simp_all add: part_defs)
  show "sess_part (evictLRUConnection s) = sess_part s" "map_part (evictLRUConnection s) = map_part s"
    "rest_part (evictLRUConnection s) = rest_part s" "s_out (evictLRUConnection s) = s_out s"
    "s_addrCache (evictLRUConnection s) = s_addrCache s"
    by (auto simp: evictLRUConnection_def m dest: remove_parts split: option.split prod.split)
qed

lemma getOrCreateLocked_parts:
  "sess_part (snd (getOrCreateLocked E d r s)) = sess_part s" "map_part (snd (getOrCreateLocked E d r s)) = map_part s"
  "rest_part (snd (getOrCreateLocked E d r s)) = rest_part s" "s_out (snd (getOrCreateLocked E d r s)) = s_out s"
  "s_addrCache (snd (getOrCreateLocked E d r s)) = s_addrCache s"
proof -
  let ?s1 = "if e_maxUDP E \<le> s_connectionCount s then evictLRUConnection s else s"
  have e: "sess_part ?s1 = sess_part s" "map_part ?s1 = map_part s" "rest_part ?s1 = rest_part s"
    "s_out ?s1 = s_out s" "s_addrCache ?s1 = s_addrCache s"
    by (simp_all add: evict_parts)
  show "sess_part (snd (getOrCreateLocked E d r s)) = sess_part s" "map_part (snd (getOrCreateLocked E d r s)) = map_part s"
    "rest_part (snd (getOrCreateLocked E d r s)) = rest_part s" "s_out (snd (getOrCreateLocked E d r s)) = s_out s"
    "s_addrCache (snd (getOrCreateLocked E d r s)) = s_addrCache s"
    using e touch_parts
    by (auto simp: getOrCreateLocked_def Let_def part_defs split: option.split prod.split if_splits)
qed

lemma getOrCreate_parts:
  "sess_part (snd (getOrCreateConnection E d r s)) = sess_part s" "map_part (snd (getOrCreateConnection E d r s)) = map_part s"
  "rest_part (snd (getOrCreateConnection E d r s)) = rest_part s" "s_out (snd (getOrCreateConnection E d r s)) = s_out s"
  "s_addrCache (snd (getOrCreateConnection E d r s)) = s_addrCache s"
  by (auto simp: getOrCreateConnection_def Let_def getOrCreateLocked_parts touch_parts split: option.split)

lemma writeOut_parts:
  "sess_part (writeOut E c p s) = sess_part s" "map_part (writeOut E c p s) = map_part s"
  "rest_part (writeOut E c p s) = rest_part s" "pool_part (writeOut E c p s) = pool_part s"
  "s_addrCache (writeOut E c p s) = s_addrCache s" "s_connections (writeOut E c p s) = s_connections s"
  "s_out (writeOut E c p s) = s_out s \<or> s_out (writeOut E c p s) = s_out s @ [ToPeer c p]"
  by (auto simp: writeOut_def connWrite_def part_defs)

lemma trackOpt_other: "other_eq (trackOpt E a b t s) s"
  by (cases t) (auto simp: trackOpt_def intro: track_other, simp add: other_eq_def)

lemma trackOpt_inv: "sess_inv s \<Longrightarrow> clock_ok E \<Longrightarrow> sess_inv (trackOpt E a b t s)"
  by (cases t) (simp_all add: trackOpt_def track_inv)

lemma getOrCreate_ok:
  assumes "pool_ok s" "0 < e_maxUDP E"
  shows "pool_ok (snd (getOrCreateConnection E d r s))"
proof -
  from assms(1) have ok: "sockets_ok s" "s_connectionCount s \<le> int (length (s_connections s))"
    "connGauge s = int (length (s_connections s))" by (auto simp: pool_ok_def)
  obtain c t where l: "getOrCreateLocked E d r s = (c, t)" by force
  show ?thesis
  proof (cases "Load (s_connections s) (connKey d r)")
    case None
    then have "snd (getOrCreateConnection E d r s) = t" by (simp add: getOrCreateConnection_def Let_def l)
    with locked_effect [OF ok(1) assms(2) ok(2) l] ok show ?thesis by (simp add: pool_ok_def)
  next
    case (Some dc)
    then have "snd (getOrCreateConnection E d r s) = touch E (connKey d r) dc s"
      by (simp add: getOrCreateConnection_def Let_def)
    with touch_effect [OF Some ok(1), of E] ok show ?thesis by (simp add: pool_ok_def)
  qed
qed

lemma connKey_dest:
  assumes "connKey d r = connKey d' r'" "plain d" "plain d'"
  shows "UDPAddr_String d = UDPAddr_String d'"
proof -
  have tw: "takeWhile (\<lambda>c. c \<noteq> CHR ''-'') (a @ ''-'' @ b) = a" if "CHR ''-'' \<notin> set a" for a b
    using that by (induction a) auto
  show ?thesis
    using arg_cong [OF assms(1), of "takeWhile (\<lambda>c. c \<noteq> CHR ''-'')"] assms(2,3)
    by (simp add: connKey_def plain_def tw [simplified])
qed

lemma routes_Load:
  assumes "routes_ok s" "Load (s_connections s) (connKey d r) = Some dc" "plain d"
  shows "UDPAddr_String (uc_dest (dc_conn dc)) = UDPAddr_String d" "plain (uc_dest (dc_conn dc))"
proof -
  from assms(1) Load_in_set [OF assms(2)] obtain r' where
    "connKey d r = connKey (uc_dest (dc_conn dc)) r'" "plain (uc_dest (dc_conn dc))"
    by (auto simp: routes_ok_def)
  with assms(3) show "UDPAddr_String (uc_dest (dc_conn dc)) = UDPAddr_String d" "plain (uc_dest (dc_conn dc))"
    using connKey_dest by metis+
qed

lemma getOrCreate_route:
  assumes "routes_ok s" "pool_ok s" "0 < e_maxUDP E" "plain d" "getOrCreateConnection E d r s = (c, t)"
  shows "routes_ok t" "c = Some conn \<Longrightarrow> UDPAddr_String (uc_dest conn) = UDPAddr_String d"
proof -
  have "routes_ok t \<and> (\<forall>conn. c = Some conn \<longrightarrow> UDPAddr_String (uc_dest conn) = UDPAddr_String d)"
  proof (cases "Load (s_connections s) (connKey d r)")
    case None
    from assms(2) have "sockets_ok s" "s_connectionCount s \<le> int (length (s_connections s))"
      by (auto simp: pool_ok_def)
    note mr = makeRoom_effect [OF this(1) assms(3) this(2)]
    have "getOrCreateConnection E d r s = getOrCreateLocked E d r s"
      using None by (simp add: getOrCreateConnection_def Let_def)
    with assms(5) locked_new [OF None mr(2)] have
      "c = None \<and> s_connections t = s_connections (makeRoom E s)
       \<or> c = Some \<lparr>uc_id = s_nextConn (makeRoom E s), uc_dest = d\<rparr>
         \<and> s_connections t = s_connections (makeRoom E s) @ [(connKey d r, \<lparr>dc_conn = \<lparr>uc_id = s_nextConn (makeRoom E s), uc_dest = d\<rparr>,
             dc_lastUsed = e_now E\<rparr>)]"
      by (auto simp: addConnection_def Let_def split: if_splits)
    moreover have "routes_ok (makeRoom E s)" using assms(1) mr(2) by (fastforce simp: routes_ok_def)
    moreover have "\<exists>r'. connKey d r = connKey d r' \<and> plain d" using assms(4) by blast
    ultimately show ?thesis by (elim disjE conjE) (simp_all add: routes_ok_def)
  next
    case (Some dc)
    with assms(5) have t: "c = Some (dc_conn dc)" "t = touch E (connKey d r) dc s"
      by (auto simp: getOrCreateConnection_def Let_def)
    have "routes_ok t"
      using assms(1) Load_in_set [OF Some]
        set_Store_subset [of "connKey d r" "dc\<lparr>dc_lastUsed := e_now E\<rparr>" "s_connections s"]
      by (fastforce simp: routes_ok_def t(2) touch_def)
    with t(1) routes_Load [OF assms(1) Some assms(4)] show ?thesis by simp
  qed
  then show "routes_ok t" "c = Some conn \<Longrightarrow> UDPAddr_String (uc_dest conn) = UDPAddr_String d" by blast+
qed

lemma addrs_ok_cong:
  "s_addrCache t = s_addrCache s \<Longrightarrow> sess_part t = sess_part s \<Longrightarrow> s_responders t = s_responders s \<Longrightarrow> addrs_ok t = addrs_ok s"
  by (simp add: addrs_ok_def sess_part_def)

lemma getOrCreate_responders:
  "set (s_responders (snd (getOrCreateConnection E d r s))) \<subseteq>
     set (s_responders s) \<union> {g. r_destAddr g = d \<and> r_remoteAddr g = r}"
proof -
  have rem: "s_responders u = s_responders s" if "removeConnectionLocked k dc s = (ok, u)" for k dc ok u
    using that by (auto simp: removeConnectionLocked_def split: option.splits if_splits)
  have ev: "s_responders (evictLRUConnection s) = s_responders s"
    by (auto simp: evictLRUConnection_def dest: rem split: option.split prod.split)
  show ?thesis
    by (auto simp: getOrCreateConnection_def getOrCreateLocked_def Let_def touch_def ev
        split: option.splits prod.splits if_splits)
qed

lemma getOrCreate_addrs:
  assumes "addrs_ok s" "plain d" "plain r"
  shows "addrs_ok (snd (getOrCreateConnection E d r s))"
  using assms getOrCreate_responders [of E d r s] getOrCreate_parts(1,5) [of E d r s]
  unfolding addrs_ok_def sess_part_def by fastforce

lemma putSession_addrs:
  assumes "putSession calls key session s = (r, t)" "addrs_ok s" "\<And>a. ws_DestAddr session = Some a \<Longrightarrow> plain a"
  shows "addrs_ok t"
  using assms(2,3) putSession_fields(2,5) [OF assms(1)] putSession_frame(6,13) [OF assms(1)]
  by (auto simp: addrs_ok_def)

lemma indexSession_addrs [simp]: "addrs_ok (indexSession i r s) = addrs_ok s"
  by (simp add: addrs_ok_def)

lemma put_index_addrs:
  assumes "addrs_ok s" "\<And>a. ws_DestAddr session = Some a \<Longrightarrow> plain a"
  shows "addrs_ok (case putSession calls key session s of (r, t) \<Rightarrow> indexSession i r t)"
  using putSession_addrs [OF _ assms] by (auto split: prod.split)

lemma UpdateLastSeen_addrs:
  assumes "addrs_ok s"
  shows "addrs_ok (UpdateLastSeen E r s)"
proof (cases "r < length (s_heap s)")
  case True
  then have "s_heap s ! r \<in> set (s_heap s)" by simp
  with assms have "ws_DestAddr w = Some a \<Longrightarrow> plain a"
    if "w \<in> insert ((s_heap s ! r)\<lparr>ws_LastSeen := e_now E\<rparr>) (set (s_heap s))" for w a
    using that by (auto simp: addrs_ok_def)
  then have "\<forall>w \<in> set (s_heap (UpdateLastSeen E r s)). \<forall>a. ws_DestAddr w = Some a \<longrightarrow> plain a"
    using subsetD [OF set_update_subset_insert [of "s_heap s" r "(s_heap s ! r)\<lparr>ws_LastSeen := e_now E\<rparr>"]]
    unfolding UpdateLastSeen_def by simp blast
  with assms show ?thesis by (simp add: addrs_ok_def)
qed (use assms in \<open>simp add: addrs_ok_def UpdateLastSeen_def list_update_beyond\<close>)

lemma learnSession_addrs: "addrs_ok s \<Longrightarrow> plain a \<Longrightarrow> addrs_ok (learnSession E key ri si a s)"
  unfolding learnSession_def Let_def by (rule put_index_addrs) auto

lemma tryRebuild_addrs: "addrs_ok s \<Longrightarrow> plain (cp_ToDestination p) \<Longrightarrow> addrs_ok (tryRebuildSession E p s)"
  unfolding tryRebuildSession_def Let_def
  by (auto split: option.split intro!: put_index_addrs UpdateLastSeen_addrs)

lemma storePattern_addrs:
  "addrs_ok s \<Longrightarrow> plain (cp_ToDestination p) \<Longrightarrow> addrs_ok (s\<lparr>s_commPatterns := Store k p (s_commPatterns s)\<rparr>)"
  using set_Store_subset [of k p "s_commPatterns s"] unfolding addrs_ok_def by fastforce

lemma rec_metric_addrs [simp]: "addrs_ok (rec_metric c s) = addrs_ok s"
  by (simp add: addrs_ok_def)

lemma track_addrs:
  assumes "addrs_ok s" "plain a" "plain b"
  shows "addrs_ok (trackCommunicationPattern E a b i c s)"
proof -
  define ca da where "ca = (if c then a else b)" and "da = (if c then b else a)"
  have da: "plain da" using assms by (simp add: da_def)
  show ?thesis
  proof (cases "Load (s_commPatterns s) (patternKey ca da)")
    case None
    then have "trackCommunicationPattern E a b i c s = rec_metric (RecordCommPattern relayIfname 1)
        (s\<lparr>s_commPatterns := Store (patternKey ca da) (newPattern E ca da i c) (s_commPatterns s)\<rparr>)"
      by (auto simp: trackCommunicationPattern_def ca_def da_def loadOrStore_def)
    with assms(1) da show ?thesis by (simp add: storePattern_addrs newPattern_def)
  next
    case (Some p)
    then have "trackCommunicationPattern E a b i c s = tryRebuildSession E (updatePattern E i c p)
        (s\<lparr>s_commPatterns := Store (patternKey ca da) (updatePattern E i c p) (s_commPatterns s)\<rparr>)"
      by (auto simp: trackCommunicationPattern_def ca_def da_def Let_def)
    moreover have "plain (cp_ToDestination (updatePattern E i c p))"
      using assms(1) Load_in_set [OF Some] by (auto simp: addrs_ok_def updatePattern_def Let_def)
    ultimately show ?thesis using assms(1) by (simp add: tryRebuild_addrs storePattern_addrs)
  qed
qed

subsection \<open>Forwarding one packet\<close>

lemma relay_ok_cong:
  assumes "sess_part t = sess_part s" "pool_part t = pool_part s" "s_addrCache t = s_addrCache s"
  shows "relay_ok t = relay_ok s"
proof -
  have "s_connections t = s_connections s" "s_responders t = s_responders s"
    using assms(2) by (simp_all add: pool_part_def)
  with assms show ?thesis unfolding relay_ok_def
    by (simp only: sess_inv_part [OF assms(1)] pool_ok_part [OF assms(2)] routes_ok_part [of t s] addrs_ok_cong [of t s])
qed

lemma writeOut_relay: "relay_ok s \<Longrightarrow> relay_ok (writeOut E c p s)"
  using relay_ok_cong [OF writeOut_parts(1,4,5) [of E c p s]] by simp

lemma trackOpt_relay:
  assumes "relay_ok s" "clock_ok E" "plain a" "plain b"
  shows "relay_ok (trackOpt E a b t s)"
proof -
  let ?t = "trackOpt E a b t s"
  note o = other_parts [OF trackOpt_other [of E a b t s]]
  from assms have s: "sess_inv s" "pool_ok s" "routes_ok s" "addrs_ok s" by (auto simp: relay_ok_def)
  have "addrs_ok ?t"
    using assms(3,4) s(4) by (cases t) (simp_all add: trackOpt_def track_addrs)
  moreover have "pool_ok ?t" "routes_ok ?t"
    using o s(2,3) pool_ok_part [of ?t s] routes_ok_part [of ?t s] by blast+
  ultimately show ?thesis using trackOpt_inv [OF s(1) assms(2)] by (simp add: relay_ok_def)
qed

lemma getOrCreate_relay:
  assumes "relay_ok s" "0 < e_maxUDP E" "plain d" "plain r"
  shows "relay_ok (snd (getOrCreateConnection E d r s))"
proof -
  obtain c t where g: "getOrCreateConnection E d r s = (c, t)" by force
  from assms have s: "sess_inv s" "pool_ok s" "routes_ok s" "addrs_ok s" by (auto simp: relay_ok_def)
  have "sess_part t = sess_part s" using getOrCreate_parts(1) [of E d r s] by (simp add: g)
  with s(1) have "sess_inv t" using sess_inv_part by blast
  moreover have "pool_ok t" using getOrCreate_ok [OF s(2) assms(2), of d r] by (simp add: g)
  moreover have "addrs_ok t" using getOrCreate_addrs [OF s(4) assms(3,4), of E] by (simp add: g)
  moreover have "routes_ok t" by (rule getOrCreate_route(1) [OF s(3,2) assms(2,3) g])
  ultimately show ?thesis by (simp add: relay_ok_def g)
qed

lemma sendVia_post:
  assumes "relay_ok s" "env_ok E" "plain a" "plain remote"
  shows "fwd_post E packet {UDPAddr_String a} 1 s (sendVia E packet remote tr a s)"
proof -
  obtain c u where g: "getOrCreateConnection E a remote s = (c, u)" by force
  from assms(2) have e: "clock_ok E" "0 < e_maxUDP E" by (auto simp: env_ok_def)
  from getOrCreate_relay [OF assms(1) e(2) assms(3,4)] have u: "relay_ok u" by (simp add: g)
  have up: "map_part u = map_part s" "rest_part u = rest_part s" "s_out u = s_out s" "s_addrCache u = s_addrCache s"
    using getOrCreate_parts [of E a remote s] by (simp_all add: g)
  show ?thesis
  proof (cases c)
    case None
    with u up show ?thesis by (simp add: sendVia_def g fwd_post_def mayResolve_def)
  next
    case (Some conn)
    let ?v = "trackOpt E remote a tr u"
    have dst: "UDPAddr_String (uc_dest conn) = UDPAddr_String a"
      using getOrCreate_route(2) [OF _ _ e(2) assms(3) g Some] assms(1) by (simp add: relay_ok_def)
    have v: "relay_ok ?v" by (rule trackOpt_relay [OF u e(1) assms(4,3)])
    note o = other_parts [OF trackOpt_other [of E remote a tr u]]
    have "sendVia E packet remote tr a s = writeOut E conn packet ?v" by (simp add: sendVia_def g Some)
    with writeOut_relay [OF v] writeOut_parts [of E conn packet ?v] o up dst show ?thesis
      by (auto simp: fwd_post_def mayResolve_def)
  qed
qed

lemma getCachedAddr_post:
  assumes "relay_ok s" "env_ok E" "getCachedAddr E ip port s = (x, t)"
  shows "relay_ok t" "map_part t = map_part s" "rest_part t = rest_part s" "s_out t = s_out s"
    "\<And>k a. mayResolve E t k a \<Longrightarrow> mayResolve E s k a"
    "\<And>a. x = Some a \<Longrightarrow> mayResolve E s (fmtHostPort ip port) a \<and> plain a"
proof -
  have t: "t = snd (getCachedAddr E ip port s)" by (simp add: assms(3))
  from assms(1) have s: "sess_inv s" "pool_ok s" "routes_ok s" "addrs_ok s" by (auto simp: relay_ok_def)
  have cached: "plain (ca_addr c)" if "(k, c) \<in> set (s_addrCache s)" for k c
    using s(4) that by (auto simp: addrs_ok_def)
  let ?k = "fmtHostPort ip port"
  have "set (s_addrCache t) \<subseteq> set (s_addrCache s) \<or> (\<exists>n a x m. e_resolve E n ?k = Some a \<and> set m \<subseteq> set (s_addrCache s)
      \<and> s_addrCache t = Store ?k \<lparr>ca_addr = a, ca_expiresAt = x\<rparr> m)"
    using assms(3) set_Delete_subset [of ?k "s_addrCache s"]
    by (auto simp: getCachedAddr_def Let_def split: option.splits if_splits) (metis order_refl)+
  then have "plain (ca_addr c)" if "(k, c) \<in> set (s_addrCache t)" for k c
  proof (elim disjE exE conjE)
    fix n a x m assume "e_resolve E n ?k = Some a" "set m \<subseteq> set (s_addrCache s)"
      "s_addrCache t = Store ?k \<lparr>ca_addr = a, ca_expiresAt = x\<rparr> m"
    with that assms(2) cached show ?thesis
      using subsetD [OF set_Store_subset [of ?k "\<lparr>ca_addr = a, ca_expiresAt = x\<rparr>" m], of "(k, c)"]
      by (auto simp: env_ok_def)
  qed (use that cached in blast)
  then have "addrs_ok t"
    using s(4) by (auto simp: addrs_ok_def t)
  moreover have "sess_inv t" using s(1) sess_inv_part [of t s] by (simp add: t)
  moreover have "pool_ok t" using s(2) pool_ok_part [of t s] by (simp add: t)
  moreover have "routes_ok t" using s(3) routes_ok_part [of t s] by (simp add: t)
  ultimately show "relay_ok t" by (simp add: relay_ok_def)
  show "map_part t = map_part s" "rest_part t = rest_part s" "s_out t = s_out s" by (simp_all add: t)
  show "mayResolve E s k a" if "mayResolve E t k a" for k a
    using that assms(3)
    by (auto simp: mayResolve_def getCachedAddr_def Let_def Load_Store Load_Delete split: option.splits if_splits)
      blast+
  show "mayResolve E s (fmtHostPort ip port) a \<and> plain a" if "x = Some a" for a
    using that assms
    by (auto simp: mayResolve_def getCachedAddr_def Let_def relay_ok_def addrs_ok_def env_ok_def
        dest!: Load_in_set split: option.splits if_splits)
qed

lemma fwd_post_trans:
  assumes "fwd_post E packet A m s t" "fwd_post E packet B n t u"
  shows "fwd_post E packet (A \<union> B) (m + n) s u"
  using assms unfolding fwd_post_def by fastforce

lemma fwd_post_mono:
  assumes "fwd_post E packet A m s t" "A \<subseteq> B" "m \<le> n"
  shows "fwd_post E packet B n s t"
  using assms unfolding fwd_post_def by fastforce

lemma fwd_post_refl: "relay_ok s \<Longrightarrow> fwd_post E packet A n s s"
  by (simp add: fwd_post_def)

lemma forwardDest_post:
  assumes "relay_ok s" "env_ok E" "plain remote"
  shows "fwd_post E packet (destAddrs E s [d]) 1 s (forwardDest E packet remote tr d s)"
proof -
  obtain x t where g: "getCachedAddr E (DestinationIP d) (DestinationPort d) s = (x, t)" by force
  note p = getCachedAddr_post [OF assms(1,2) g]
  show ?thesis
  proof (cases x)
    case None
    with p show ?thesis by (simp add: forwardDest_def g fwd_post_def)
  next
    case (Some a)
    from p(6) [OF Some] have a: "plain a" "UDPAddr_String a \<in> destAddrs E s [d]" by (auto simp: destAddrs_def)
    have "fwd_post E packet (destAddrs E s [d]) 1 t (sendVia E packet remote tr a t)"
      by (rule fwd_post_mono [OF sendVia_post [OF p(1) assms(2) a(1) assms(3)]]) (use a(2) in simp_all)
    with p(2-5) show ?thesis by (auto simp: forwardDest_def g Some fwd_post_def)
  qed
qed

lemma destAddrs_mono:
  "fwd_post E packet A n s t \<Longrightarrow> set ds \<subseteq> set ds' \<Longrightarrow> destAddrs E t ds \<subseteq> destAddrs E s ds'"
  unfolding destAddrs_def fwd_post_def by blast

lemma forwardAll_post:
  assumes "relay_ok s" "env_ok E" "plain remote"
  shows "fwd_post E packet (destAddrs E s ds) (length ds) s (fold (forwardDest E packet remote tr) ds s)"
  using assms(1)
proof (induction ds arbitrary: s)
  case Nil
  then show ?case by (simp add: fwd_post_refl)
next
  case (Cons d ds)
  let ?t = "forwardDest E packet remote tr d s"
  have 1: "fwd_post E packet (destAddrs E s [d]) 1 s ?t" by (rule forwardDest_post [OF Cons.prems assms(2,3)])
  then have "relay_ok ?t" by (simp add: fwd_post_def)
  from Cons.IH [OF this] have 2: "fwd_post E packet (destAddrs E ?t ds) (length ds) ?t (fold (forwardDest E packet remote tr) ds ?t)" .
  have "destAddrs E s [d] \<union> destAddrs E ?t ds \<subseteq> destAddrs E s (d # ds)"
    using destAddrs_mono [OF 1, of ds "d # ds"] by (auto simp: destAddrs_def)
  with fwd_post_mono [OF fwd_post_trans [OF 1 2]] show ?case by simp
qed

text \<open>Forwarding without tracking leaves the session tables alone.\<close>

lemma forwardDest_None_sess: "sess_part (forwardDest E packet remote None d s) = sess_part s"
  using getOrCreate_parts(1) writeOut_parts(1)
  by (auto simp: forwardDest_def sendVia_def trackOpt_def split: prod.split option.split)
    (metis getCachedAddr_parts(2) snd_conv)+

lemma forwardAll_None_sess: "sess_part (fold (forwardDest E packet remote None) ds s) = sess_part s"
  by (induction ds arbitrary: s) (simp_all add: forwardDest_None_sess)

subsection \<open>The packet handler\<close>

lemma mapping_relay [simp]: "relay_ok (s\<lparr>s_proxyMappings := m\<rparr>) = relay_ok s"
  by (rule relay_ok_cong) (simp_all add: part_defs)

lemma learnSession_relay:
  assumes "relay_ok s" "plain a"
  shows "relay_ok (learnSession E k ri si a s)"
proof -
  let ?t = "learnSession E k ri si a s"
  note o = other_parts [OF learnSession_other [of E k ri si a s]]
  from assms have s: "sess_inv s" "pool_ok s" "routes_ok s" "addrs_ok s" by (auto simp: relay_ok_def)
  have "pool_ok ?t" "routes_ok ?t"
    using o s(2,3) pool_ok_part [of ?t s] routes_ok_part [of ?t s] by blast+
  with learnSession_inv [OF s(1)] learnSession_addrs [OF s(4) assms(2)] show ?thesis by (simp add: relay_ok_def)
qed

lemma UpdateLastSeen_relay: "relay_ok s \<Longrightarrow> relay_ok (UpdateLastSeen E r s)"
  unfolding relay_ok_def
  by (auto simp: UpdateLastSeen_inv UpdateLastSeen_addrs routes_ok_def pool_ok_def sockets_ok_def openIds_def)

lemma session_plain:
  assumes "relay_ok s" "Load (s_sessionsByReceiverIndex s) i = Some r" "GetDestAddr r s = Some a"
  shows "plain a"
proof -
  from assms have "r < length (s_heap s)" using refs_valid(2) by (auto simp: relay_ok_def)
  with assms(1,3) show ?thesis by (auto simp: relay_ok_def addrs_ok_def GetDestAddr_def)
qed

lemma wg_postI:
  assumes "mapped remote s s2" "fwd_post E packet A n s2 t" "A \<subseteq> wg_allowed E packet remote s"
  shows "wg_post E packet remote s t"
  using fwd_post_mono [OF assms(2,3) order_refl] assms(1)
  unfolding wg_post_def fwd_post_def map_part_def mapped_def by auto

lemma mapped_all:
  assumes "mapped remote s s2" "env_ok E" "plain remote" "destAddrs E s ds \<subseteq> wg_allowed E packet remote s"
  shows "wg_post E packet remote s (fold (forwardDest E packet remote tr) ds s2)"
proof (rule wg_postI [OF assms(1) forwardAll_post [OF _ assms(2,3)]])
  show "relay_ok s2" using assms(1) by (simp add: mapped_def)
  have "destAddrs E s2 ds = destAddrs E s ds"
    using assms(1) by (simp add: destAddrs_def mayResolve_def mapped_def)
  with assms(4) show "destAddrs E s2 ds \<subseteq> wg_allowed E packet remote s" by simp
qed

lemma mapped_refresh:
  assumes "relay_ok s" "Load (s_proxyMappings s) (UDPAddr_String remote) = Some m"
  shows "mapped remote s (s\<lparr>s_proxyMappings := Store (UDPAddr_String remote) v (s_proxyMappings s)\<rparr>)"
proof -
  have "map fst (Store k v m) = map fst m" if "Load m k \<noteq> None" for k and m :: "(string, ProxyMapping) gomap"
    using that by (induction m) auto
  with assms show ?thesis by (simp add: mapped_def rest_part_def)
qed

lemma mapped_learn:
  assumes "mapped remote s s1" "plain a"
  shows "mapped remote s (learnSession E k ri si a s1)"
  using assms other_parts [OF learnSession_other [of E k ri si a s1]]
  by (simp add: mapped_def learnSession_relay map_part_def)

lemma mapped_seen:
  assumes "mapped remote s s1"
  shows "mapped remote s (UpdateLastSeen E r s1)"
  using assms UpdateLastSeen_relay [of s1 E r] by (simp add: mapped_def rest_part_def)

lemma handle_post:
  assumes "relay_ok s" "env_ok E" "plain remote"
  shows "wg_post E packet remote s (handleWireGuardPacket E packet remote s)"
proof -
  obtain ri si ok where x: "extractWireGuardIndices packet = (ri, si, ok)" by (metis prod_cases3)
  let ?key = "UDPAddr_String remote"
  show ?thesis
  proof (cases "packet \<noteq> [] \<and> ok \<and> Load (s_proxyMappings s) ?key \<noteq> None")
    case False
    then have "handleWireGuardPacket E packet remote s = s"
      by (auto simp: handleWireGuardPacket_def x Let_def)
    with assms(1) show ?thesis by (simp add: wg_post_def)
  next
    case True
    then obtain m where m: "Load (s_proxyMappings s) ?key = Some m" by auto
    define s1 where "s1 = s\<lparr>s_proxyMappings := Store ?key (m\<lparr>pm_LastUsed := e_now E\<rparr>) (s_proxyMappings s)\<rparr>"
    have s1: "mapped remote s s1" unfolding s1_def by (rule mapped_refresh [OF assms(1) m])
    have same: "s_sessionsByReceiverIndex s1 = s_sessionsByReceiverIndex s" "GetDestAddr r s1 = GetDestAddr r s" for r
      by (simp_all add: s1_def GetDestAddr_def)
    note all = mapped_all [OF _ assms(2,3), of s _ "pm_Destinations m" packet]
    note h = handleWireGuardPacket_def x m Let_def s1_def [symmetric] same msgType_defs
    consider (noidx) "packet ! 0 \<noteq> 4 \<or> Load (s_sessionsByReceiverIndex s) ri = None"
      | (idx) r where "packet ! 0 = 4" "Load (s_sessionsByReceiverIndex s) ri = Some r"
      by (cases "Load (s_sessionsByReceiverIndex s) ri") auto
    then show ?thesis
    proof cases
      case noidx
      then have "destAddrs E s (pm_Destinations m) \<subseteq> wg_allowed E packet remote s"
        using m x by (auto simp: wg_allowed_def msgType_defs)
      note all' = all [OF _ this]
      from noidx show ?thesis
        using True all' [OF s1] all' [OF mapped_learn [OF s1 assms(3)]] by (auto simp: h)
    next
      case (idx r)
      note s2 = mapped_seen [OF s1, of E r]
      show ?thesis
      proof (cases "GetDestAddr r s")
        case None
        with idx have "destAddrs E s (pm_Destinations m) \<subseteq> wg_allowed E packet remote s"
          using m x True by (simp add: wg_allowed_def msgType_defs)
        from all [OF s2 this] show ?thesis using True idx None by (simp add: h)
      next
        case (Some a)
        have "{UDPAddr_String a} \<subseteq> wg_allowed E packet remote s"
          using idx Some m x True by (simp add: wg_allowed_def msgType_defs)
        moreover have "relay_ok (UpdateLastSeen E r s1)" using s2 by (simp add: mapped_def)
        ultimately have "wg_post E packet remote s (sendVia E packet remote (Some ri) a (UpdateLastSeen E r s1))"
          using wg_postI [OF s2 sendVia_post [OF _ assms(2) session_plain [OF assms(1) idx(2) Some] assms(3)]] by blast
        then show ?thesis using True idx Some by (simp add: h)
      qed
    qed
  qed
qed

subsection \<open>Learning a session\<close>

lemma learnSession_index:
  "Load (s_sessionsByReceiverIndex (learnSession E k ri si a s)) si = Some (length (s_heap s))"
  "GetDestAddr (length (s_heap s)) (learnSession E k ri si a s) = Some a"
proof -
  let ?w = "\<lparr>ws_ReceiverIndex = ri, ws_SenderIndex = si, ws_DestAddr = Some a, ws_LastSeen = e_now E\<rparr>"
  obtain r t where p: "putSession [RecordSession relayIfname 1] k ?w s = (r, t)" by force
  note f = putSession_fields [OF p]
  have l: "learnSession E k ri si a s = indexSession si r t" by (simp add: learnSession_def p)
  show "Load (s_sessionsByReceiverIndex (learnSession E k ri si a s)) si = Some (length (s_heap s))"
    by (simp add: l indexSession_def Load_Store f(1))
  show "GetDestAddr (length (s_heap s)) (learnSession E k ri si a s) = Some a"
    by (simp add: l GetDestAddr_def f(2))
qed

lemma response_index:
  assumes "Load (s_proxyMappings s) (UDPAddr_String peer) = Some m" "extractWireGuardIndices packet = (ri, si, True)"
    "packet ! 0 = WireGuardMessageTypeHandshakeResponse" "packet \<noteq> []"
  shows "\<exists>r. Load (s_sessionsByReceiverIndex (handleWireGuardPacket E packet peer s)) si = Some r
    \<and> GetDestAddr r (handleWireGuardPacket E packet peer s) = Some peer"
proof -
  let ?s1 = "s\<lparr>s_proxyMappings := Store (UDPAddr_String peer) (m\<lparr>pm_LastUsed := e_now E\<rparr>) (s_proxyMappings s)\<rparr>"
  let ?s2 = "learnSession E (fmtPair ri si) ri si peer ?s1"
  have "handleWireGuardPacket E packet peer s = fold (forwardDest E packet peer None) (pm_Destinations m) ?s2"
    using assms by (simp add: handleWireGuardPacket_def Let_def msgType_defs)
  with forwardAll_None_sess [where E = E and packet = packet and remote = peer and ds = "pm_Destinations m" and s = ?s2] learnSession_index [where E = E and k = "fmtPair ri si" and ri = ri and si = si and a = peer and s = ?s1]
  show ?thesis by (auto simp: sess_part_def GetDestAddr_def)
qed

subsection \<open>Properties\<close>

text \<open>
  C8: whatever WireGuard packet arrives from whatever address, every datagram the relay sends for
  it carries that very packet and goes to an allowed address: the peer its receiver index belongs
  to if it is transport data with a known index, else a destination of the sender's mapping (as
  resolved or cached).  A packet from an address without mapping sends nothing.  The relay's
  invariant, the set of mapped clients and the mapping gauge are kept.
\<close>

theorem handleWireGuardPacket_sends_only_allowed:
  assumes "relay_ok s" "env_ok E" "plain remoteAddr"
  shows "relay_ok (handleWireGuardPacket E packet remoteAddr s)
    \<and> map fst (s_proxyMappings (handleWireGuardPacket E packet remoteAddr s)) = map fst (s_proxyMappings s)
    \<and> mapGauge (handleWireGuardPacket E packet remoteAddr s) = mapGauge s
    \<and> (\<exists>sent. s_out (handleWireGuardPacket E packet remoteAddr s) = s_out s @ sent
         \<and> (\<forall>x \<in> set sent. \<exists>c. x = ToPeer c packet
              \<and> UDPAddr_String (uc_dest c) \<in> wg_allowed E packet remoteAddr s))"
  using handle_post [OF assms, of packet] by (auto simp: wg_post_def)


text \<open>
  Cookie replies are dropped: a packet of type 3 leaves the whole relay state unchanged, so the
  branch of the handler that forwards them is never reached.
\<close>

theorem cookie_reply_dropped:
  "handleWireGuardPacket E (WireGuardMessageTypeCookieReply # rest) remoteAddr s = s"
  by (simp add: handleWireGuardPacket_def extractWireGuardIndices_def msgType_defs)

subsection \<open>Responses\<close>

lemma quiet_calls [simp]:
  "quiet (RecordUDPPacket i a b)" "quiet (RecordUDPPacketSize i a r)" "quiet (RecordHolePunchEvent i a)"
  "quiet (RecordProxyCleanupRemoved i a n)" "quiet (RecordProxyConnectionError i a)"
  "quiet (RecordProxyMappingUpdate i)" "quiet (RecordProxyIdleCleanupDuration i a r)"
  "quiet (RecordProxyInitialMappings i n)"
  by (simp_all add: quiet_def Record_defs)

lemma rec_metric_quiet [simp]:
  assumes "quiet c"
  shows "pool_part (rec_metric c s) = pool_part s" "sess_part (rec_metric c s) = sess_part s"
    "map_part (rec_metric c s) = map_part s" "rest_part (rec_metric c s) = rest_part s"
    "relay_ok (rec_metric c s) = relay_ok s"
proof -
  show "pool_part (rec_metric c s) = pool_part s" "sess_part (rec_metric c s) = sess_part s"
    "map_part (rec_metric c s) = map_part s" "rest_part (rec_metric c s) = rest_part s"
    using assms by (auto simp: part_defs quiet_def gauge_single)
  then show "relay_ok (rec_metric c s) = relay_ok s" by (intro relay_ok_cong) simp_all
qed

lemma io_parts [simp]:
  "relay_ok ((tick u)\<lparr>s_out := x\<rparr>) = relay_ok u" "relay_ok (tick u) = relay_ok u"
  "map_part ((tick u)\<lparr>s_out := x\<rparr>) = map_part u" "map_part (tick u) = map_part u"
  "rest_part ((tick u)\<lparr>s_out := x\<rparr>) = rest_part u" "rest_part (tick u) = rest_part u"
  by (rule relay_ok_cong, simp_all add: part_defs, rule relay_ok_cong, simp_all add: part_defs)

lemma track_relay:
  assumes "relay_ok u" "plain a" "plain b" "clock_ok E"
  shows "relay_ok (trackCommunicationPattern E a b i c u)"
proof -
  let ?t = "trackCommunicationPattern E a b i c u"
  note o = other_parts [OF track_other [of E a b i c u]]
  from assms have u: "sess_inv u" "pool_ok u" "routes_ok u" "addrs_ok u" by (auto simp: relay_ok_def)
  have "pool_ok ?t" "routes_ok ?t"
    using o u(2,3) pool_ok_part [of ?t u] routes_ok_part [of ?t u] by blast+
  with track_inv [OF u(1) assms(4)] track_addrs [OF u(4) assms(2,3)] show ?thesis by (simp add: relay_ok_def)
qed

lemma responder_exit_relay:
  assumes "relay_ok s"
  shows "relay_ok (s\<lparr>s_responders := remove1 g (s_responders s)\<rparr>)"
  using assms set_remove1_subset [of g "s_responders s"]
  by (auto simp: relay_ok_def pool_ok_def sockets_ok_def openIds_def routes_ok_def addrs_ok_def sess_inv_def)

lemma handleResponses_relay:
  assumes "relay_ok s" "env_ok E" "g \<in> set (s_responders s)"
  shows "relay_ok (handleResponses E g input s) \<and> map_part (handleResponses E g input s) = map_part s
    \<and> rest_part (handleResponses E g input s) = rest_part s"
proof (cases input)
  case None
  with responder_exit_relay [OF assms(1)] show ?thesis
    by (simp add: handleResponses_def map_part_def rest_part_def)
next
  case (Some b)
  have pl: "plain (r_destAddr g)" "plain (r_remoteAddr g)" using assms(1,3) by (auto simp: relay_ok_def addrs_ok_def)
  define u where "u = rec_metric (RecordUDPPacketSize relayIfname ''wireguard'' (of_nat (length b)))
    (rec_metric (RecordUDPPacket relayIfname ''wireguard'' ''in'') s)"
  have u: "relay_ok u" "map_part u = map_part s" "rest_part u = rest_part s"
    using assms(1) by (simp_all add: u_def)
  define v where "v = trackResponse E g b u"
  have "relay_ok v" "map_part v = map_part s" "rest_part v = rest_part s"
    using u learnSession_relay [OF u(1) pl(1)] track_relay [OF u(1) pl] assms(2) other_parts [OF learnSession_other]
      other_parts [OF track_other] by (auto simp: v_def trackResponse_def env_ok_def split: prod.split)
  moreover have "handleResponses E g input s = (if \<not> e_write E (s_io v)
      then rec_metric (RecordProxyConnectionError relayIfname ''write_udp'') (tick v)
      else rec_metric (RecordUDPPacketSize relayIfname ''wireguard'' (of_nat (length b)))
             (rec_metric (RecordUDPPacket relayIfname ''wireguard'' ''out'')
               ((tick v)\<lparr>s_out := s_out v @ [ToClient (r_remoteAddr g) b]\<rparr>)))"
    by (simp add: handleResponses_def Some Let_def u_def [symmetric] v_def [symmetric])
  ultimately show ?thesis by simp
qed

subsection \<open>Witnesses\<close>

lemma wAddr_String:
  "UDPAddr_String (wAddr 1) = ''10.0.0.1:1''" "UDPAddr_String (wAddr 2) = ''10.0.0.2:1''"
  "UDPAddr_String (wAddr 9) = ''10.0.0.9:1''"
  by (simp_all add: wAddr_def UDPAddr_String_def IP_String_def To4_def ip4String_def
      Itoa_def itoaNat.simps JoinHostPort_def)

lemma wEnv_ok: "0 \<le> t \<Longrightarrow> t < 1000 \<Longrightarrow> env_ok (wEnv t)"
  by (auto simp: env_ok_def clock_ok_def wEnv_def maxDuration_def plain_def wAddr_String split: if_splits)

lemma wMapped_ok: "relay_ok (wMapped k)"
proof -
  have "relay_ok wServer"
    by (simp add: relay_ok_def wServer_sess pool_ok_def sockets_ok_def openIds_def routes_ok_def addrs_ok_def)
      (simp add: wServer_def newServer_def)
  then show ?thesis by (simp add: wMapped_def)
qed

theorem sends_only_allowed_witness:
  "s_out (handleWireGuardPacket (wEnv 5) (1 # replicate 11 0) (wAddr 9) (wMapped ''10.0.0.9:1''))
     = [ToPeer \<lparr>uc_id = 0, uc_dest = wAddr 1\<rparr> (1 # replicate 11 0)]
   \<and> relay_ok (handleWireGuardPacket (wEnv 5) (1 # replicate 11 0) (wAddr 9) (wMapped ''10.0.0.9:1''))"
proof -
  have "plain (wAddr 9)" by (simp add: plain_def wAddr_String)
  from handleWireGuardPacket_sends_only_allowed [OF wMapped_ok wEnv_ok this] have "relay_ok (handleWireGuardPacket (wEnv 5) (1 # replicate 11 0) (wAddr 9) (wMapped ''10.0.0.9:1''))" by simp
  moreover have "s_out (handleWireGuardPacket (wEnv 5) (1 # replicate 11 0) (wAddr 9) (wMapped ''10.0.0.9:1''))
     = [ToPeer \<lparr>uc_id = 0, uc_dest = wAddr 1\<rparr> (1 # replicate 11 0)]"
    by (simp add: handleWireGuardPacket_def extractWireGuardIndices_def msgType_defs wMapped_def wAddr_String
        forwardDest_def getCachedAddr_def fmtHostPort_def Itoa_def itoaNat.simps sendVia_def trackOpt_def writeOut_def
        connWrite_def pool_eval wKey)
  ultimately show ?thesis by simp
qed


end
