(* ===== verification/Relay_Mappings.thy ===== *)
theory Relay_Mappings
  imports Relay_Forward
begin

text \<open>
  The proxy mappings of \<open>relay/relay.go\<close>, which decide who may send where: \<open>UpdateProxyMapping\<close>,
  \<open>UpdateDestinationInMappings\<close>, one tick of \<open>cleanupIdleProxyMappings\<close>.

  A mapping is stored under \<open>ip:port\<close> and looked up under the printed source address; the two agree
  for IPv4 and differ for IPv6, where the printed address carries brackets.
\<close>

definition putMapping :: "string \<Rightarrow> ProxyMapping \<Rightarrow> server \<Rightarrow> server" where
  "putMapping key mapping s =
     (let s = (if Load (s_proxyMappings s) key \<noteq> None then rec_metric (RecordProxyMappingUpdate relayIfname) s
               else rec_metric (RecordProxyMapping relayIfname 1) s)
      in s\<lparr>s_proxyMappings := Store key mapping (s_proxyMappings s)\<rparr>)"

definition UpdateProxyMapping :: "env \<Rightarrow> string \<Rightarrow> int \<Rightarrow> PeerDestination list \<Rightarrow> server \<Rightarrow> server" where
  "UpdateProxyMapping E sourceIP sourcePort destinations s =
     putMapping (fmtHostPort sourceIP sourcePort)
       \<lparr>pm_Destinations = destinations, pm_LastUsed = e_now E\<rparr> s"

definition sameDest :: "PeerDestination \<Rightarrow> PeerDestination \<Rightarrow> bool" where
  "sameDest dest oldDest \<longleftrightarrow>
     DestinationIP dest = DestinationIP oldDest \<and> DestinationPort dest = DestinationPort oldDest"

definition updateOne :: "env \<Rightarrow> PeerDestination \<Rightarrow> PeerDestination \<Rightarrow> string \<times> ProxyMapping \<Rightarrow> int \<times> server \<Rightarrow> int \<times> server" where
  "updateOne E oldDest newDest kv cs =
     (let (key, mapping) = kv; (updatedCount, s) = cs;
          (updated, dests) = fold (\<lambda>i (updated, dests).
              if sameDest (dests ! i) oldDest then (True, dests[i := newDest]) else (updated, dests))
            [0..<length (pm_Destinations mapping)] (False, pm_Destinations mapping)
      in if updated then (updatedCount + 1,
             s\<lparr>s_proxyMappings := Store key \<lparr>pm_Destinations = dests, pm_LastUsed = e_now E\<rparr> (s_proxyMappings s)\<rparr>)
         else (updatedCount, s))"

definition UpdateDestinationInMappings :: "env \<Rightarrow> PeerDestination \<Rightarrow> PeerDestination \<Rightarrow> server \<Rightarrow> int \<times> server" where
  "UpdateDestinationInMappings E oldDest newDest s =
     fold (updateOne E oldDest newDest) (s_proxyMappings s) (0, s)"

definition mappingIdle :: "env \<Rightarrow> ProxyMapping \<Rightarrow> bool" where
  "mappingIdle E m \<longleftrightarrow> 30 * minute < timeSub (e_now E) (pm_LastUsed m)"

definition cleanupMappingOne :: "env \<Rightarrow> string \<times> ProxyMapping \<Rightarrow> server \<Rightarrow> server" where
  "cleanupMappingOne E kv s = (let (key, mapping) = kv in
     if mappingIdle E mapping then
       rec_metric (RecordProxyCleanupRemoved relayIfname ''proxy_mapping'' 1)
         (rec_metric (RecordProxyMapping relayIfname (-1)) (s\<lparr>s_proxyMappings := Delete key (s_proxyMappings s)\<rparr>))
     else s)"

definition cleanupIdleProxyMappings :: "env \<Rightarrow> server \<Rightarrow> server" where
  "cleanupIdleProxyMappings E s =
     rec_metric (RecordProxyIdleCleanupDuration relayIfname ''proxy_mapping'' 0)
       (fold (cleanupMappingOne E) (s_proxyMappings s) s)"

definition replaceDest :: "PeerDestination \<Rightarrow> PeerDestination \<Rightarrow> PeerDestination list \<Rightarrow> PeerDestination list" where
  "replaceDest oldDest newDest ds = map (\<lambda>d. if sameDest d oldDest then newDest else d) ds"

definition hasDest :: "PeerDestination \<Rightarrow> ProxyMapping \<Rightarrow> bool" where
  "hasDest oldDest m \<longleftrightarrow> (\<exists>d \<in> set (pm_Destinations m). sameDest d oldDest)"

definition rewritten :: "env \<Rightarrow> PeerDestination \<Rightarrow> PeerDestination \<Rightarrow> ProxyMapping \<Rightarrow> ProxyMapping" where
  "rewritten E oldDest newDest m = (if hasDest oldDest m
     then \<lparr>pm_Destinations = replaceDest oldDest newDest (pm_Destinations m), pm_LastUsed = e_now E\<rparr> else m)"

definition map_inv :: "server \<Rightarrow> bool" where
  "map_inv s \<longleftrightarrow> wf_map (s_proxyMappings s) \<and> mapGauge s = int (length (s_proxyMappings s))"

subsection \<open>Rewriting a destination\<close>

lemma sameDest_eq: "sameDest d e \<longleftrightarrow> d = e"
  by (auto simp: sameDest_def)

lemma update_loop:
  "n \<le> length ds \<Longrightarrow> fold (\<lambda>i (updated, dests).
      if sameDest (dests ! i) old then (True, dests[i := new]) else (updated, dests)) [0..<n] (b, ds)
    = (b \<or> (\<exists>i<n. sameDest (ds ! i) old), replaceDest old new (take n ds) @ drop n ds)"
proof (induction n)
  case 0
  then show ?case by (simp add: replaceDest_def)
next
  case (Suc n)
  then have "take (Suc n) ds = take n ds @ [ds ! n]" "drop n ds = ds ! n # drop (Suc n) ds"
    by (simp_all add: take_Suc_conv_app_nth Cons_nth_drop_Suc)
  moreover from Suc have "length (replaceDest old new (take n ds)) = n" by (simp add: replaceDest_def)
  ultimately show ?case
    using Suc by (auto simp: replaceDest_def nth_append list_update_append less_Suc_eq)
qed

lemma updateOne_eq:
  "updateOne E old new (k, m) (c, s) = (if hasDest old m
     then (c + 1, s\<lparr>s_proxyMappings := Store k (rewritten E old new m) (s_proxyMappings s)\<rparr>) else (c, s))"
  using update_loop [of "length (pm_Destinations m)" "pm_Destinations m" old new False]
  by (auto simp: updateOne_def hasDest_def rewritten_def in_set_conv_nth Bex_def)

lemma Store_middle: "k \<notin> fst ` set a \<Longrightarrow> Store k v (a @ (k, x) # b) = a @ (k, v) # b"
  by (induction a) auto

lemma update_fold:
  assumes "wf_map (pre @ todo)" "s_proxyMappings s = map (\<lambda>(k, m). (k, rewritten E old new m)) pre @ todo"
  shows "fold (updateOne E old new) todo (c, s) = (c + int (length (filter (\<lambda>(_, m). hasDest old m) todo)),
    s\<lparr>s_proxyMappings := map (\<lambda>(k, m). (k, rewritten E old new m)) (pre @ todo)\<rparr>)"
  using assms
proof (induction todo arbitrary: pre c s)
  case (Cons e todo)
  obtain k m where e: "e = (k, m)" by (cases e)
  let ?s = "s\<lparr>s_proxyMappings := map (\<lambda>(k, m). (k, rewritten E old new m)) (pre @ [e]) @ todo\<rparr>"
  from Cons.prems(1) e have k: "k \<notin> fst ` set pre" by (auto simp: wf_map_def)
  have "updateOne E old new e (c, s) = (if hasDest old m then c + 1 else c, ?s)"
  proof (cases "hasDest old m")
    case True
    then show ?thesis
      using k Cons.prems(2) by (simp add: e updateOne_eq Store_middle image_image case_prod_beta)
  next
    case False
    then have "?s = s" using Cons.prems(2) by (simp add: e rewritten_def)
    with False show ?thesis by (simp add: e updateOne_eq)
  qed
  moreover have "fold (updateOne E old new) todo (c', ?s) = (c' + int (length (filter (\<lambda>(_, m). hasDest old m) todo)),
      ?s\<lparr>s_proxyMappings := map (\<lambda>(k, m). (k, rewritten E old new m)) ((pre @ [e]) @ todo)\<rparr>)" for c'
    by (rule Cons.IH) (use Cons.prems in simp_all)
  ultimately show ?case by (simp add: e)
qed simp

lemma UpdateDestination_eq:
  assumes "wf_map (s_proxyMappings s)"
  shows "UpdateDestinationInMappings E oldDest newDest s =
    (int (length (filter (\<lambda>(_, m). hasDest oldDest m) (s_proxyMappings s))),
     s\<lparr>s_proxyMappings := map (\<lambda>(k, m). (k, rewritten E oldDest newDest m)) (s_proxyMappings s)\<rparr>)"
  using update_fold [of "[]" "s_proxyMappings s" s E oldDest newDest 0] assms
  by (simp add: UpdateDestinationInMappings_def)

lemma map_inv_putMapping [inv_rules]: "map_inv s \<Longrightarrow> map_inv (putMapping k m s)"
  by (auto simp: map_inv_def putMapping_def Let_def length_Store hasKey_def)

interpretation map_clean: table_cleanup s_proxyMappings "cleanupMappingOne E" "\<lambda>s m. mappingIdle E m"
    mapGauge "\<lambda>t s. sess_part t = sess_part s \<and> pool_part t = pool_part s \<and> rest_part t = rest_part s
      \<and> s_addrCache t = s_addrCache s \<and> s_out t = s_out s" for E
  by unfold_locales (auto simp: cleanupMappingOne_def part_defs fun_eq_iff split: if_splits)

lemma cleanupMappings_tables:
  assumes "wf_map (s_proxyMappings s)"
  shows "s_proxyMappings (cleanupIdleProxyMappings E s) = filter (\<lambda>(_, m). \<not> mappingIdle E m) (s_proxyMappings s)"
    "mapGauge (cleanupIdleProxyMappings E s) - int (length (s_proxyMappings (cleanupIdleProxyMappings E s)))
       = mapGauge s - int (length (s_proxyMappings s))"
    "sess_part (cleanupIdleProxyMappings E s) = sess_part s" "pool_part (cleanupIdleProxyMappings E s) = pool_part s"
    "rest_part (cleanupIdleProxyMappings E s) = rest_part s" "s_addrCache (cleanupIdleProxyMappings E s) = s_addrCache s"
  using map_clean.pass_table [OF assms, of E] map_clean.pass_frame [of E "s_proxyMappings s" s]
    map_clean.pass_meter [OF assms, of E]
  by (simp_all add: cleanupIdleProxyMappings_def)

lemma map_inv_cleanup [inv_rules]: "map_inv s \<Longrightarrow> map_inv (cleanupIdleProxyMappings E s)"
  using cleanupMappings_tables [of s E] by (auto simp: map_inv_def)

subsection \<open>Properties\<close>

text \<open>
  Rewriting a destination returns the number of mappings that contain it, replaces it by the new
  destination at every position where it occurs, refreshes exactly these mappings, and leaves
  every other mapping and the rest of the relay as they are.
\<close>

theorem UpdateDestinationInMappings_exact:
  assumes "wf_map (s_proxyMappings s)"
  shows "UpdateDestinationInMappings E oldDest newDest s =
    (int (length (filter (\<lambda>(_, m). hasDest oldDest m) (s_proxyMappings s))),
     s\<lparr>s_proxyMappings := map (\<lambda>(k, m). (k, rewritten E oldDest newDest m)) (s_proxyMappings s)\<rparr>)"
  using assms by (rule UpdateDestination_eq)

text \<open>
  The mapping that \<open>UpdateProxyMapping\<close> stores for an IPv4 source is the one that a packet from
  that source uses.
\<close>

theorem mapping_found_IPv4:
  assumes "To4 (ua_IP a) \<noteq> []" "ua_Zone a = []"
  shows "Load (s_proxyMappings (UpdateProxyMapping E (IP_String (ua_IP a)) (ua_Port a) destinations s)) (UDPAddr_String a)
    = Some \<lparr>pm_Destinations = destinations, pm_LastUsed = e_now E\<rparr>"
proof -
  from assms(1) have "ua_IP a \<noteq> []" by (auto simp: To4_def)
  with assms have "fmtHostPort (IP_String (ua_IP a)) (ua_Port a) = UDPAddr_String a"
    by (simp add: UDPAddr_String_v4 fmtHostPort_def IP_String_def)
  then show ?thesis by (simp add: UpdateProxyMapping_def putMapping_def Let_def Load_Store)
qed

text \<open>
  No packet from an IPv6 source ever uses a mapping stored for that source: the mapping is
  stored under \<open>ip:port\<close> but looked up under \<open>[ip]:port\<close>.
\<close>

theorem mapping_lost_IPv6:
  assumes "To4 (ua_IP a) = []" "length (ua_IP a) = 16" "ua_Zone a = []"
    and "Load (s_proxyMappings s) (UDPAddr_String a) = None"
  shows "handleWireGuardPacket F packet a (UpdateProxyMapping E (IP_String (ua_IP a)) (ua_Port a) destinations s)
    = UpdateProxyMapping E (IP_String (ua_IP a)) (ua_Port a) destinations s"
proof -
  let ?ip = "ip6String (ua_IP a)"
  have ip: "IP_String (ua_IP a) = ?ip" using assms(1,2) by (auto simp: IP_String_def)
  have "?ip \<noteq> []" using ip6String_colon [OF assms(2)] by auto
  moreover have "hd ?ip \<noteq> CHR ''[''" using ip6String_chars [of "hd ?ip" "ua_IP a"] calculation by auto
  ultimately have "fmtHostPort (IP_String (ua_IP a)) (ua_Port a) \<noteq> UDPAddr_String a"
    using UDPAddr_String_v6 [OF assms(1-3)] ip by (cases ?ip) (auto simp: fmtHostPort_def)
  with assms(4) have "Load (s_proxyMappings (UpdateProxyMapping E (IP_String (ua_IP a)) (ua_Port a) destinations s))
      (UDPAddr_String a) = None"
    by (simp add: UpdateProxyMapping_def putMapping_def Let_def Load_Store)
  then show ?thesis by (auto simp: handleWireGuardPacket_def Let_def split: prod.split)
qed

subsection \<open>Witnesses\<close>

theorem UpdateDestinationInMappings_witness:
  "let d = \<lparr>DestinationIP = ''10.0.0.1'', DestinationPort = 1\<rparr>; e = \<lparr>DestinationIP = ''10.0.0.2'', DestinationPort = 1\<rparr> in
   fst (UpdateDestinationInMappings (wEnv 7) d e (wMapped ''k'')) = 1
   \<and> s_proxyMappings (snd (UpdateDestinationInMappings (wEnv 7) d e (wMapped ''k'')))
      = [(''k'', \<lparr>pm_Destinations = [e], pm_LastUsed = 7\<rparr>)]"
  by (simp add: UpdateDestinationInMappings_exact wf_map_def wMapped_def hasDest_def sameDest_def rewritten_def
      replaceDest_def wEnv_def)

theorem mapping_found_IPv4_witness:
  "Load (s_proxyMappings (UpdateProxyMapping (wEnv 7) (IP_String [10, 0, 0, 9]) 1 [] wServer)) (UDPAddr_String (wAddr 9))
    = Some \<lparr>pm_Destinations = [], pm_LastUsed = 7\<rparr>"
  using mapping_found_IPv4 [of "wAddr 9" "wEnv 7" "[]" wServer] by (simp add: wAddr_def To4_def wEnv_def)

theorem mapping_lost_IPv6_witness:
  "let a = \<lparr>ua_IP = 32 # replicate 15 0, ua_Port = 1, ua_Zone = []\<rparr>;
       s = UpdateProxyMapping (wEnv 7) (IP_String (ua_IP a)) 1 [] wServer
   in handleWireGuardPacket (wEnv 7) (1 # replicate 11 0) a s = s"
proof -
  let ?a = "\<lparr>ua_IP = 32 # replicate 15 0, ua_Port = 1, ua_Zone = []\<rparr>"
  have "hd (take 12 (ua_IP ?a)) \<noteq> hd v4InV6Prefix" by (simp add: v4InV6Prefix_def hd_append)
  then have "take 12 (ua_IP ?a) \<noteq> v4InV6Prefix" by metis
  then have "To4 (ua_IP ?a) = []" unfolding To4_def by simp
  then show ?thesis
    using mapping_lost_IPv6 [of ?a wServer "wEnv 7" "1 # replicate 11 0" "wEnv 7" "[]"]
    by (simp add: Let_def wServer_def newServer_def)
qed

end
