(* ===== verification/Relay_HolePunch.thy ===== *)
theory Relay_HolePunch
  imports Relay_Mappings
begin

text \<open>
  The packet workers of \<open>relay/relay.go\<close> and the control-plane side of the relay: \<open>packetWorker\<close> (one
  packet), the hole-punch rate limiter, \<open>decryptMessage\<close>, \<open>notifyServer\<close> and
  \<open>endpointNotifierWorker\<close>, \<open>fetchInitialMappings\<close>, \<open>cleanupHolePunchRateLimiter\<close>,
  \<open>cleanupEndpointCache\<close>, \<open>Stop\<close>.

  Parameters (\<open>ext\<close>): the X25519 and ChaCha20-Poly1305 packages, the key parser of wgtypes, JSON
  decoding of the two messages, the server's key, and the choice Go makes between two ready
  cases of a \<open>select\<close>.  The answer of the upstream service is an argument of \<open>notifyServer\<close>.
  \<open>fetchInitialMappings\<close> reads the response as the token stream that \<open>json.Decoder\<close> delivers.

  \<open>relay_step\<close> is one handler call of the running relay.  Shown: along every run the relay's
  invariant holds, the exported gauges are the table sizes and the queue and cache bounds hold;
  each packet's buffer is released exactly once on every path; at most two hole-punch messages per
  window and four in any second pass the rate limiter; an accepted endpoint is not reported again
  while cached.
\<close>

record EncryptedHolePunchMessage =
  em_EphemeralPublicKey :: string
  em_Nonce :: bytes
  em_Ciphertext :: bytes

record HolePunchMessage =
  hm_OlmID :: string
  hm_NewtID :: string
  hm_Token :: string
  hm_PublicKey :: string

record Packet =
  pk_data :: bytes
  pk_remoteAddr :: UDPAddr
  pk_n :: nat
  pk_buffer :: nat

record ext =
  x_ParseKey :: "string \<Rightarrow> bytes option"
  x_X25519 :: "bytes \<Rightarrow> bytes \<Rightarrow> bytes option"
  x_keyOK :: "bytes \<Rightarrow> bool"
  x_NonceSize :: nat
  x_Open :: "bytes \<Rightarrow> bytes \<Rightarrow> bytes \<Rightarrow> bytes option"
  x_privateKey :: bytes
  x_publicKey :: string
  x_unmarshalEnc :: "bytes \<Rightarrow> EncryptedHolePunchMessage option"
  x_unmarshalMsg :: "bytes \<Rightarrow> HolePunchMessage option"
  x_select :: bool

datatype decryptError = ErrParseKey | ErrKeyExchange | ErrCipher | ErrNonceSize | ErrOpen

definition decryptMessage :: "ext \<Rightarrow> EncryptedHolePunchMessage \<Rightarrow> decryptError + bytes" where
  "decryptMessage X encMsg =
     (case x_ParseKey X (em_EphemeralPublicKey encMsg) of
        None \<Rightarrow> Inl ErrParseKey
      | Some ephPubKey \<Rightarrow>
     (case x_X25519 X (x_privateKey X) ephPubKey of
        None \<Rightarrow> Inl ErrKeyExchange
      | Some sharedSecret \<Rightarrow>
          if \<not> x_keyOK X sharedSecret then Inl ErrCipher
          else if length (em_Nonce encMsg) \<noteq> x_NonceSize X then Inl ErrNonceSize
          else (case x_Open X sharedSecret (em_Nonce encMsg) (em_Ciphertext encMsg) of
                  None \<Rightarrow> Inl ErrOpen
                | Some plaintext \<Rightarrow> Inr plaintext)))"

definition releasePacketBuffer :: "nat \<Rightarrow> server \<Rightarrow> server" where
  "releasePacketBuffer buf s = s\<lparr>s_pool := s_pool s @ [buf]\<rparr>"

text \<open>The limiter: one entry per source address, a counter within a window of one second.\<close>

definition rlUpdate :: "time \<Rightarrow> holePunchRateLimitEntry \<Rightarrow> holePunchRateLimitEntry" where
  "rlUpdate now e =
     (let e = (if second \<le> timeSub now (rl_windowStart e) then \<lparr>rl_count = 0, rl_windowStart = now\<rparr> else e)
      in e\<lparr>rl_count := rl_count e + 1\<rparr>)"

definition rateLimit :: "env \<Rightarrow> string \<Rightarrow> server \<Rightarrow> bool \<times> server" where
  "rateLimit E rateLimitKey s =
     (let (rlEntry, _, m) = loadOrStore rateLimitKey \<lparr>rl_count = 0, rl_windowStart = e_now E\<rparr> (s_holePunchRateLimiter s);
          rlEntry = rlUpdate (e_now E) rlEntry
      in (rl_count rlEntry \<le> 2, s\<lparr>s_holePunchRateLimiter := Store rateLimitKey rlEntry m\<rparr>))"

definition hpEvent :: "string \<Rightarrow> server \<Rightarrow> server" where
  "hpEvent result s = rec_metric (RecordHolePunchEvent relayIfname result) s"

definition mkEndpoint :: "ext \<Rightarrow> env \<Rightarrow> HolePunchMessage \<Rightarrow> UDPAddr \<Rightarrow> server \<Rightarrow> ClientEndpoint" where
  "mkEndpoint X E msg remoteAddr s = \<lparr>
     ep_OlmID = hm_OlmID msg, ep_NewtID = hm_NewtID msg, ep_Token = hm_Token msg,
     ep_IP = IP_String (ua_IP remoteAddr), ep_Port = ua_Port remoteAddr, ep_Timestamp = e_now E div second,
     ep_ReachableAt = s_ReachableAt s, ep_ExitNodePublicKey = x_publicKey X, ep_ClientPublicKey = hm_PublicKey msg\<rparr>"

definition endpointState :: "ClientEndpoint \<Rightarrow> cachedEndpointState" where
  "endpointState e = \<lparr>es_OlmID = ep_OlmID e, es_NewtID = ep_NewtID e, es_Token = ep_Token e,
     es_IP = ep_IP e, es_Port = ep_Port e, es_PublicKey = ep_ClientPublicKey e\<rparr>"

definition cacheKey :: "ClientEndpoint \<Rightarrow> string" where
  "cacheKey e = ep_OlmID e @ '':'' @ ep_NewtID e"

definition queueNotification :: "ext \<Rightarrow> ClientEndpoint \<Rightarrow> server \<Rightarrow> server" where
  "queueNotification X endpoint s =
     (let room = length (s_notifyChan s) < notifyChanCap;
          push = s\<lparr>s_notifyChan := s_notifyChan s @ [endpoint]\<rparr>
      in if room \<and> s_done s then (if x_select X then push else s)
         else if room then push
         else if s_done s then s
         else hpEvent ''queue_full'' s)"

definition handleHolePunch :: "ext \<Rightarrow> env \<Rightarrow> HolePunchMessage \<Rightarrow> UDPAddr \<Rightarrow> server \<Rightarrow> server" where
  "handleHolePunch X E msg remoteAddr s =
     (let endpoint = mkEndpoint X E msg remoteAddr s;
          (entry, cache) = ec_Load (e_now E) (cacheKey endpoint) (s_lastEndpointCache s);
          s = s\<lparr>s_lastEndpointCache := cache\<rparr>;
          notify = (\<lambda>s. hpEvent ''success'' (clearSessionsForIP (ep_IP endpoint) (queueNotification X endpoint s)))
      in case entry of
           Some e \<Rightarrow>
             if ce_state e = endpointState endpoint
             then hpEvent ''success'' (clearSessionsForIP (ep_IP endpoint) (hpEvent ''deduplicated'' s))
             else notify s
         | None \<Rightarrow> notify s)"

definition packetWorker :: "ext \<Rightarrow> env \<Rightarrow> Packet \<Rightarrow> server \<Rightarrow> server" where
  "packetWorker X E packet s =
     (let buf = pk_buffer packet in
      if 0 < pk_n packet \<and> 1 \<le> pk_data packet ! 0 \<and> pk_data packet ! 0 \<le> 4 then
        let s = rec_metric (RecordUDPPacket relayIfname ''wireguard'' ''in'') s;
            s = rec_metric (RecordUDPPacketSize relayIfname ''wireguard'' (of_nat (pk_n packet))) s
        in releasePacketBuffer buf (handleWireGuardPacket E (pk_data packet) (pk_remoteAddr packet) s)
      else
        let s = rec_metric (RecordUDPPacket relayIfname ''hole_punch'' ''in'') s;
            s = rec_metric (RecordUDPPacketSize relayIfname ''hole_punch'' (of_nat (pk_n packet))) s;
            (allowed, s) = rateLimit E (IP_String (ua_IP (pk_remoteAddr packet))) s
        in if \<not> allowed then releasePacketBuffer buf (hpEvent ''rate_limited'' s)
           else case x_unmarshalEnc X (pk_data packet) of
             None \<Rightarrow> releasePacketBuffer buf (hpEvent ''error'' s)
           | Some encMsg \<Rightarrow>
               if em_EphemeralPublicKey encMsg = [] then releasePacketBuffer buf (hpEvent ''error'' s)
               else case decryptMessage X encMsg of
                 Inl _ \<Rightarrow> releasePacketBuffer buf (hpEvent ''error'' s)
               | Inr decryptedData \<Rightarrow>
                   (case x_unmarshalMsg X decryptedData of
                      None \<Rightarrow> releasePacketBuffer buf (hpEvent ''error'' s)
                    | Some msg \<Rightarrow> releasePacketBuffer buf (handleHolePunch X E msg (pk_remoteAddr packet) s)))"

subsection \<open>Notifications to the upstream service\<close>

datatype notifyResult = RequestFailed | Answered int "PeerDestination list option"

definition notifyServer :: "env \<Rightarrow> notifyResult \<Rightarrow> ClientEndpoint \<Rightarrow> server \<Rightarrow> server" where
  "notifyServer E resp endpoint s =
     (case resp of
        RequestFailed \<Rightarrow> s
      | Answered status body \<Rightarrow>
          if status \<noteq> 200 then s
          else case body of
            None \<Rightarrow> s
          | Some dests \<Rightarrow>
              let s = putMapping (fmtHostPort (ep_IP endpoint) (ep_Port endpoint))
                        \<lparr>pm_Destinations = dests, pm_LastUsed = e_now E\<rparr> s
              in s\<lparr>s_lastEndpointCache := ec_Store (cacheKey endpoint)
                     \<lparr>ce_state = endpointState endpoint, ce_cachedAt = e_now E\<rparr> (s_lastEndpointCache s)\<rparr>)"

definition endpointNotifierWorker :: "env \<Rightarrow> notifyResult \<Rightarrow> server \<Rightarrow> server" where
  "endpointNotifierWorker E resp s =
     (case s_notifyChan s of
        [] \<Rightarrow> s
      | endpoint # rest \<Rightarrow> notifyServer E resp endpoint (s\<lparr>s_notifyChan := rest\<rparr>))"

text \<open>
  The response of \<open>get-all-relays\<close> as a token stream: delimiters, strings, other scalars, and at a
  value position a whole value (\<open>JVal\<close>, with what it decodes to as a mapping).  \<open>Token\<close> and \<open>Decode\<close>
  fail at the end of the stream; \<open>More\<close> is false at the end and before a closing delimiter.
\<close>

datatype jtok = JDelim char | JStr string | JOther | JVal "PeerDestination list option"

datatype fetchError = ErrRequest | ErrFetch | ErrStatus | ErrToken | ErrDecode

definition jMore :: "jtok list \<Rightarrow> bool" where
  "jMore ts = (case ts of [] \<Rightarrow> False | t # _ \<Rightarrow> t \<noteq> JDelim CHR ''}'' \<and> t \<noteq> JDelim CHR '']'')"

function fetchInner :: "env \<Rightarrow> jtok list \<Rightarrow> int \<Rightarrow> server \<Rightarrow> (fetchError + jtok list \<times> int) \<times> server" where
  "fetchInner E ts cnt s =
     (if \<not> jMore ts then (Inr (ts, cnt), s)
      else case ts of
        JStr mapKey # JVal (Some dests) # rest \<Rightarrow>
          fetchInner E rest (cnt + 1)
            (s\<lparr>s_proxyMappings := Store mapKey \<lparr>pm_Destinations = dests, pm_LastUsed = e_now E\<rparr> (s_proxyMappings s)\<rparr>)
      | JStr _ # _ \<Rightarrow> (Inl ErrDecode, s)
      | _ \<Rightarrow> (Inl ErrToken, s))"
  by pat_completeness auto
termination by (relation "measure (\<lambda>(_, ts, _, _). length ts)") auto

declare fetchInner.simps [simp del]

lemma fetchInner_suffix:
  "fetchInner E ts cnt s = (Inr (ts', c), t) \<Longrightarrow> length ts' \<le> length ts \<and> \<not> jMore ts'"
proof (induction E ts cnt s rule: fetchInner.induct)
  case (1 E ts cnt s)
  show ?case
    using 1(1) 1(2) [unfolded fetchInner.simps [of E ts]]
    by (fastforce split: if_splits list.splits jtok.splits option.splits)
qed

function fetchOuter :: "env \<Rightarrow> jtok list \<Rightarrow> int \<Rightarrow> server \<Rightarrow> (fetchError + int) \<times> server" where
  "fetchOuter E ts cnt s =
     (if \<not> jMore ts then (Inr cnt, s)
      else case ts of
        JStr key # rest \<Rightarrow>
          if key \<noteq> ''mappings'' then
            (case rest of JVal _ # rest' \<Rightarrow> fetchOuter E rest' cnt s | _ \<Rightarrow> (Inl ErrDecode, s))
          else
            (case rest of
               JDelim c # rest' \<Rightarrow>
                 if c \<noteq> CHR ''{'' then (Inl ErrToken, s)
                 else (case fetchInner E rest' cnt s of
                         (Inl e, s') \<Rightarrow> (Inl e, s')
                       | (Inr (ts', cnt'), s') \<Rightarrow>
                           (case ts' of [] \<Rightarrow> (Inl ErrToken, s') | _ # ts'' \<Rightarrow> fetchOuter E ts'' cnt' s'))
             | _ \<Rightarrow> (Inl ErrToken, s))
      | _ \<Rightarrow> (Inl ErrToken, s))"
  by pat_completeness auto
termination
proof (relation "measure (\<lambda>(_, ts, _, _). length ts)", goal_cases)
  case (3 E ts cnt s x21 x22 x2 y21 y22 x1 a b x2a xa y z21 z22)
  from 3(8-10) have "fetchInner E y22 cnt s = (Inr (xa, y), b)" by simp
  from fetchInner_suffix [OF this] 3 show ?case by simp
qed auto

declare fetchOuter.simps [simp del]

datatype fetchResponse = FRequestErr | FFetchErr | FAnswered int "jtok list"

definition fetchInitialMappings :: "env \<Rightarrow> fetchResponse \<Rightarrow> server \<Rightarrow> fetchError option \<times> server" where
  "fetchInitialMappings E resp s =
     (case resp of
        FRequestErr \<Rightarrow> (Some ErrRequest, s)
      | FFetchErr \<Rightarrow> (Some ErrFetch, s)
      | FAnswered status ts \<Rightarrow>
          if status \<noteq> 200 then (Some ErrStatus, s)
          else (case ts of
                  JDelim c # rest \<Rightarrow>
                    if c \<noteq> CHR ''{'' then (Some ErrToken, s)
                    else (case fetchOuter E rest 0 s of
                            (Inl e, s') \<Rightarrow> (Some e, s')
                          | (Inr cnt, s') \<Rightarrow>
                              (None, rec_metric (RecordProxyMapping relayIfname cnt)
                                       (rec_metric (RecordProxyInitialMappings relayIfname cnt) s')))
                | _ \<Rightarrow> (Some ErrToken, s)))"

subsection \<open>Periodic clean-up and shutdown\<close>

definition cleanupHolePunchRateLimiter :: "env \<Rightarrow> server \<Rightarrow> server" where
  "cleanupHolePunchRateLimiter E s =
     s\<lparr>s_holePunchRateLimiter := fold (\<lambda>(key, rlEntry) m.
          if 10 * second < timeSub (e_now E) (rl_windowStart rlEntry) then Delete key m else m)
        (s_holePunchRateLimiter s) (s_holePunchRateLimiter s)\<rparr>"

definition cleanupEndpointCache :: "env \<Rightarrow> server \<Rightarrow> server" where
  "cleanupEndpointCache E s = s\<lparr>s_lastEndpointCache := ec_DeleteExpired (e_now E) (s_lastEndpointCache s)\<rparr>"

text \<open>\<open>Stop\<close>; \<open>None\<close> is the panic of closing a closed channel.\<close>

definition Stop :: "server \<Rightarrow> server option" where
  "Stop s =
     (let s = s\<lparr>s_done := True, s_closed := s_closed s @ map (\<lambda>(_, dc). uc_id (dc_conn dc)) (s_connections s)\<rparr>
      in if s_packetChanClosed s then None else Some (s\<lparr>s_packetChanClosed := True\<rparr>))"

text \<open>The decisions of the limiter for a sequence of messages from one address.\<close>

fun rlRun :: "string \<Rightarrow> env list \<Rightarrow> server \<Rightarrow> bool list" where
  "rlRun k [] s = []"
| "rlRun k (E # Es) s = (let (allowed, s') = rateLimit E k s in allowed # rlRun k Es s')"

definition allowedCount :: "bool list \<Rightarrow> nat" where
  "allowedCount bs = length (filter id bs)"

text \<open>Concrete parameters for the witnesses: nothing decrypts.\<close>

definition wExt :: ext where
  "wExt = \<lparr>x_ParseKey = (\<lambda>_. None), x_X25519 = (\<lambda>_ _. None), x_keyOK = (\<lambda>_. True), x_NonceSize = 12,
     x_Open = (\<lambda>_ _ _. None), x_privateKey = [], x_publicKey = [], x_unmarshalEnc = (\<lambda>_. None),
     x_unmarshalMsg = (\<lambda>_. None), x_select = True\<rparr>"

definition wMsg :: HolePunchMessage where
  "wMsg = \<lparr>hm_OlmID = ''o'', hm_NewtID = ''n'', hm_Token = ''t'', hm_PublicKey = ''p''\<rparr>"

subsection \<open>The running relay\<close>

text \<open>One call of a handler, or a change of the order in which Go visits a map.\<close>

inductive relay_step :: "server \<Rightarrow> server \<Rightarrow> bool" where
  rs_packet: "env_ok E \<Longrightarrow> plain (pk_remoteAddr packet) \<Longrightarrow> relay_step s (packetWorker X E packet s)"
| rs_response: "env_ok E \<Longrightarrow> g \<in> set (s_responders s) \<Longrightarrow> relay_step s (handleResponses E g input s)"
| rs_notify: "relay_step s (endpointNotifierWorker E resp s)"
| rs_mapping: "relay_step s (UpdateProxyMapping E ip port dests s)"
| rs_update: "relay_step s (snd (UpdateDestinationInMappings E oldDest newDest s))"
| rs_peer: "relay_step s (clearConnectionsForWGIP ip s)"
| rs_idle_conns: "relay_step s (cleanupIdleConnections E s)"
| rs_idle_sessions: "relay_step s (cleanupIdleSessions E s)"
| rs_idle_mappings: "relay_step s (cleanupIdleProxyMappings E s)"
| rs_idle_patterns: "relay_step s (cleanupIdleCommunicationPatterns E s)"
| rs_limiter: "relay_step s (cleanupHolePunchRateLimiter E s)"
| rs_cache: "relay_step s (cleanupEndpointCache E s)"
| rs_order: "mset conns = mset (s_connections s) \<Longrightarrow> mset sess = mset (s_wgSessions s) \<Longrightarrow>
     mset patts = mset (s_commPatterns s) \<Longrightarrow> mset maps = mset (s_proxyMappings s) \<Longrightarrow>
     relay_step s (s\<lparr>s_connections := conns, s_wgSessions := sess, s_commPatterns := patts, s_proxyMappings := maps\<rparr>)"

definition relay_inv :: "server \<Rightarrow> bool" where
  "relay_inv s \<longleftrightarrow> relay_ok s \<and> map_inv s \<and> cache_inv (s_lastEndpointCache s)
     \<and> ec_maxEntries (s_lastEndpointCache s) = maxEndpointCacheEntries
     \<and> ec_ttl (s_lastEndpointCache s) = endpointCacheTTL
     \<and> length (s_notifyChan s) \<le> notifyChanCap"

text \<open>What a packet leaves alone: the buffers of the pool (its own apart), the context and the channel.\<close>

definition run_part :: "server \<Rightarrow> nat list \<times> bool \<times> bool" where
  "run_part s = (s_pool s, s_done s, s_packetChanClosed s)"

subsection \<open>Preservation of the invariant\<close>

lemma relay_inv_parts:
  assumes "relay_inv s" "relay_ok t" "map_inv t" "rest_part t = rest_part s"
  shows "relay_inv t"
  using assms by (simp add: relay_inv_def rest_part_def)

lemma map_inv_part: "map_part t = map_part s \<Longrightarrow> map_inv t = map_inv s"
  by (simp add: map_part_def map_inv_def)

lemma map_inv_keys:
  assumes "map_inv s" "map fst (s_proxyMappings t) = map fst (s_proxyMappings s)" "mapGauge t = mapGauge s"
  shows "map_inv t"
  using assms map_eq_imp_length_eq [OF assms(2)] by (simp add: map_inv_def wf_map_def)

lemma release_inv [simp]: "relay_inv (releasePacketBuffer b s) = relay_inv s"
proof -
  have "relay_ok (releasePacketBuffer b s) = relay_ok s"
    by (rule relay_ok_cong) (simp_all add: releasePacketBuffer_def part_defs)
  then show ?thesis by (simp add: relay_inv_def map_inv_def releasePacketBuffer_def)
qed

lemma quiet_inv [simp]: "quiet c \<Longrightarrow> relay_inv (rec_metric c s) = relay_inv s"
  using map_inv_part [of "rec_metric c s" s] by (simp add: relay_inv_def)

lemma hpEvent_inv [simp]: "relay_inv (hpEvent r s) = relay_inv s"
  by (simp add: hpEvent_def)

lemma rateLimit_inv: "relay_inv s \<Longrightarrow> rateLimit E k s = (b, t) \<Longrightarrow> relay_inv t"
proof -
  assume inv: "relay_inv s" and r: "rateLimit E k s = (b, t)"
  obtain m where t: "t = s\<lparr>s_holePunchRateLimiter := m\<rparr>"
    using r by (auto simp: rateLimit_def Let_def split: prod.splits)
  have "relay_ok t = relay_ok s" by (rule relay_ok_cong) (simp_all add: t part_defs)
  with inv show ?thesis by (simp add: relay_inv_def map_inv_def t)
qed

lemma sess_change_relay:
  assumes "relay_ok s" "sess_inv t" "other_eq t s" "s_heap t = s_heap s" "set (s_commPatterns t) \<subseteq> set (s_commPatterns s)"
  shows "relay_ok t"
proof -
  note o = other_parts [OF assms(3)]
  have "s_responders t = s_responders s" using o by (simp add: pool_part_def)
  with assms o have "addrs_ok t" by (auto simp: relay_ok_def addrs_ok_def)
  with assms o show ?thesis
    using pool_ok_part [of t s] routes_ok_part [of t s] by (simp add: relay_ok_def)
qed

lemma other_inv:
  assumes "relay_inv s" "relay_ok t" "other_eq t s"
  shows "relay_inv t"
  using assms other_parts [OF assms(3)] map_inv_part [of t s] by (simp add: relay_inv_def rest_part_def)

lemma clearSessions_inv: "relay_inv s \<Longrightarrow> relay_inv (clearSessionsForIP ip s)"
proof -
  assume inv: "relay_inv s"
  then have s: "relay_ok s" "sess_inv s" by (auto simp: relay_inv_def relay_ok_def)
  then have wf: "wf_map (s_wgSessions s)" by (simp add: sess_inv_def)
  note tab = clearSessionsForIP_tables [OF wf, of ip]
  have "relay_ok (clearSessionsForIP ip s)"
    by (rule sess_change_relay [OF s(1) clearSessionsForIP_inv [OF s(2)] tab(5,3)]) (simp add: tab(4))
  with inv tab(5) show ?thesis by (blast intro: other_inv)
qed

lemma queue_inv: "relay_inv s \<Longrightarrow> relay_inv (queueNotification X e s)"
proof -
  assume inv: "relay_inv s"
  have "relay_ok (s\<lparr>s_notifyChan := q\<rparr>) = relay_ok s" for q
    by (rule relay_ok_cong) (simp_all add: part_defs)
  with inv have "relay_inv (s\<lparr>s_notifyChan := q\<rparr>)" if "length q \<le> notifyChanCap" for q
    using that by (simp add: relay_inv_def map_inv_def)
  with inv show ?thesis by (auto simp: queueNotification_def Let_def)
qed

lemma setCache_inv:
  assumes "relay_inv s" "cache_inv c" "ec_maxEntries c = ec_maxEntries (s_lastEndpointCache s)"
    "ec_ttl c = ec_ttl (s_lastEndpointCache s)"
  shows "relay_inv (s\<lparr>s_lastEndpointCache := c\<rparr>)"
proof -
  have "relay_ok (s\<lparr>s_lastEndpointCache := c\<rparr>) = relay_ok s" by (rule relay_ok_cong) (simp_all add: part_defs)
  with assms show ?thesis by (simp add: relay_inv_def map_inv_def)
qed

lemma handleHolePunch_inv:
  assumes "relay_inv s"
  shows "relay_inv (handleHolePunch X E msg a s)"
proof -
  let ?e = "mkEndpoint X E msg a s"
  obtain entry c where l: "ec_Load (e_now E) (cacheKey ?e) (s_lastEndpointCache s) = (entry, c)" by force
  have "cache_step (s_lastEndpointCache s) c" using cs_load [of _ "e_now E" "cacheKey ?e"] l by (metis snd_conv)
  from cache_step_max [OF this] cache_step_inv [OF this] assms have "relay_inv (s\<lparr>s_lastEndpointCache := c\<rparr>)"
    by (intro setCache_inv) (auto simp: relay_inv_def)
  then show ?thesis
    by (auto simp: handleHolePunch_def Let_def l intro!: clearSessions_inv queue_inv split: option.split)
qed

lemma packetWorker_inv:
  assumes "relay_inv s" "env_ok E" "plain (pk_remoteAddr packet)"
  shows "relay_inv (packetWorker X E packet s)"
proof -
  define u where "u = rec_metric (RecordUDPPacketSize relayIfname ''wireguard'' (of_nat (pk_n packet)))
     (rec_metric (RecordUDPPacket relayIfname ''wireguard'' ''in'') s)"
  let ?h = "handleWireGuardPacket E (pk_data packet) (pk_remoteAddr packet) u"
  have u: "relay_inv u" using assms(1) by (simp add: u_def)
  then have "wg_post E (pk_data packet) (pk_remoteAddr packet) u ?h"
    by (intro handle_post assms) (simp add: relay_inv_def)
  then have h: "relay_ok ?h" "rest_part ?h = rest_part u" "mapGauge ?h = mapGauge u"
    "map fst (s_proxyMappings ?h) = map fst (s_proxyMappings u)" by (auto simp: wg_post_def)
  from u have "map_inv u" by (simp add: relay_inv_def)
  from map_inv_keys [OF this h(4,3)] have wg: "relay_inv ?h" by (rule relay_inv_parts [OF u h(1) _ h(2)])
  define v where "v = rec_metric (RecordUDPPacketSize relayIfname ''hole_punch'' (of_nat (pk_n packet)))
     (rec_metric (RecordUDPPacket relayIfname ''hole_punch'' ''in'') s)"
  obtain b w where r: "rateLimit E (IP_String (ua_IP (pk_remoteAddr packet))) v = (b, w)" by force
  have "relay_inv v" using assms(1) by (simp add: v_def)
  with r have "relay_inv w" using rateLimit_inv by blast
  with wg r show ?thesis
    using handleHolePunch_inv [of w X E _ "pk_remoteAddr packet"]
    by (auto simp: packetWorker_def Let_def u_def [symmetric] v_def [symmetric] split: option.split sum.split)
qed

lemma putMapping_inv:
  assumes "relay_inv s"
  shows "relay_inv (putMapping k m s)"
proof (rule relay_inv_parts [OF assms])
  show "map_inv (putMapping k m s)" using assms by (simp add: relay_inv_def map_inv_putMapping)
  have "relay_ok (putMapping k m s) = relay_ok s"
    by (rule relay_ok_cong) (simp_all add: putMapping_def Let_def part_defs)
  with assms show "relay_ok (putMapping k m s)" by (simp add: relay_inv_def)
qed (simp add: putMapping_def Let_def rest_part_def)

lemma notify_inv:
  assumes "relay_inv s"
  shows "relay_inv (notifyServer E resp e s)"
proof -
  have "relay_inv ((putMapping k m s)\<lparr>s_lastEndpointCache := ec_Store ck en (s_lastEndpointCache (putMapping k m s))\<rparr>)" for k m ck en
    using putMapping_inv [OF assms] cache_step_max [OF cs_store] ec_Store_inv
    by (intro setCache_inv) (auto simp: relay_inv_def)
  with assms show ?thesis by (auto simp: notifyServer_def Let_def split: notifyResult.split option.split)
qed

lemma notifier_inv:
  assumes "relay_inv s"
  shows "relay_inv (endpointNotifierWorker E resp s)"
proof (cases "s_notifyChan s")
  case (Cons e rest)
  have "relay_ok (s\<lparr>s_notifyChan := rest\<rparr>) = relay_ok s" by (rule relay_ok_cong) (simp_all add: part_defs)
  with assms Cons have "relay_inv (s\<lparr>s_notifyChan := rest\<rparr>)" by (simp add: relay_inv_def map_inv_def)
  then show ?thesis using Cons by (simp add: endpointNotifierWorker_def notify_inv)
qed (use assms in \<open>simp add: endpointNotifierWorker_def\<close>)

lemma update_inv: "relay_inv s \<Longrightarrow> relay_inv (snd (UpdateDestinationInMappings E old new s))"
  by (auto simp: UpdateDestination_eq relay_inv_def map_inv_def wf_map_def case_prod_beta o_def)

lemma swept_sockets: "sockets_ok s \<Longrightarrow> sockets_ok (swept P s)"
proof -
  assume ok: "sockets_ok s"
  let ?id = "\<lambda>(k :: string, dc). uc_id (dc_conn dc)"
  have "mset (map ?id xs) = mset (map ?id (filter (\<lambda>(k, dc). \<not> P k dc) xs)) + mset (map ?id (filter (\<lambda>(k, dc). P k dc) xs))"
    for xs by (induction xs) (auto simp: case_prod_beta)
  with ok show ?thesis
    by (simp add: sockets_ok_def swept_def openIds_def add_ac)
qed

lemma swept_relay:
  assumes "relay_ok s" "n = int (length (filter (\<lambda>(k, dc). P k dc) (s_connections s)))"
  shows "relay_ok (clearReport n (swept P s))" "relay_ok (idleReport n (swept P s))"
    "map_part (clearReport n (swept P s)) = map_part s" "map_part (idleReport n (swept P s)) = map_part s"
    "rest_part (clearReport n (swept P s)) = rest_part s" "rest_part (idleReport n (swept P s)) = rest_part s"
proof -
  let ?w = "swept P s"
  from assms have ok: "sess_inv s" "pool_ok s" "routes_ok s" "addrs_ok s" by (auto simp: relay_ok_def)
  have len: "int (length (s_connections ?w)) = int (length (s_connections s)) - n"
    using length_filter_pairs [of "s_connections s" P] by (simp add: swept_def assms(2))
  have sub: "set (s_connections ?w) \<subseteq> set (s_connections s)" by (auto simp: swept_def)
  have w: "sockets_ok ?w" using ok(2) by (simp add: pool_ok_def swept_sockets)
  have keep: "s_connections (clearReport n ?w) = s_connections ?w" "s_connections (idleReport n ?w) = s_connections ?w"
    "sess_part (clearReport n ?w) = sess_part s" "sess_part (idleReport n ?w) = sess_part s"
    "s_addrCache (clearReport n ?w) = s_addrCache s" "s_addrCache (idleReport n ?w) = s_addrCache s"
    "s_responders (clearReport n ?w) = s_responders s" "s_responders (idleReport n ?w) = s_responders s"
    by (simp_all add: clearReport_def idleReport_def swept_def sess_part_def)
  have "pool_ok (clearReport n ?w)" "pool_ok (idleReport n ?w)"
    using ok(2) w len assms(2)
    by (auto simp: pool_ok_def clearReport_def idleReport_def sockets_ok_def openIds_def) (auto simp: swept_def)
  moreover have "routes_ok (clearReport n ?w)" "routes_ok (idleReport n ?w)"
    using ok(3) sub keep(1,2) by (auto simp: routes_ok_def)
  moreover have "sess_inv (clearReport n ?w)" "sess_inv (idleReport n ?w)"
    using ok(1) sess_inv_part [OF keep(3)] sess_inv_part [OF keep(4)] by simp_all
  moreover have "addrs_ok (clearReport n ?w)" "addrs_ok (idleReport n ?w)"
    using ok(4) addrs_ok_cong [OF keep(5,3,7)] addrs_ok_cong [OF keep(6,4,8)] by simp_all
  ultimately show "relay_ok (clearReport n ?w)" "relay_ok (idleReport n ?w)" by (simp_all add: relay_ok_def)
  show "map_part (clearReport n ?w) = map_part s" "map_part (idleReport n ?w) = map_part s"
    "rest_part (clearReport n ?w) = rest_part s" "rest_part (idleReport n ?w) = rest_part s"
    by (simp_all add: clearReport_def idleReport_def swept_def map_part_def rest_part_def)
qed

lemma sweeps_inv:
  assumes "relay_inv s"
  shows "relay_inv (clearConnectionsForWGIP ip s)" "relay_inv (cleanupIdleConnections E s)"
proof -
  from assms have r: "relay_ok s" and wf: "wf_map (s_connections s)"
    by (auto simp: relay_inv_def relay_ok_def pool_ok_def sockets_ok_def)
  have *: "relay_inv t" if "relay_ok t" "map_part t = map_part s" "rest_part t = rest_part s" for t
    using that assms map_inv_part [of t s] by (intro relay_inv_parts [OF assms]) (auto simp: relay_inv_def)
  show "relay_inv (clearConnectionsForWGIP ip s)"
    using swept_relay(1,3,5) [OF r refl] by (intro *) (simp_all add: clearConnectionsForWGIP_def sweep_swept [OF wf])
  show "relay_inv (cleanupIdleConnections E s)"
    using swept_relay(2,4,6) [OF r refl]
    by (intro *) (simp_all add: cleanupIdleConnections_def sweep_swept [OF wf])
qed

lemma cleanups_inv:
  assumes "relay_inv s"
  shows "relay_inv (cleanupIdleSessions E s)" "relay_inv (cleanupIdleCommunicationPatterns E s)"
    "relay_inv (cleanupIdleProxyMappings E s)"
proof -
  from assms have r: "relay_ok s" "sess_inv s" "map_inv s" by (auto simp: relay_inv_def relay_ok_def)
  then have wf: "wf_map (s_wgSessions s)" "wf_map (s_commPatterns s)" "wf_map (s_proxyMappings s)"
    by (auto simp: sess_inv_def map_inv_def)
  note s = cleanupIdleSessions_tables [OF wf(1), of E] and p = cleanupPatterns_tables [OF wf(2), of E]
    and m = cleanupMappings_tables [OF wf(3), of E]
  have "relay_ok (cleanupIdleSessions E s)"
    by (rule sess_change_relay [OF r(1) cleanupIdleSessions_inv [OF r(2)] s(4,3)]) (simp add: s(5))
  then show "relay_inv (cleanupIdleSessions E s)" using assms s(4) by (blast intro: other_inv)
  have "relay_ok (cleanupIdleCommunicationPatterns E s)"
    by (rule sess_change_relay [OF r(1) cleanupPatterns_inv [OF r(2)] p(4,3)]) (auto simp: p(1))
  then show "relay_inv (cleanupIdleCommunicationPatterns E s)" using assms p(4) by (blast intro: other_inv)
  have "relay_ok (cleanupIdleProxyMappings E s) = relay_ok s" by (rule relay_ok_cong [OF m(3,4,6)])
  then show "relay_inv (cleanupIdleProxyMappings E s)"
    using r map_inv_cleanup [OF r(3), of E] by (intro relay_inv_parts [OF assms _ _ m(5)]) simp_all
qed

lemma order_inv:
  assumes "relay_inv s" "mset conns = mset (s_connections s)" "mset sess = mset (s_wgSessions s)"
    "mset patts = mset (s_commPatterns s)" "mset maps = mset (s_proxyMappings s)"
  shows "relay_inv (s\<lparr>s_connections := conns, s_wgSessions := sess, s_commPatterns := patts, s_proxyMappings := maps\<rparr>)"
proof -
  note sets = mset_eq_setD [OF assms(2)] mset_eq_setD [OF assms(3)] mset_eq_setD [OF assms(4)]
  note lens = mset_eq_length [OF assms(2)] mset_eq_length [OF assms(3)] mset_eq_length [OF assms(4)] mset_eq_length [OF assms(5)]
  note wfs = wf_map_mset [OF assms(2)] wf_map_mset [OF assms(3)] wf_map_mset [OF assms(4)] wf_map_mset [OF assms(5)]
  have ids: "mset (map f conns) = mset (map f (s_connections s))" for f :: "string \<times> DestinationConn \<Rightarrow> nat"
    using assms(2) by simp
  let ?t = "s\<lparr>s_connections := conns, s_wgSessions := sess, s_commPatterns := patts, s_proxyMappings := maps\<rparr>"
  from assms(1) have ok: "sess_inv s" "pool_ok s" "routes_ok s" "addrs_ok s" "map_inv s"
    by (auto simp: relay_inv_def relay_ok_def)
  have "sess_inv ?t" using ok(1) by (simp add: sess_inv_def sets lens wfs)
  moreover have "pool_ok ?t" using ok(2) ids by (simp add: pool_ok_def sockets_ok_def openIds_def lens wfs)
  moreover have "routes_ok ?t" using ok(3) by (simp add: routes_ok_def sets)
  moreover have "addrs_ok ?t" using ok(4) by (simp add: addrs_ok_def sets)
  moreover have "map_inv ?t" using ok(5) by (simp add: map_inv_def lens wfs)
  ultimately show ?thesis
    by (intro relay_inv_parts [OF assms(1)]) (simp_all add: relay_ok_def rest_part_def)
qed

lemma relay_step_inv: "relay_step s t \<Longrightarrow> relay_inv s \<Longrightarrow> relay_inv t"
proof (induction rule: relay_step.induct)
  case (rs_response E g s input)
  then have r: "relay_ok (handleResponses E g input s) \<and> map_part (handleResponses E g input s) = map_part s
      \<and> rest_part (handleResponses E g input s) = rest_part s"
    by (intro handleResponses_relay) (simp_all add: relay_inv_def)
  then show ?case
    using rs_response(3) map_inv_part [of "handleResponses E g input s" s]
    by (intro relay_inv_parts [OF rs_response(3)]) (auto simp: relay_inv_def)
next
  case (rs_limiter s E)
  have "relay_ok (cleanupHolePunchRateLimiter E s) = relay_ok s"
    by (rule relay_ok_cong) (simp_all add: cleanupHolePunchRateLimiter_def part_defs)
  with rs_limiter show ?case by (simp add: relay_inv_def map_inv_def cleanupHolePunchRateLimiter_def)
next
  case (rs_cache s E)
  then show ?case
    unfolding cleanupEndpointCache_def
    by (intro setCache_inv) (auto simp: relay_inv_def ec_DeleteExpired_inv, auto simp: ec_DeleteExpired_def)
next
  case (rs_order conns s sess patts maps)
  then show ?case by (intro order_inv)
qed (auto intro: packetWorker_inv notifier_inv putMapping_inv update_inv sweeps_inv cleanups_inv
    simp: UpdateProxyMapping_def)

interpretation relay_sys: step_system relay_step relay_inv
  by unfold_locales (rule relay_step_inv)

lemma newServer_inv: "relay_inv (newServer url reach)"
proof -
  have "sess_inv (newServer url reach)" "pool_ok (newServer url reach)" "routes_ok (newServer url reach)"
    "addrs_ok (newServer url reach)" "map_inv (newServer url reach)"
    by (simp_all add: newServer_def sess_inv_def pool_ok_def sockets_ok_def openIds_def routes_ok_def addrs_ok_def map_inv_def)
  then show ?thesis
    by (simp add: relay_inv_def relay_ok_def)
      (simp add: newServer_def cache_inv_def newEndpointCache_def maxEndpointCacheEntries_def)
qed

subsection \<open>Frames without assumptions\<close>

lemma sendVia_rest: "rest_part (sendVia E p r tr a s) = rest_part s"
proof -
  obtain c u where g: "getOrCreateConnection E a r s = (c, u)" by force
  have "rest_part u = rest_part s" using getOrCreate_parts(3) [of E a r s] by (simp add: g)
  then show ?thesis
    using other_parts [OF trackOpt_other [of E r a tr u]] writeOut_parts(3)
    by (auto simp: sendVia_def g split: option.split)
qed

lemma forwardDest_rest: "rest_part (forwardDest E p r tr d s) = rest_part s"
proof -
  obtain x u where g: "getCachedAddr E (DestinationIP d) (DestinationPort d) s = (x, u)" by force
  have "rest_part u = rest_part s"
    using getCachedAddr_parts(4) [of E "DestinationIP d" "DestinationPort d" s] by (simp add: g)
  then show ?thesis by (auto simp: forwardDest_def g sendVia_rest split: option.split)
qed

lemma forwardAll_rest: "rest_part (fold (forwardDest E p r tr) ds s) = rest_part s"
  by (induction ds arbitrary: s) (simp_all add: forwardDest_rest)

lemma handleWireGuardPacket_rest: "rest_part (handleWireGuardPacket E p r s) = rest_part s"
proof -
  have m: "rest_part (s\<lparr>s_proxyMappings := m\<rparr>) = rest_part s" for m by (simp add: rest_part_def)
  have l: "rest_part (learnSession E k ri si a u) = rest_part u" for k ri si a u
    using other_parts [OF learnSession_other [of E k ri si a u]] by simp
  have u: "rest_part (UpdateLastSeen E q u) = rest_part u" for q u by (simp add: rest_part_def)
  show ?thesis
    by (auto simp: handleWireGuardPacket_def Let_def m l u forwardAll_rest sendVia_rest split: prod.split option.split)
qed

lemma clearSessions_rest: "rest_part (clearSessionsForIP ip s) = rest_part s"
  by (simp add: clearSessionsForIP_def Let_def rest_part_def)

lemma rest_run: "rest_part t = rest_part s \<Longrightarrow> run_part t = run_part s"
  by (simp add: rest_part_def run_part_def)

lemma handleHolePunch_run: "run_part (handleHolePunch X E msg a s) = run_part s"
proof -
  have "s_pool (clearSessionsForIP ip u) = s_pool u" "s_done (clearSessionsForIP ip u) = s_done u"
    "s_packetChanClosed (clearSessionsForIP ip u) = s_packetChanClosed u" for ip u
    using clearSessions_rest [of ip u] by (simp_all add: rest_part_def)
  then show ?thesis
    by (auto simp: run_part_def handleHolePunch_def Let_def hpEvent_def queueNotification_def split: prod.split option.split)
qed

lemma rateLimit_run: "rateLimit E k s = (b, t) \<Longrightarrow> run_part t = run_part s"
  by (auto simp: rateLimit_def run_part_def Let_def split: prod.splits)

lemma rec_metric_run [simp]: "run_part (rec_metric c s) = run_part s"
  by (simp add: run_part_def)

lemma release_run: "run_part t = run_part s \<Longrightarrow>
    run_part (releasePacketBuffer b t) = (s_pool s @ [b], s_done s, s_packetChanClosed s)"
  by (simp add: releasePacketBuffer_def run_part_def)

lemma packetWorker_run:
  "run_part (packetWorker X E packet s) = (s_pool s @ [pk_buffer packet], s_done s, s_packetChanClosed s)"
proof -
  have h: "run_part (handleWireGuardPacket E p r u) = run_part u" for p r u
    by (rule rest_run [OF handleWireGuardPacket_rest])
  define v where "v = rec_metric (RecordUDPPacketSize relayIfname ''hole_punch'' (of_nat (pk_n packet)))
     (rec_metric (RecordUDPPacket relayIfname ''hole_punch'' ''in'') s)"
  obtain b w where r: "rateLimit E (IP_String (ua_IP (pk_remoteAddr packet))) v = (b, w)" by force
  have w: "run_part w = run_part s" using rateLimit_run [OF r] by (simp add: v_def)
  show ?thesis
    unfolding packetWorker_def Let_def v_def [symmetric] r prod.case
    by (simp add: release_run hpEvent_def h handleHolePunch_run w split: option.split sum.split)
qed

subsection \<open>The rate limiter\<close>

lemma rateLimit_entry:
  "fst (rateLimit E k s) \<longleftrightarrow> rl_count (rlUpdate (e_now E) (case Load (s_holePunchRateLimiter s) k of
      Some e \<Rightarrow> e | None \<Rightarrow> \<lparr>rl_count = 0, rl_windowStart = e_now E\<rparr>)) \<le> 2"
  "Load (s_holePunchRateLimiter (snd (rateLimit E k s))) k = Some (rlUpdate (e_now E) (case Load (s_holePunchRateLimiter s) k of
      Some e \<Rightarrow> e | None \<Rightarrow> \<lparr>rl_count = 0, rl_windowStart = e_now E\<rparr>))"
  by (auto simp: rateLimit_def Let_def loadOrStore_def Load_Store split: option.split)

text \<open>After \<open>c\<close> messages in the current window, at most \<open>2 - c\<close> more pass before the window ends.\<close>

lemma rl_window:
  assumes "Load (s_holePunchRateLimiter s) k = Some e" "0 \<le> rl_count e"
    and "\<And>E. E \<in> set Es \<Longrightarrow> e_now E - rl_windowStart e < second"
  shows "int (allowedCount (rlRun k Es s)) \<le> max 0 (2 - rl_count e)"
  using assms
proof (induction Es arbitrary: s e)
  case (Cons E Es)
  let ?s = "snd (rateLimit E k s)" and ?e = "e\<lparr>rl_count := rl_count e + 1\<rparr>"
  have u: "rlUpdate (e_now E) e = ?e" using Cons.prems(3) [of E] by (simp add: rlUpdate_def)
  have ld: "Load (s_holePunchRateLimiter ?s) k = Some ?e" using rateLimit_entry(2) [of E k s] Cons.prems(1) u by simp
  have al: "fst (rateLimit E k s) \<longleftrightarrow> rl_count e \<le> 1" using rateLimit_entry(1) [of E k s] Cons.prems(1) u by auto
  have "int (allowedCount (rlRun k Es ?s)) \<le> max 0 (2 - rl_count ?e)"
    by (rule Cons.IH [OF ld]) (use Cons.prems in auto)
  then show ?case using al by (auto simp: case_prod_beta allowedCount_def)
qed (simp add: allowedCount_def)

text \<open>Within one second the window is reset at most once.\<close>

lemma rl_second:
  assumes "Load (s_holePunchRateLimiter s) k = Some e" "0 \<le> rl_count e"
    and "\<And>E. E \<in> set Es \<Longrightarrow> t0 \<le> e_now E \<and> e_now E < t0 + second"
  shows "int (allowedCount (rlRun k Es s)) \<le> max 0 (2 - rl_count e) + 2"
  using assms
proof (induction Es arbitrary: s e)
  case (Cons E Es)
  let ?s = "snd (rateLimit E k s)"
  show ?case
  proof (cases "second \<le> e_now E - rl_windowStart e")
    case True
    let ?e = "\<lparr>rl_count = 1, rl_windowStart = e_now E\<rparr>"
    have u: "rlUpdate (e_now E) e = ?e" using True by (simp add: rlUpdate_def)
    have ld: "Load (s_holePunchRateLimiter ?s) k = Some ?e" using rateLimit_entry(2) [of E k s] Cons.prems(1) u by simp
    have "e_now F - rl_windowStart ?e < second" if "F \<in> set Es" for F
      using Cons.prems(3) [of E] Cons.prems(3) [of F] that by auto
    from rl_window [OF ld _ this] have "int (allowedCount (rlRun k Es ?s)) \<le> 1" by simp
    then show ?thesis by (auto simp: case_prod_beta allowedCount_def max_def)
  next
    case False
    let ?e = "e\<lparr>rl_count := rl_count e + 1\<rparr>"
    have u: "rlUpdate (e_now E) e = ?e" using False by (simp add: rlUpdate_def)
    have ld: "Load (s_holePunchRateLimiter ?s) k = Some ?e" using rateLimit_entry(2) [of E k s] Cons.prems(1) u by simp
    have al: "fst (rateLimit E k s) \<longleftrightarrow> rl_count e \<le> 1" using rateLimit_entry(1) [of E k s] Cons.prems(1) u by auto
    have "int (allowedCount (rlRun k Es ?s)) \<le> max 0 (2 - rl_count ?e) + 2"
      by (rule Cons.IH [OF ld]) (use Cons.prems in auto)
    then show ?thesis using al by (auto simp: case_prod_beta allowedCount_def)
  qed
qed (simp add: allowedCount_def)

subsection \<open>The initial load\<close>

lemma fetchInner_pairs:
  "fetchInner E (concat (map (\<lambda>(k, ds). [JStr k, JVal (Some ds)]) ms) @ JDelim CHR ''}'' # rest) cnt s
    = (Inr (JDelim CHR ''}'' # rest, cnt + int (length ms)),
       s\<lparr>s_proxyMappings := fold (\<lambda>(k, ds). Store k \<lparr>pm_Destinations = ds, pm_LastUsed = e_now E\<rparr>) ms (s_proxyMappings s)\<rparr>)"
proof (induction ms arbitrary: cnt s)
  case Nil
  then show ?case by (subst fetchInner.simps) (simp add: jMore_def)
next
  case (Cons p ms)
  then show ?case by (cases p) (subst fetchInner.simps, simp add: jMore_def)
qed

lemma fold_Store_wf: "wf_map m \<Longrightarrow> wf_map (fold (\<lambda>(k, v). Store k (f v)) xs m)"
  by (induction xs arbitrary: m) (auto simp: case_prod_beta)

lemma fold_Store_length:
  assumes "distinct (map fst xs)" "\<And>k. k \<in> fst ` set xs \<Longrightarrow> \<not> hasKey m k"
  shows "length (fold (\<lambda>(k, v). Store k (f v)) xs m) = length m + length xs"
  using assms
proof (induction xs arbitrary: m)
  case (Cons x xs)
  obtain k v where x: "x = (k, v)" by (cases x)
  have "length (fold (\<lambda>(k, v). Store k (f v)) xs (Store k (f v) m)) = length (Store k (f v) m) + length xs"
    by (rule Cons.IH) (use Cons.prems x in auto)
  moreover have "length (Store k (f v) m) = Suc (length m)" using Cons.prems x by (simp add: length_Store)
  ultimately show ?case by (simp add: x)
qed simp

subsection \<open>Properties\<close>


text \<open>
  On every path of \<open>packetWorker\<close>, errors and early exits included, the buffer of the packet goes
  back to the pool exactly once.
\<close>

theorem packetWorker_releases_once:
  "s_pool (packetWorker X E packet s) = s_pool s @ [pk_buffer packet]"
  using packetWorker_run [of X E packet s] by (simp add: run_part_def)


text \<open>
  C29: once the upstream service has accepted an endpoint, a repeated hole-punch message with the
  same identity, token, key and source address is not reported again for as long as the cached
  entry is younger than the time to live, and is reported again after that.
\<close>

theorem accepted_endpoint_deduplicated:
  assumes "relay_inv s" "s_done s = False" "length (s_notifyChan s) < notifyChanCap"
    and "t = notifyServer E (Answered 200 (Some dests)) (mkEndpoint X F msg remoteAddr u) s"
  shows "s_notifyChan (handleHolePunch Y G msg remoteAddr t) =
    (if e_now G - e_now E < endpointCacheTTL then s_notifyChan s
     else s_notifyChan s @ [mkEndpoint Y G msg remoteAddr t])"
proof -
  let ?e = "mkEndpoint X F msg remoteAddr u" and ?e' = "mkEndpoint Y G msg remoteAddr t"
  have same: "cacheKey ?e' = cacheKey ?e" "endpointState ?e' = endpointState ?e"
    by (simp_all add: mkEndpoint_def cacheKey_def endpointState_def)
  have c: "s_lastEndpointCache t = ec_Store (cacheKey ?e) \<lparr>ce_state = endpointState ?e, ce_cachedAt = e_now E\<rparr> (s_lastEndpointCache s)"
    "s_notifyChan t = s_notifyChan s" "s_done t = s_done s"
    unfolding assms(4) by (simp_all add: notifyServer_def Let_def putMapping_def)
  have ttl: "0 < ec_maxEntries (s_lastEndpointCache s)" "ec_ttl (s_lastEndpointCache s) = 2500 * millisecond"
    using assms(1) by (simp_all add: relay_inv_def maxEndpointCacheEntries_def endpointCacheTTL_def)
  have ld: "fst (ec_Load (e_now G) (cacheKey ?e') (s_lastEndpointCache t)) =
      (if e_now G - e_now E < endpointCacheTTL then Some \<lparr>ce_state = endpointState ?e, ce_cachedAt = e_now E\<rparr> else None)"
    using ec.load_store [OF ttl(1), of "e_now G" "cacheKey ?e" "\<lparr>ce_state = endpointState ?e, ce_cachedAt = e_now E\<rparr>"]
      timeSub_less [of "2500 * millisecond" "e_now G" "e_now E"]
    by (simp add: c same ttl(2) endpointCacheTTL_def minDuration_def maxDuration_def)
  have q: "s_notifyChan (clearSessionsForIP ip v) = s_notifyChan v" for ip v
    using clearSessions_rest [of ip v] by (simp add: rest_part_def)
  show ?thesis
    using ld assms(2,3) by (auto simp: handleHolePunch_def Let_def case_prod_beta hpEvent_def q c same queueNotification_def)
qed


text \<open>
  The initial load of mappings stores every mapping of the response (a later one for the same
  key wins) and raises the exported mapping gauge by the number of entries in the response,
  so gauge and table size agree afterwards if the keys are new and distinct.
\<close>

theorem fetchInitialMappings_loads_all:
  assumes "fetchInitialMappings E (FAnswered 200 (JDelim CHR ''{'' # JStr ''mappings'' # JDelim CHR ''{''
      # concat (map (\<lambda>(k, ds). [JStr k, JVal (Some ds)]) ms) @ [JDelim CHR ''}'', JDelim CHR ''}''])) s = (err, t)"
  shows "err = None \<and> mapGauge t = mapGauge s + int (length ms)
    \<and> s_proxyMappings t = fold (\<lambda>(k, ds). Store k \<lparr>pm_Destinations = ds, pm_LastUsed = e_now E\<rparr>) ms (s_proxyMappings s)
    \<and> (map_inv s \<and> distinct (map fst ms) \<and> (\<forall>k \<in> fst ` set ms. \<not> hasKey (s_proxyMappings s) k) \<longrightarrow> map_inv t)"
proof -
  let ?m = "fold (\<lambda>(k, ds). Store k \<lparr>pm_Destinations = ds, pm_LastUsed = e_now E\<rparr>) ms (s_proxyMappings s)"
  have o: "fetchOuter E (JStr ''mappings'' # JDelim CHR ''{'' # concat (map (\<lambda>(k, ds). [JStr k, JVal (Some ds)]) ms)
      @ [JDelim CHR ''}'', JDelim CHR ''}'']) 0 s = (Inr (int (length ms)), s\<lparr>s_proxyMappings := ?m\<rparr>)"
    by (subst fetchOuter.simps) (simp add: jMore_def fetchInner_pairs fetchOuter.simps [of _ "[JDelim CHR ''}'']"])
  from assms have t: "err = None" "t = rec_metric (RecordProxyMapping relayIfname (int (length ms)))
      (rec_metric (RecordProxyInitialMappings relayIfname (int (length ms))) (s\<lparr>s_proxyMappings := ?m\<rparr>))"
    by (simp_all add: fetchInitialMappings_def o)
  have "length ?m = length (s_proxyMappings s) + length ms"
    if "distinct (map fst ms)" "\<forall>k \<in> fst ` set ms. \<not> hasKey (s_proxyMappings s) k"
    by (rule fold_Store_length) (use that in auto)
  with t show ?thesis
    by (auto simp: map_inv_def fold_Store_wf [of _ "\<lambda>ds. \<lparr>pm_Destinations = ds, pm_LastUsed = e_now E\<rparr>"])
qed

text \<open>
  Stopping the relay twice panics, because the packet channel is closed twice.
\<close>

theorem Stop_twice_panics:
  assumes "Stop s = Some t"
  shows "Stop t = None"
  using assms by (auto simp: Stop_def Let_def split: if_splits)

subsection \<open>Witnesses\<close>



theorem accepted_endpoint_deduplicated_witness:
  "s_notifyChan (handleHolePunch wExt (wEnv 9) wMsg (wAddr 9)
     (notifyServer (wEnv 1) (Answered 200 (Some [])) (mkEndpoint wExt (wEnv 0) wMsg (wAddr 9) wServer) wServer)) = []"
proof -
  have "relay_inv wServer" "s_done wServer = False" "length (s_notifyChan wServer) < notifyChanCap"
    unfolding wServer_def by (rule newServer_inv) (simp_all add: newServer_def notifyChanCap_def)
  from accepted_endpoint_deduplicated [OF this refl, of wExt "wEnv 9" wMsg "wAddr 9" "wEnv 1" "[]" wExt "wEnv 0" wServer]
  show ?thesis by (simp add: wEnv_def endpointCacheTTL_def) (simp add: wServer_def newServer_def)
qed


theorem fetchInitialMappings_witness:
  "\<exists>t. fetchInitialMappings (wEnv 1) (FAnswered 200 (JDelim CHR ''{'' # JStr ''mappings'' # JDelim CHR ''{''
      # concat (map (\<lambda>(k, ds). [JStr k, JVal (Some ds)]) [(''a'', []), (''b'', [])]) @ [JDelim CHR ''}'', JDelim CHR ''}''])) wServer = (None, t)
     \<and> mapGauge t = 2 \<and> map_inv t"
proof -
  obtain err t where f: "fetchInitialMappings (wEnv 1) (FAnswered 200 (JDelim CHR ''{'' # JStr ''mappings'' # JDelim CHR ''{''
      # concat (map (\<lambda>(k, ds). [JStr k, JVal (Some ds)]) [(''a'', []), (''b'', [])]) @ [JDelim CHR ''}'', JDelim CHR ''}''])) wServer = (err, t)"
    by force
  from fetchInitialMappings_loads_all [OF f] show ?thesis
    using f by (simp add: map_inv_def wServer_def newServer_def hasKey_def wf_map_def)
qed

theorem Stop_twice_witness: "\<exists>t. Stop wServer = Some t \<and> Stop t = None"
proof -
  obtain t where t: "Stop wServer = Some t" by (simp add: Stop_def wServer_def newServer_def)
  with Stop_twice_panics [OF t] show ?thesis by blast
qed

end
