(* ===== verification/Relay_Lifecycle.thy ===== *)
theory Relay_Lifecycle
  imports Relay_HolePunch
begin

text \<open>
  The relay as a running process in \<open>relay/relay.go\<close>: \<open>Start\<close>, the reader \<open>readPackets\<close>, the channel
  between it and the packet workers, and \<open>Stop\<close> running beside them.

  \<^item> \<open>life\<close> is the server with the channel, where the reader and \<open>Stop\<close> stand, the packets workers are
    busy with, and how many workers wait or have ended.  Buffers taken from the pool are numbered in
    the order they are taken, so \<open>s_pool\<close> lists the ones returned.
  \<^item> The reader and \<open>Stop\<close> advance one shared operation at a time; a worker takes a packet and handles it
    (\<open>packetWorker\<close>) in two steps; the other handlers of the relay run in between.
  \<^item> A send on a closed channel and a second close are panics, which end the process.

  Shown: no buffer is lost or returned twice in any interleaving, and the channel and the number of busy
  workers are bounded; after an orderly stop the workers handle everything queued, end, and every
  buffer is back; but a packet read just before \<open>Stop\<close> closes the channel panics the reader.
\<close>

subsection \<open>State\<close>

datatype readerAt = AtTop | Receiving nat | Sending Packet | ReaderExited | ReaderPanicked Packet

datatype stopAt = NotStopping | StopCancelled | StopConnClosed | StopConnsClosed | Stopped | StopPanicked

record life =
  lf_server :: server
  lf_connClosed :: bool
  lf_chan :: "Packet list"
  lf_reader :: readerAt
  lf_busy :: "Packet list"
  lf_idle :: nat
  lf_ended :: nat
  lf_stop :: stopAt
  lf_next :: nat

definition packetChanCap :: nat where "packetChanCap = 50000"

definition packetBufferSize :: nat where "packetBufferSize = 1500"

definition workerCount :: "nat \<Rightarrow> nat" where
  "workerCount numCPU = (let n = numCPU * 10 in if n < 20 then 20 else n)"

datatype startError = ErrResolveAddr | ErrListenUDP

text \<open>
  \<open>Start\<close>: the listener is the only thing that can fail.  The clean-up loops, the notifiers and the
  initial load it also starts are the other handlers below.
\<close>

definition Start :: "nat \<Rightarrow> bool \<Rightarrow> bool \<Rightarrow> server \<Rightarrow> startError + life" where
  "Start numCPU resolveOK listenOK s =
     (if \<not> resolveOK then Inl ErrResolveAddr
      else if \<not> listenOK then Inl ErrListenUDP
      else Inr \<lparr>lf_server = s, lf_connClosed = False, lf_chan = [], lf_reader = AtTop, lf_busy = [],
                lf_idle = workerCount numCPU, lf_ended = 0, lf_stop = NotStopping, lf_next = 0\<rparr>)"

subsection \<open>The reader\<close>

definition readTop :: "life \<Rightarrow> life" where
  "readTop l = (if s_done (lf_server l) then l\<lparr>lf_reader := ReaderExited\<rparr>
     else l\<lparr>lf_reader := Receiving (lf_next l), lf_next := Suc (lf_next l)\<rparr>)"

text \<open>\<open>ReadFromUDP\<close> returned a datagram, cut to the size of the buffer, or an error.\<close>

definition readRecv :: "(bytes \<times> UDPAddr) option \<Rightarrow> nat \<Rightarrow> life \<Rightarrow> life" where
  "readRecv r buf l =
     (case r of
        Some (datagram, remoteAddr) \<Rightarrow>
          let d = take packetBufferSize datagram in
          l\<lparr>lf_reader := Sending \<lparr>pk_data = d, pk_remoteAddr = remoteAddr, pk_n = length d, pk_buffer = buf\<rparr>\<rparr>
      | None \<Rightarrow>
          l\<lparr>lf_server := releasePacketBuffer buf (lf_server l),
            lf_reader := (if s_done (lf_server l) then ReaderExited else AtTop)\<rparr>)"

text \<open>The send blocks (\<open>None\<close>) while the channel is full.\<close>

definition readSend :: "Packet \<Rightarrow> life \<Rightarrow> life option" where
  "readSend p l =
     (if s_packetChanClosed (lf_server l) then Some (l\<lparr>lf_reader := ReaderPanicked p\<rparr>)
      else if length (lf_chan l) < packetChanCap then Some (l\<lparr>lf_chan := lf_chan l @ [p], lf_reader := AtTop\<rparr>)
      else None)"

subsection \<open>The workers\<close>

definition workerTake :: "life \<Rightarrow> life option" where
  "workerTake l =
     (if lf_idle l = 0 then None
      else case lf_chan l of
        p # ps \<Rightarrow> Some (l\<lparr>lf_chan := ps, lf_busy := lf_busy l @ [p], lf_idle := lf_idle l - 1\<rparr>)
      | [] \<Rightarrow> if s_packetChanClosed (lf_server l) then Some (l\<lparr>lf_idle := lf_idle l - 1, lf_ended := Suc (lf_ended l)\<rparr>) else None)"

definition workerDone :: "ext \<Rightarrow> env \<Rightarrow> Packet \<Rightarrow> life \<Rightarrow> life" where
  "workerDone X E p l =
     l\<lparr>lf_server := packetWorker X E p (lf_server l), lf_busy := remove1 p (lf_busy l), lf_idle := Suc (lf_idle l)\<rparr>"

subsection \<open>Stopping\<close>

definition stopCancel :: "life \<Rightarrow> life" where
  "stopCancel l = l\<lparr>lf_server := (lf_server l)\<lparr>s_done := True\<rparr>, lf_stop := StopCancelled\<rparr>"

definition stopConn :: "life \<Rightarrow> life" where
  "stopConn l = l\<lparr>lf_connClosed := True, lf_stop := StopConnClosed\<rparr>"

definition stopConns :: "life \<Rightarrow> life" where
  "stopConns l = l\<lparr>lf_server := (lf_server l)\<lparr>s_closed := s_closed (lf_server l) @ map (\<lambda>(_, dc). uc_id (dc_conn dc)) (s_connections (lf_server l))\<rparr>,
     lf_stop := StopConnsClosed\<rparr>"

definition stopChan :: "life \<Rightarrow> life" where
  "stopChan l = (if s_packetChanClosed (lf_server l) then l\<lparr>lf_stop := StopPanicked\<rparr>
     else l\<lparr>lf_server := (lf_server l)\<lparr>s_packetChanClosed := True\<rparr>, lf_stop := Stopped\<rparr>)"

text \<open>The server's context is a child of the one \<open>main\<close> passes in, and is done when that is.\<close>

definition parentCancel :: "life \<Rightarrow> life" where
  "parentCancel l = l\<lparr>lf_server := (lf_server l)\<lparr>s_done := True\<rparr>\<rparr>"

inductive worker_step :: "life \<Rightarrow> life \<Rightarrow> bool" where
  wk_take: "workerTake l = Some m \<Longrightarrow> worker_step l m"
| wk_done: "p \<in> set (lf_busy l) \<Longrightarrow> worker_step l (workerDone X E p l)"

text \<open>The handlers that run beside the reader and the workers.\<close>

inductive background_step :: "server \<Rightarrow> server \<Rightarrow> bool" where
  bg_response: "background_step s (handleResponses E g input s)"
| bg_notify: "background_step s (endpointNotifierWorker E resp s)"
| bg_load: "background_step s (snd (fetchInitialMappings E answer s))"
| bg_mapping: "background_step s (UpdateProxyMapping E ip port dests s)"
| bg_update: "background_step s (snd (UpdateDestinationInMappings E oldDest newDest s))"
| bg_peer: "background_step s (clearConnectionsForWGIP ip s)"
| bg_conns: "background_step s (cleanupIdleConnections E s)"
| bg_sessions: "background_step s (cleanupIdleSessions E s)"
| bg_mappings: "background_step s (cleanupIdleProxyMappings E s)"
| bg_patterns: "background_step s (cleanupIdleCommunicationPatterns E s)"
| bg_limiter: "background_step s (cleanupHolePunchRateLimiter E s)"
| bg_cache: "background_step s (cleanupEndpointCache E s)"

text \<open>A panic of a goroutine ends the process.\<close>

fun panicked :: "readerAt \<Rightarrow> bool" where
  "panicked (ReaderPanicked _) = True"
| "panicked _ = False"

definition alive :: "life \<Rightarrow> bool" where
  "alive l \<longleftrightarrow> \<not> panicked (lf_reader l) \<and> lf_stop l \<noteq> StopPanicked"

inductive life_op :: "life \<Rightarrow> life \<Rightarrow> bool" where
  lf_top: "lf_reader l = AtTop \<Longrightarrow> life_op l (readTop l)"
| lf_recv: "lf_reader l = Receiving buf \<Longrightarrow> (lf_connClosed l \<longrightarrow> r = None) \<Longrightarrow> life_op l (readRecv r buf l)"
| lf_send: "lf_reader l = Sending p \<Longrightarrow> readSend p l = Some m \<Longrightarrow> life_op l m"
| lf_worker: "worker_step l m \<Longrightarrow> life_op l m"
| lf_parent: "life_op l (parentCancel l)"
| lf_cancel: "lf_stop l \<in> {NotStopping, Stopped} \<Longrightarrow> life_op l (stopCancel l)"
| lf_conn: "lf_stop l = StopCancelled \<Longrightarrow> life_op l (stopConn l)"
| lf_conns: "lf_stop l = StopConnClosed \<Longrightarrow> life_op l (stopConns l)"
| lf_close: "lf_stop l = StopConnsClosed \<Longrightarrow> life_op l (stopChan l)"
| lf_background: "background_step (lf_server l) s \<Longrightarrow> life_op l (l\<lparr>lf_server := s\<rparr>)"

inductive life_step :: "life \<Rightarrow> life \<Rightarrow> bool" where
  life_alive: "alive l \<Longrightarrow> life_op l m \<Longrightarrow> life_step l m"

fun readerBuffers :: "readerAt \<Rightarrow> nat list" where
  "readerBuffers AtTop = []"
| "readerBuffers (Receiving buf) = [buf]"
| "readerBuffers (Sending p) = [pk_buffer p]"
| "readerBuffers ReaderExited = []"
| "readerBuffers (ReaderPanicked p) = [pk_buffer p]"

definition inFlight :: "life \<Rightarrow> nat list" where
  "inFlight l = readerBuffers (lf_reader l) @ map pk_buffer (lf_chan l) @ map pk_buffer (lf_busy l)"

definition life_inv :: "nat \<Rightarrow> life \<Rightarrow> bool" where
  "life_inv workers l \<longleftrightarrow>
     mset [0..<lf_next l] = mset (s_pool (lf_server l)) + mset (inFlight l) \<and>
     length (lf_chan l) \<le> packetChanCap \<and> lf_idle l + length (lf_busy l) + lf_ended l = workers \<and>
     (0 < lf_ended l \<longrightarrow> s_packetChanClosed (lf_server l) \<and> lf_chan l = [])"

definition open_inv :: "life \<Rightarrow> bool" where
  "open_inv l \<longleftrightarrow> lf_stop l = NotStopping \<longrightarrow> \<not> s_packetChanClosed (lf_server l)"

definition drainRank :: "life \<Rightarrow> nat" where
  "drainRank l = 3 * length (lf_chan l) + 2 * length (lf_busy l) + lf_idle l"

text \<open>A relay with nothing mapped, just started; with one datagram read; with it queued; and stopped.\<close>

definition demoLife :: life where
  "demoLife = \<lparr>lf_server = newServer [] [], lf_connClosed = False, lf_chan = [], lf_reader = AtTop, lf_busy = [],
     lf_idle = 20, lf_ended = 0, lf_stop = NotStopping, lf_next = 0\<rparr>"

definition demoPacket :: Packet where
  "demoPacket = \<lparr>pk_data = [9], pk_remoteAddr = wAddr 1, pk_n = 1, pk_buffer = 0\<rparr>"

definition demoRead :: life where
  "demoRead = demoLife\<lparr>lf_reader := Sending demoPacket, lf_next := 1\<rparr>"

definition demoQueued :: life where
  "demoQueued = demoLife\<lparr>lf_chan := [demoPacket], lf_next := 1\<rparr>"

definition demoStopped :: life where
  "demoStopped = (stopChan (stopConns (stopConn (stopCancel demoQueued))))\<lparr>lf_reader := ReaderExited\<rparr>"

subsection \<open>What the handlers leave alone\<close>

lemma notify_run: "run_part (endpointNotifierWorker E resp s) = run_part s"
  by (simp add: endpointNotifierWorker_def notifyServer_def putMapping_def Let_def run_part_def
      split: list.split notifyResult.split option.split)

lemma fetchInner_run: "run_part (snd (fetchInner E ts cnt s)) = run_part s"
proof (induction E ts cnt s rule: fetchInner.induct)
  case (1 E ts cnt s)
  then show ?case
    by (subst fetchInner.simps) (auto simp: run_part_def split: list.split jtok.split option.split)
qed

lemma fetchOuter_run: "run_part (snd (fetchOuter E ts cnt s)) = run_part s"
proof (induction E ts cnt s rule: fetchOuter.induct)
  case (1 E ts cnt s)
  have i: "fetchInner E rs cnt s = (r, t) \<Longrightarrow> run_part t = run_part s" for rs r t
    using fetchInner_run [of E rs cnt s] by simp
  show ?case
    by (subst fetchOuter.simps) (auto simp: 1 dest!: i split: list.split jtok.split sum.split prod.split)
qed

lemma load_run: "run_part (snd (fetchInitialMappings E answer s)) = run_part s"
proof -
  have "fetchOuter E ts 0 s = (r, t) \<Longrightarrow> run_part t = run_part s" for ts r t
    using fetchOuter_run [of E ts 0 s] by simp
  then show ?thesis
    by (auto simp: fetchInitialMappings_def split: fetchResponse.split list.split jtok.split sum.split prod.split)
qed

lemma cleanup_run:
  "run_part (cleanupIdleSessions E s) = run_part s" "run_part (cleanupIdleProxyMappings E s) = run_part s"
  "run_part (cleanupIdleCommunicationPatterns E s) = run_part s" "run_part (cleanupHolePunchRateLimiter E s) = run_part s"
  "run_part (cleanupEndpointCache E s) = run_part s"
proof -
  have "run_part (fold (cleanupSessionOne E) xs s) = run_part s" for xs
    by (rule fold_frame) (auto simp: cleanupSessionOne_def run_part_def split: prod.split)
  then show "run_part (cleanupIdleSessions E s) = run_part s" by (simp add: cleanupIdleSessions_def)
  have "run_part (fold (cleanupMappingOne E) xs s) = run_part s" for xs
    by (rule fold_frame) (auto simp: cleanupMappingOne_def run_part_def split: prod.split)
  then show "run_part (cleanupIdleProxyMappings E s) = run_part s" by (simp add: cleanupIdleProxyMappings_def)
  have "run_part (fold (cleanupPatternOne E) xs s) = run_part s" for xs
    by (rule fold_frame) (auto simp: cleanupPatternOne_def run_part_def split: prod.split)
  then show "run_part (cleanupIdleCommunicationPatterns E s) = run_part s" by (simp add: cleanupIdleCommunicationPatterns_def)
qed (simp_all add: cleanupHolePunchRateLimiter_def cleanupEndpointCache_def run_part_def)

lemma update_run: "run_part (snd (UpdateDestinationInMappings E d d' s)) = run_part s"
proof -
  have "run_part (snd (fold (updateOne E d d') xs (0, s))) = run_part (snd (0 :: int, s))" for xs
    by (rule fold_frame [where f = "\<lambda>x. run_part (snd x)"]) (auto simp: updateOne_def run_part_def split: prod.split)
  then show ?thesis by (simp add: UpdateDestinationInMappings_def)
qed

lemma sweep_run: "sweep P s = (n, t) \<Longrightarrow> run_part t = run_part s"
proof -
  have "run_part (snd (fold (sweepOne P) xs (0, s))) = run_part (snd (0 :: int, s))" for xs
    by (rule fold_frame [where f = "\<lambda>x. run_part (snd x)"])
      (auto simp: sweepOne_def removeConnection_def removeConnectionLocked_def Let_def run_part_def split: prod.split option.splits if_splits)
  then show "sweep P s = (n, t) \<Longrightarrow> run_part t = run_part s" unfolding sweep_def by (metis snd_conv)
qed

lemma conns_run: "run_part (cleanupIdleConnections E s) = run_part s" "run_part (clearConnectionsForWGIP ip s) = run_part s"
proof -
  have r: "run_part (u\<lparr>s_connectionCount := k\<rparr>) = run_part u" for u k by (simp add: run_part_def)
  show "run_part (cleanupIdleConnections E s) = run_part s" "run_part (clearConnectionsForWGIP ip s) = run_part s"
    by (auto simp: cleanupIdleConnections_def clearConnectionsForWGIP_def idleReport_def clearReport_def r dest!: sweep_run
        split: prod.split)
qed

lemma trackResponse_run: "run_part (trackResponse E g b s) = run_part s"
proof -
  have o: "other_eq t u \<Longrightarrow> run_part t = run_part u" for t u by (simp add: other_eq_def run_part_def)
  show ?thesis by (auto simp: trackResponse_def intro!: o track_other learnSession_other split: prod.split)
qed

lemma response_run: "run_part (handleResponses E g input s) = run_part s"
proof -
  have r: "run_part (u\<lparr>s_responders := x\<rparr>) = run_part u" "run_part ((tick u)\<lparr>s_out := y\<rparr>) = run_part u"
    "run_part (tick u) = run_part u" for u x y by (simp_all add: run_part_def)
  show ?thesis by (simp add: handleResponses_def Let_def r trackResponse_run split: option.split)
qed

lemma mapping_run: "run_part (UpdateProxyMapping E ip port dests s) = run_part s"
  by (simp add: UpdateProxyMapping_def putMapping_def Let_def run_part_def)

lemma background_run: "background_step s t \<Longrightarrow> run_part t = run_part s"
  by (erule background_step.cases)
    (simp_all add: response_run notify_run load_run mapping_run update_run conns_run cleanup_run)

subsection \<open>The buffers\<close>

inductive_cases life_opE: "life_op l m"
inductive_cases worker_stepE: "worker_step l m"

lemma upt_next: "mset_set {0..<Suc n} = add_mset n (mset_set {0..<n})"
  by (simp add: atLeast0_lessThan_Suc)

lemma busy_remove: "p \<in> set ps \<Longrightarrow> add_mset (f p) (mset (map f (remove1 p ps))) = mset (map f ps)"
  by (induction ps) auto

lemma readTop_inv: "life_inv w l \<Longrightarrow> lf_reader l = AtTop \<Longrightarrow> life_inv w (readTop l)"
  by (simp add: life_inv_def readTop_def inFlight_def upt_next)

lemma readRecv_inv: "life_inv w l \<Longrightarrow> lf_reader l = Receiving buf \<Longrightarrow> life_inv w (readRecv r buf l)"
  by (cases r) (auto simp: life_inv_def readRecv_def inFlight_def releasePacketBuffer_def Let_def)

lemma readSend_inv: "life_inv w l \<Longrightarrow> lf_reader l = Sending p \<Longrightarrow> readSend p l = Some m \<Longrightarrow> life_inv w m"
  by (auto simp: life_inv_def readSend_def inFlight_def split: if_splits)

lemma take_inv: "life_inv w l \<Longrightarrow> workerTake l = Some m \<Longrightarrow> life_inv w m"
  by (auto simp: workerTake_def life_inv_def inFlight_def split: if_splits list.splits)

lemma done_inv: "life_inv w l \<Longrightarrow> p \<in> set (lf_busy l) \<Longrightarrow> life_inv w (workerDone X E p l)"
proof -
  assume inv: "life_inv w l" and p: "p \<in> set (lf_busy l)"
  have r: "s_pool (packetWorker X E p s) = s_pool s @ [pk_buffer p]"
    "s_packetChanClosed (packetWorker X E p s) = s_packetChanClosed s" for s
    using packetWorker_run [of X E p s] by (simp_all add: run_part_def)
  from p have "0 < length (lf_busy l)" by auto
  with inv p busy_remove [OF p, of pk_buffer] show ?thesis
    by (auto simp: life_inv_def workerDone_def inFlight_def r length_remove1)
qed

lemma worker_inv: "worker_step l m \<Longrightarrow> life_inv w l \<Longrightarrow> life_inv w m"
  by (elim worker_stepE) (auto intro: take_inv done_inv)

lemma background_inv: "life_inv w l \<Longrightarrow> background_step (lf_server l) s \<Longrightarrow> life_inv w (l\<lparr>lf_server := s\<rparr>)"
  using background_run [of "lf_server l" s] by (auto simp: life_inv_def run_part_def inFlight_def)

lemma stop_inv: "life_inv w l \<Longrightarrow> life_inv w (stopCancel l)" "life_inv w l \<Longrightarrow> life_inv w (stopConn l)"
  "life_inv w l \<Longrightarrow> life_inv w (stopConns l)" "life_inv w l \<Longrightarrow> life_inv w (stopChan l)"
  "life_inv w l \<Longrightarrow> life_inv w (parentCancel l)"
  by (simp_all add: life_inv_def parentCancel_def stopCancel_def stopConn_def stopConns_def stopChan_def inFlight_def)

interpretation life_sys: step_system life_step "life_inv w" for w
proof
  show "life_inv w t" if "life_step s t" "life_inv w s" for s t
    using that by (elim life_step.cases life_opE)
      (auto intro: readTop_inv readRecv_inv readSend_inv worker_inv background_inv stop_inv)
qed

interpretation life_open: step_system life_step open_inv
proof
  show "open_inv t" if "life_step s t" "open_inv s" for s t
  proof -
    have w: "s_packetChanClosed (packetWorker X E p u) = s_packetChanClosed u" for X E p u
      using packetWorker_run [of X E p u] by (simp add: run_part_def)
    have b: "background_step u v \<Longrightarrow> s_packetChanClosed v = s_packetChanClosed u" for u v
      using background_run [of u v] by (simp add: run_part_def)
    show ?thesis using that
      by (elim life_step.cases life_opE worker_stepE)
        (auto simp: open_inv_def readTop_def readRecv_def readSend_def releasePacketBuffer_def workerTake_def workerDone_def
          parentCancel_def stopCancel_def stopConn_def stopConns_def stopChan_def Let_def w b split: option.splits list.splits if_splits)
  qed
qed

lemma started_open:
  assumes "Start numCPU resolveOK listenOK (newServer url reach) = Inr l0" "life_step\<^sup>*\<^sup>* l0 l"
  shows "open_inv l"
proof (rule life_open.run_inv [OF assms(2)])
  show "open_inv l0" using assms(1) by (auto simp: Start_def newServer_def open_inv_def split: if_splits)
qed

lemma started_inv:
  assumes "Start numCPU resolveOK listenOK (newServer url reach) = Inr l0" "life_step\<^sup>*\<^sup>* l0 l"
  shows "life_inv (workerCount numCPU) l"
proof (rule life_sys.run_inv [OF assms(2)])
  show "life_inv (workerCount numCPU) l0"
    using assms(1) by (auto simp: Start_def newServer_def life_inv_def inFlight_def split: if_splits)
qed

lemma workerCount_pos: "20 \<le> workerCount numCPU" "workerCount numCPU = max 20 (10 * numCPU)"
  by (simp_all add: workerCount_def Let_def)

subsection \<open>Draining the channel\<close>

lemma worker_frame:
  assumes "worker_step l m"
  shows "s_packetChanClosed (lf_server m) = s_packetChanClosed (lf_server l)" "lf_reader m = lf_reader l"
    "lf_next m = lf_next l" "drainRank m < drainRank l"
proof -
  have closed: "s_packetChanClosed (packetWorker X E p s) = s_packetChanClosed s" for X E p s
    using packetWorker_run [of X E p s] by (simp add: run_part_def)
  have less: "2 * length (remove1 p ps) + 1 < 2 * length ps" if "p \<in> set ps" for p and ps :: "Packet list"
    using that by (cases "length ps") (auto simp: length_remove1)
  show "s_packetChanClosed (lf_server m) = s_packetChanClosed (lf_server l)" "lf_reader m = lf_reader l"
    "lf_next m = lf_next l" "drainRank m < drainRank l"
    using assms less by (auto elim!: worker_stepE simp: workerTake_def workerDone_def drainRank_def closed
        split: if_splits list.splits)
qed

lemma worker_progress:
  assumes "life_inv w l" "0 < w" "s_packetChanClosed (lf_server l)" "\<nexists>m. worker_step l m"
  shows "lf_chan l = []" "lf_busy l = []" "lf_ended l = w"
proof -
  show b: "lf_busy l = []" using assms(4) wk_done [of _ l] by (cases "lf_busy l") auto
  have "workerTake l = None" using assms(4) wk_take [of l] by (cases "workerTake l") auto
  with assms(3) have "lf_idle l = 0" by (auto simp: workerTake_def split: if_splits list.splits)
  with b assms(1) show "lf_ended l = w" by (simp add: life_inv_def)
  with assms(1,2) show "lf_chan l = []" by (simp add: life_inv_def)
qed

lemma worker_run:
  assumes "(worker_step ^^ n) l m"
  shows "n + drainRank m \<le> drainRank l \<and> lf_reader m = lf_reader l \<and> lf_next m = lf_next l
    \<and> s_packetChanClosed (lf_server m) = s_packetChanClosed (lf_server l) \<and> (life_inv w l \<longrightarrow> life_inv w m)"
  using assms
proof (induction n arbitrary: m)
  case (Suc n)
  from Suc.prems obtain k where k: "(worker_step ^^ n) l k" "worker_step k m" by auto
  from worker_frame [OF k(2)] Suc.IH [OF k(1)] worker_inv [OF k(2), of w] show ?case by auto
qed simp

lemma worker_ends: "\<exists>n m. (worker_step ^^ n) l m \<and> (\<nexists>k. worker_step m k)"
proof (induction l rule: measure_induct_rule [of drainRank])
  case (less l)
  show ?case
  proof (cases "\<exists>m. worker_step l m")
    case True
    then obtain m where m: "worker_step l m" by blast
    from less [OF worker_frame(4) [OF m]] obtain n k where "(worker_step ^^ n) m k" "\<nexists>j. worker_step k j" by blast
    with m have "(worker_step ^^ Suc n) l k" by (meson relpowp_Suc_I2)
    with \<open>\<nexists>j. worker_step k j\<close> show ?thesis by blast
  next
    case False
    then show ?thesis by (intro exI [of _ "0 :: nat"] exI [of _ l]) simp
  qed
qed

subsection \<open>The window between reading and closing\<close>

lemma panic_stuck: "\<not> alive l \<Longrightarrow> \<not> life_step l m"
  by (auto elim: life_step.cases)

lemma stop_steps:
  assumes "alive l" "lf_stop l = NotStopping"
  shows "life_step\<^sup>*\<^sup>* l (stopChan (stopConns (stopConn (stopCancel l))))"
proof -
  have "life_step l (stopCancel l)" using assms by (auto intro: life_alive lf_cancel)
  moreover have "life_step (stopCancel l) (stopConn (stopCancel l))"
    by (rule life_alive [OF _ lf_conn]) (use assms in \<open>simp_all add: alive_def stopCancel_def\<close>)
  moreover have "life_step (stopConn (stopCancel l)) (stopConns (stopConn (stopCancel l)))"
    by (rule life_alive [OF _ lf_conns]) (use assms in \<open>simp_all add: alive_def stopCancel_def stopConn_def\<close>)
  moreover have "life_step (stopConns (stopConn (stopCancel l))) (stopChan (stopConns (stopConn (stopCancel l))))"
    by (rule life_alive [OF _ lf_close]) (use assms in \<open>simp_all add: alive_def stopCancel_def stopConn_def stopConns_def\<close>)
  ultimately show ?thesis by (meson converse_rtranclp_into_rtranclp r_into_rtranclp)
qed

text \<open>Uninterrupted, the four steps are the function \<open>Stop\<close>.\<close>

lemma stop_steps_Stop:
  "Stop (lf_server l) = (if lf_stop (stopChan (stopConns (stopConn (stopCancel l)))) = StopPanicked then None
     else Some (lf_server (stopChan (stopConns (stopConn (stopCancel l))))))"
  by (simp add: Stop_def stopChan_def stopConns_def stopConn_def stopCancel_def Let_def)

subsection \<open>A run\<close>

lemma demo_life_start: "Start 1 True True (newServer [] []) = Inr demoLife"
  by (simp add: Start_def demoLife_def workerCount_def)

lemma demo_life_read: "life_step\<^sup>*\<^sup>* demoLife demoRead"
proof -
  let ?m = "demoLife\<lparr>lf_reader := Receiving 0, lf_next := 1\<rparr>"
  have "life_step demoLife (readTop demoLife)" by (intro life_alive lf_top) (simp_all add: demoLife_def alive_def)
  moreover have "readTop demoLife = ?m" by (simp add: readTop_def demoLife_def newServer_def)
  moreover have "life_step ?m (readRecv (Some ([9], wAddr 1)) 0 ?m)"
    by (intro life_alive lf_recv) (simp_all add: demoLife_def alive_def)
  moreover have "readRecv (Some ([9], wAddr 1)) 0 ?m = demoRead"
    by (simp add: readRecv_def demoRead_def demoPacket_def packetBufferSize_def)
  ultimately show ?thesis by (metis converse_rtranclp_into_rtranclp r_into_rtranclp)
qed

lemma demo_life_queued: "life_step\<^sup>*\<^sup>* demoLife demoQueued"
proof -
  have "readSend demoPacket demoRead = Some demoQueued"
    by (simp add: readSend_def demoRead_def demoQueued_def demoLife_def newServer_def packetChanCap_def)
  moreover have "lf_reader demoRead = Sending demoPacket" by (simp add: demoRead_def)
  ultimately have "life_step demoRead demoQueued"
    by (intro life_alive lf_send) (simp_all add: demoRead_def demoLife_def alive_def)
  with demo_life_read show ?thesis by (rule rtranclp.rtrancl_into_rtrancl)
qed

lemma demo_life_stopped: "life_step\<^sup>*\<^sup>* demoLife demoStopped"
proof -
  let ?s = "stopChan (stopConns (stopConn (stopCancel demoQueued)))"
  have f: "lf_reader ?s = AtTop" "s_done (lf_server ?s)" "lf_stop ?s = Stopped"
    by (simp_all add: stopChan_def stopConns_def stopConn_def stopCancel_def demoQueued_def demoLife_def newServer_def)
  have "life_step\<^sup>*\<^sup>* demoQueued ?s" by (rule stop_steps) (simp_all add: demoQueued_def demoLife_def alive_def)
  moreover have "life_step ?s (readTop ?s)" by (intro life_alive lf_top) (simp_all add: alive_def f)
  moreover have "readTop ?s = demoStopped" by (simp add: readTop_def demoStopped_def f)
  ultimately show ?thesis using demo_life_queued by (metis rtranclp_trans rtranclp.rtrancl_into_rtrancl)
qed

subsection \<open>Properties\<close>

text \<open>
  C11: in every state the running relay can reach from \<open>Start\<close>, whatever the interleaving of the reader,
  the workers, the background handlers and \<open>Stop\<close>, every buffer taken from the pool is either back in
  the pool, once, or held by exactly one of the reader, the channel and a busy worker; the channel never
  holds more than 50000 packets and no more workers are busy than were started.
\<close>

theorem relay_buffers_conserved:
  assumes "Start numCPU resolveOK listenOK (newServer url reach) = Inr l0" "life_step\<^sup>*\<^sup>* l0 l"
  shows "mset (s_pool (lf_server l)) + mset (inFlight l) = mset [0..<lf_next l]
    \<and> distinct (s_pool (lf_server l) @ inFlight l) \<and> length (lf_chan l) \<le> 50000
    \<and> length (lf_busy l) \<le> max 20 (10 * numCPU)"
proof -
  note l = started_inv [OF assms(1,2)]
  then have m: "mset (s_pool (lf_server l) @ inFlight l) = mset [0..<lf_next l]" by (simp add: life_inv_def)
  from mset_eq_imp_distinct_iff [OF m] have "distinct (s_pool (lf_server l) @ inFlight l)" by (simp only: distinct_upt)
  moreover from l have "length (lf_chan l) \<le> 50000" "length (lf_busy l) \<le> max 20 (10 * numCPU)"
    by (simp_all add: life_inv_def packetChanCap_def workerCount_pos(2) [symmetric])
  ultimately show ?thesis using m by simp
qed

text \<open>
  C21: after an orderly stop, with the channel closed and the reader gone, the workers take at most
  \<open>drainRank\<close> further steps, handle everything that was queued, and end; then every buffer is
  back in the pool.
\<close>

theorem relay_drains:
  assumes "Start numCPU resolveOK listenOK (newServer url reach) = Inr l0" "life_step\<^sup>*\<^sup>* l0 l"
    "lf_reader l = ReaderExited" "s_packetChanClosed (lf_server l)"
  shows "(\<forall>n m. (worker_step ^^ n) l m \<longrightarrow> n \<le> drainRank l)
    \<and> (\<exists>n m. (worker_step ^^ n) l m \<and> (\<nexists>k. worker_step m k))
    \<and> (\<forall>n m. (worker_step ^^ n) l m \<and> (\<nexists>k. worker_step m k) \<longrightarrow>
        lf_chan m = [] \<and> lf_busy m = [] \<and> lf_ended m = workerCount numCPU
        \<and> mset (s_pool (lf_server m)) = mset [0..<lf_next l])"
proof -
  note l = started_inv [OF assms(1,2)]
  have w: "0 < workerCount numCPU" using workerCount_pos(1) [of numCPU] by simp
  have fin: "lf_chan m = [] \<and> lf_busy m = [] \<and> lf_ended m = workerCount numCPU
      \<and> mset (s_pool (lf_server m)) = mset [0..<lf_next l]"
    if "(worker_step ^^ n) l m" "\<nexists>k. worker_step m k" for n m
  proof -
    from worker_run [OF that(1)] l assms(3,4) have m: "life_inv (workerCount numCPU) m" "s_packetChanClosed (lf_server m)"
      "lf_reader m = ReaderExited" "lf_next m = lf_next l" by auto
    from worker_progress [OF m(1) w m(2) that(2)] m show ?thesis by (simp add: life_inv_def inFlight_def)
  qed
  have bound: "n \<le> drainRank l" if "(worker_step ^^ n) l m" for n m
    using worker_run [OF that, of "workerCount numCPU"] by simp
  from fin bound worker_ends [of l] show ?thesis by blast
qed

text \<open>
  C40: whenever the reader holds a packet it has not sent yet, a complete \<open>Stop\<close> in between closes the
  channel, and the send then panics: the process ends with the packet undelivered, although
  the context was cancelled first.
\<close>

theorem relay_stop_race:
  assumes "lf_reader l = Sending p" "lf_stop l = NotStopping" "\<not> s_packetChanClosed (lf_server l)"
  shows "\<exists>m. life_step\<^sup>*\<^sup>* l m \<and> lf_reader m = ReaderPanicked p \<and> s_done (lf_server m) \<and> (\<forall>k. \<not> life_step m k)"
proof -
  let ?s = "stopChan (stopConns (stopConn (stopCancel l)))" and ?m = "\<lambda>k. k\<lparr>lf_reader := ReaderPanicked p\<rparr>"
  have s: "life_step\<^sup>*\<^sup>* l ?s" by (rule stop_steps) (use assms in \<open>simp_all add: alive_def\<close>)
  have f: "lf_reader ?s = Sending p" "lf_stop ?s = Stopped" "s_packetChanClosed (lf_server ?s)" "s_done (lf_server ?s)"
    using assms by (simp_all add: stopChan_def stopConns_def stopConn_def stopCancel_def)
  have "life_step ?s (?m ?s)"
    by (rule life_alive [OF _ lf_send [OF f(1)]]) (simp_all add: alive_def f readSend_def)
  with s have "life_step\<^sup>*\<^sup>* l (?m ?s)" by (rule rtranclp.rtrancl_into_rtrancl)
  moreover have "\<not> alive (?m ?s)" by (simp add: alive_def)
  ultimately show ?thesis using f(4) by (intro exI [of _ "?m ?s"]) (simp add: panic_stuck)
qed

subsection \<open>Witnesses\<close>

theorem relay_buffers_conserved_witness:
  "life_step\<^sup>*\<^sup>* demoLife demoQueued \<and> distinct (s_pool (lf_server demoQueued) @ inFlight demoQueued)
    \<and> inFlight demoQueued = [0] \<and> length (lf_busy demoQueued) \<le> max 20 (10 * 1)"
  using relay_buffers_conserved [OF demo_life_start demo_life_queued] demo_life_queued
  by (simp add: inFlight_def demoQueued_def demoLife_def demoPacket_def)

theorem relay_drains_witness:
  "life_step\<^sup>*\<^sup>* demoLife demoStopped \<and> lf_chan demoStopped = [demoPacket] \<and> drainRank demoStopped = 23
    \<and> (\<exists>n m. (worker_step ^^ n) demoStopped m \<and> lf_chan m = [] \<and> lf_ended m = 20 \<and> s_pool (lf_server m) = [0])"
proof -
  have f: "lf_reader demoStopped = ReaderExited" "s_packetChanClosed (lf_server demoStopped)" "lf_chan demoStopped = [demoPacket]"
    "lf_next demoStopped = 1" "drainRank demoStopped = 23"
    by (simp_all add: demoStopped_def stopChan_def stopConns_def stopConn_def stopCancel_def demoQueued_def demoLife_def
        newServer_def drainRank_def)
  note d = relay_drains [OF demo_life_start demo_life_stopped f(1,2)]
  from d obtain n m where "(worker_step ^^ n) demoStopped m" "\<nexists>k. worker_step m k" by blast
  with d have "lf_chan m = []" "lf_ended m = 20" "s_pool (lf_server m) = [0]"
    by (auto simp: f workerCount_def)
  with \<open>(worker_step ^^ n) demoStopped m\<close> f demo_life_stopped show ?thesis by blast
qed

theorem relay_stop_race_witness:
  "life_step\<^sup>*\<^sup>* demoLife demoRead
    \<and> (\<exists>m. life_step\<^sup>*\<^sup>* demoRead m \<and> lf_reader m = ReaderPanicked demoPacket \<and> s_done (lf_server m))"
  using relay_stop_race [of demoRead demoPacket] demo_life_read
  by (auto simp: demoRead_def demoLife_def newServer_def)

end
