(* ===== verification/Go_IP_RoundTrip.thy ===== *)
theory Go_IP_RoundTrip
  imports Go_Net
begin

text \<open>
  Printing an address and parsing it back: \<open>net.ParseIP(ip.String())\<close> gives the 16-byte form of
  \<open>ip\<close> for every 4-byte and 16-byte address, with the longest run of zero groups compressed to
  \<open>::\<close>, and so does the IPv4-mapped spelling \<open>::ffff:a.b.c.d\<close> the PROXY protocol code writes.
  The bounds on the length of a printed address are here too.
\<close>

definition ip_ok :: "IP \<Rightarrow> bool" where
  "ip_ok ip \<longleftrightarrow> length ip = 4 \<or> length ip = 16"

definition bytesOf :: "nat list \<Rightarrow> bytes" where
  "bytesOf gs = concat (map putGroup gs)"

definition hex6 :: "nat list \<Rightarrow> string" where
  "hex6 gs = joinStr '':'' (map hexNat gs)"

definition zeroRunOK :: "nat list \<Rightarrow> (nat \<times> nat) option \<Rightarrow> bool" where
  "zeroRunOK gs r = (case r of None \<Rightarrow> True
     | Some (s, e) \<Rightarrow> s + 2 \<le> e \<and> e \<le> length gs \<and> take (e - s) (drop s gs) = replicate (e - s) 0)"

subsection \<open>Hexadecimal groups\<close>

lemma hexVal_hexChar: "n < 16 \<Longrightarrow> hexVal (hexChar n) = Some n"
  by (auto simp: hexVal_def hexChar_def Let_def)

lemma hexNat_not_Nil [simp]: "hexNat n \<noteq> []"
  by (subst hexNat.simps) simp

lemma hexNat_hexVal: "c \<in> set (hexNat n) \<Longrightarrow> hexVal c \<noteq> None"
  by (drule hexNat_chars) (auto simp: isHex_def isDigit_def hexVal_def Let_def)

lemma hexGroup_append: "hexGroup (w @ [c]) = 16 * hexGroup w + the (hexVal c)"
  by (simp add: hexGroup_def)

lemma hexGroup_hexNat: "hexGroup (hexNat n) = n"
proof (induction n rule: hexNat.induct)
  case (1 n)
  show ?case
  proof (cases "n < 16")
    case True
    then show ?thesis by (subst hexNat.simps) (simp add: hexGroup_def hexVal_hexChar)
  next
    case False
    with 1 have "hexGroup (hexNat (n div 16)) = n div 16" by blast
    with False show ?thesis
      by (subst hexNat.simps) (simp add: hexGroup_append hexVal_hexChar)
  qed
qed

lemma length_hexNat: "n < 16 ^ Suc k \<Longrightarrow> length (hexNat n) \<le> Suc k"
proof (induction k arbitrary: n)
  case 0
  then show ?case by (subst hexNat.simps) simp
next
  case (Suc k)
  then have "n div 16 < 16 ^ Suc k" by (simp add: less_mult_imp_div_less)
  from Suc.IH [OF this] show ?case by (subst hexNat.simps) simp
qed

lemma length_itoaNat: "n < 10 ^ Suc k \<Longrightarrow> length (itoaNat n) \<le> Suc k"
proof (induction k arbitrary: n)
  case 0
  then show ?case by (subst itoaNat.simps) simp
next
  case (Suc k)
  then have "n div 10 < 10 ^ Suc k" by (simp add: less_mult_imp_div_less)
  from Suc.IH [OF this] show ?case by (subst itoaNat.simps) simp
qed

lemma takeWhile_word: "(\<And>c. c \<in> set w \<Longrightarrow> P c) \<Longrightarrow> r = [] \<or> \<not> P (hd r) \<Longrightarrow> takeWhile P (w @ r) = w"
  "(\<And>c. c \<in> set w \<Longrightarrow> P c) \<Longrightarrow> r = [] \<or> \<not> P (hd r) \<Longrightarrow> dropWhile P (w @ r) = r"
  by (cases r; auto simp: takeWhile_tail)+

lemma unat_byte: "unat (b :: byte) < 256"
  using unsigned_less [of b, where ?'a = nat] by simp

lemma putGroup_bytes: "putGroup (256 * unat a + unat b) = [a, b]"
  using unat_byte [of b] by (simp add: putGroup_def)

lemma length_putGroup [simp]: "length (putGroup g) = 2"
  by (simp add: putGroup_def)

lemma bytesOf_simps [simp]: "bytesOf [] = []" "bytesOf (g # gs) = putGroup g @ bytesOf gs"
  "bytesOf (gs @ hs) = bytesOf gs @ bytesOf hs"
  by (simp_all add: bytesOf_def)

lemma length_bytesOf [simp]: "length (bytesOf gs) = 2 * length gs"
  by (induction gs) auto

lemma bytesOf_zeros: "bytesOf (replicate n 0) = replicate (2 * n) 0"
  by (induction n) (auto simp: putGroup_def)

lemma bytesOf_ip6Groups: "even (length bs) \<Longrightarrow> bytesOf (ip6Groups bs) = bs"
  by (induction bs rule: ip6Groups.induct) (auto simp: putGroup_bytes)

lemma length_ip6Groups: "length (ip6Groups bs) = length bs div 2"
  by (induction bs rule: ip6Groups.induct) auto

lemma ip6Groups_bound: "g \<in> set (ip6Groups bs) \<Longrightarrow> g < 65536"
proof (induction bs rule: ip6Groups.induct)
  case (1 a b bs)
  show ?case using 1 unat_byte [of a] unat_byte [of b] by auto
qed auto

lemma hex6_simps [simp]: "hex6 [] = []" "hex6 [g] = hexNat g"
  "gs \<noteq> [] \<Longrightarrow> hex6 (g # gs) = hexNat g @ CHR '':'' # hex6 gs"
  by (cases gs; simp add: hex6_def)+

lemma hex6_Cons_hex: "gs \<noteq> [] \<Longrightarrow> \<exists>c cs. hex6 gs = c # cs \<and> isHex c"
proof -
  assume "gs \<noteq> []"
  then obtain g gs' where "gs = g # gs'" by (cases gs) auto
  moreover obtain c cs where "hexNat g = c # cs" by (cases "hexNat g") auto
  moreover then have "isHex c" using hexNat_chars [of c g] by simp
  ultimately show ?thesis by (cases gs') auto
qed

subsection \<open>The group loop\<close>

lemma hexVal_colon: "hexVal CHR '':'' = None"
  by (simp add: hexVal_def)

lemma parseIPv6Loop_step:
  assumes "length ip < 16" "g < 65536" "rest = [] \<or> hd rest = CHR '':''"
  shows "parseIPv6Loop ip ell (hexNat g @ rest) =
     (case rest of
        [] \<Rightarrow> Some (ip @ putGroup g, ell)
      | c # r \<Rightarrow>
          if r = [] then None
          else if hd r = CHR '':'' then
            (if ell \<noteq> None then None
             else if tl r = [] then Some (ip @ putGroup g, Some (length ip + 2))
             else parseIPv6Loop (ip @ putGroup g) (Some (length ip + 2)) (tl r))
          else parseIPv6Loop (ip @ putGroup g) ell r)"
proof -
  let ?P = "\<lambda>c. hexVal c \<noteq> None"
  have r: "rest = [] \<or> \<not> ?P (hd rest)" using assms(3) hexVal_colon by auto
  have w: "takeWhile ?P (hexNat g @ rest) = hexNat g" "dropWhile ?P (hexNat g @ rest) = rest"
    using takeWhile_word [of "hexNat g" ?P rest] hexNat_hexVal r by blast+
  have "length (hexNat g) \<le> 4" using length_hexNat [of g 3] assms(2) by simp
  with assms show ?thesis
    by (subst parseIPv6Loop.simps, unfold w) (auto simp: hexGroup_hexNat split: list.splits)
qed

lemma parseIPv6Loop_groups:
  assumes "gs \<noteq> []" "length ip + 2 * length gs \<le> 16" "\<And>g. g \<in> set gs \<Longrightarrow> g < 65536"
  shows "parseIPv6Loop ip ell (hex6 gs) = Some (ip @ bytesOf gs, ell)"
  using assms
proof (induction gs arbitrary: ip)
  case Nil then show ?case by simp
next
  case (Cons g gs)
  show ?case
  proof (cases "gs = []")
    case True
    then show ?thesis using Cons.prems parseIPv6Loop_step [of ip g "[]" ell] by simp
  next
    case False
    then obtain c cs where c: "hex6 gs = c # cs" "isHex c" using hex6_Cons_hex by blast
    then have "parseIPv6Loop ip ell (hex6 (g # gs)) = parseIPv6Loop (ip @ putGroup g) ell (hex6 gs)"
      using False Cons.prems parseIPv6Loop_step [of ip g "CHR '':'' # hex6 gs" ell] by auto
    with False Cons.IH [of "ip @ putGroup g"] Cons.prems show ?thesis by simp
  qed
qed

lemma parseIPv6Loop_compressed:
  assumes "gs \<noteq> []" "length ip + 2 * length gs + 2 * length hs < 16" "\<And>g. g \<in> set (gs @ hs) \<Longrightarrow> g < 65536"
  shows "parseIPv6Loop ip None (hex6 gs @ ''::'' @ hex6 hs)
       = Some (ip @ bytesOf gs @ bytesOf hs, Some (length ip + 2 * length gs))"
  using assms
proof (induction gs arbitrary: ip)
  case Nil then show ?case by simp
next
  case (Cons g gs)
  show ?case
  proof (cases "gs = []")
    case True
    have st: "parseIPv6Loop ip None (hexNat g @ CHR '':'' # CHR '':'' # hex6 hs)
        = (if hex6 hs = [] then Some (ip @ putGroup g, Some (length ip + 2))
           else parseIPv6Loop (ip @ putGroup g) (Some (length ip + 2)) (hex6 hs))"
      using Cons.prems parseIPv6Loop_step [of ip g "CHR '':'' # CHR '':'' # hex6 hs" None] by auto
    show ?thesis
    proof (cases "hs = []")
      case T2: True
      then show ?thesis using True st by simp
    next
      case False
      then have "hex6 hs \<noteq> []" using hex6_Cons_hex by fastforce
      then show ?thesis using True False st Cons.prems
          parseIPv6Loop_groups [of hs "ip @ putGroup g" "Some (length ip + 2)"] by simp
    qed
  next
    case False
    then obtain c cs where c: "hex6 gs = c # cs" "isHex c" using hex6_Cons_hex by blast
    have "parseIPv6Loop ip None (hex6 (g # gs) @ ''::'' @ hex6 hs)
        = parseIPv6Loop (ip @ putGroup g) None (hex6 gs @ ''::'' @ hex6 hs)"
      using False c Cons.prems
        parseIPv6Loop_step [of ip g "CHR '':'' # hex6 gs @ ''::'' @ hex6 hs" None] by auto
    with False Cons.IH [of "ip @ putGroup g"] Cons.prems show ?thesis by simp
  qed
qed

subsection \<open>The compressed run\<close>

lemma zeroRunAt_zeros:
  "take (zeroRunAt gs i) (drop i gs) = replicate (zeroRunAt gs i) 0" "i \<le> length gs \<Longrightarrow> i + zeroRunAt gs i \<le> length gs"
proof -
  let ?t = "takeWhile (\<lambda>g. g = 0) (drop i gs)"
  have "take (length ?t) (drop i gs) = ?t" by (metis takeWhile_eq_take)
  moreover have "?t = replicate (length ?t) 0"
    by (rule replicate_eqI) (auto dest: set_takeWhileD)
  ultimately show "take (zeroRunAt gs i) (drop i gs) = replicate (zeroRunAt gs i) 0"
    unfolding zeroRunAt_def by metis
  show "i \<le> length gs \<Longrightarrow> i + zeroRunAt gs i \<le> length gs"
    using length_takeWhile_le [of "\<lambda>g. g = 0" "drop i gs"] by (simp add: zeroRunAt_def)
qed

lemma zeroRun_OK: "zeroRunOK gs (zeroRun gs)"
proof -
  let ?f = "\<lambda>i best. let l = zeroRunAt gs i in
       if 2 \<le> l \<and> (case best of None \<Rightarrow> True | Some (s, e) \<Rightarrow> e - s < l) then Some (i, i + l) else best"
  have step: "zeroRunOK gs (?f i best)" if "zeroRunOK gs best" "i \<le> length gs" for i best
    using that zeroRunAt_zeros [where gs = gs and i = i] by (auto simp: zeroRunOK_def Let_def)
  have "zeroRunOK gs (fold ?f is best)" if "zeroRunOK gs best" "\<forall>i \<in> set is. i \<le> length gs" for "is" best
    using that
  proof (induction "is" arbitrary: best)
    case (Cons i js)
    then show ?case using step [of best i] by (simp del: Let_def)
  qed simp
  then show ?thesis unfolding zeroRun_def by (simp add: zeroRunOK_def)
qed

lemma not_prefix_hex6: "gs \<noteq> [] \<Longrightarrow> \<not> hasPrefix (hex6 gs @ r) ''::''"
  using hex6_Cons_hex [of gs] by auto

lemma parseIPv6_compressed:
  assumes len: "length gs + length hs < 8" and mem: "\<And>g. g \<in> set (gs @ hs) \<Longrightarrow> g < 65536"
  shows "parseIPv6 (hex6 gs @ ''::'' @ hex6 hs)
       = Some (bytesOf gs @ replicate (16 - (2 * length gs + 2 * length hs)) 0 @ bytesOf hs)"
proof (cases "gs = []")
  case False
  have "parseIPv6Loop [] None (hex6 gs @ ''::'' @ hex6 hs) = Some (bytesOf gs @ bytesOf hs, Some (2 * length gs))"
    using parseIPv6Loop_compressed [OF False, of "[]" hs] len mem by simp
  moreover have "\<not> hasPrefix (hex6 gs @ ''::'' @ hex6 hs) ''::''" by (rule not_prefix_hex6 [OF False])
  ultimately show ?thesis using len by (simp add: parseIPv6_def)
next
  case gs: True
  show ?thesis
  proof (cases "hs = []")
    case True
    then show ?thesis using gs by (simp add: parseIPv6_def)
  next
    case False
    then have "parseIPv6Loop [] (Some 0) (hex6 hs) = Some (bytesOf hs, Some 0)"
      using parseIPv6Loop_groups [OF False, of "[]" "Some 0"] len mem by simp
    moreover have "hex6 hs \<noteq> []" using hex6_Cons_hex [OF False] by auto
    ultimately show ?thesis using len gs by (simp add: parseIPv6_def)
  qed
qed

lemma parseIPv6_ip6String:
  assumes l: "length ip = 16"
  shows "parseIPv6 (ip6String ip) = Some ip"
proof -
  let ?gs = "ip6Groups ip"
  have g8: "length ?gs = 8" using l by (simp add: length_ip6Groups)
  have ne: "?gs \<noteq> []" using g8 by auto
  have b: "bytesOf ?gs = ip" using l by (intro bytesOf_ip6Groups) simp
  have bd: "g < 65536" if "g \<in> set ?gs" for g using that by (rule ip6Groups_bound)
  show ?thesis
  proof (cases "zeroRun ?gs")
    case None
    then have "ip6String ip = hex6 ?gs" by (simp add: ip6String_def hex6_def)
    moreover have "parseIPv6Loop [] None (hex6 ?gs) = Some (ip, None)"
      using parseIPv6Loop_groups [OF ne, of "[]" None] g8 bd b by simp
    moreover have "\<not> hasPrefix (hex6 ?gs) ''::''" using not_prefix_hex6 [OF ne, of "[]"] by simp
    ultimately show ?thesis using l by (simp add: parseIPv6_def)
  next
    case (Some se)
    obtain s e where se: "se = (s, e)" by force
    let ?a = "take s ?gs" and ?z = "drop e ?gs"
    have st: "ip6String ip = hex6 ?a @ ''::'' @ hex6 ?z"
      using Some se by (simp add: ip6String_def hex6_def Let_def)
    have ok: "s + 2 \<le> e" "e \<le> 8" "take (e - s) (drop s ?gs) = replicate (e - s) 0"
      using zeroRun_OK [of ?gs] Some se g8 by (auto simp: zeroRunOK_def)
    have "?gs = ?a @ take (e - s) (drop s ?gs) @ drop (e - s) (drop s ?gs)"
      by (metis append_take_drop_id)
    then have "?gs = ?a @ replicate (e - s) 0 @ ?z" using ok by simp
    then have ip: "ip = bytesOf ?a @ replicate (2 * (e - s)) 0 @ bytesOf ?z"
      using arg_cong [of ?gs _ bytesOf] b by (metis bytesOf_simps(3) bytesOf_zeros)
    have len: "length ?a = s" "length ?z = 8 - e" using ok g8 by auto
    have "16 - (2 * s + 2 * (8 - e)) = 2 * (e - s)" using ok by simp
    moreover have "g < 65536" if "g \<in> set (?a @ ?z)" for g
      using that bd by (auto dest: in_set_takeD in_set_dropD)
    ultimately show ?thesis using parseIPv6_compressed [of ?a ?z] len ok ip st by simp
  qed
qed

subsection \<open>Whole addresses\<close>

lemma length_To4: "To4 ip \<noteq> [] \<Longrightarrow> length (To4 ip) = 4"
  by (auto simp: To4_def split: if_splits)

lemma To16_To4: "To4 ip \<noteq> [] \<Longrightarrow> v4InV6Prefix @ To4 ip = To16 ip"
  by (auto simp: To4_def To16_def split: if_splits) (metis append_take_drop_id)

lemma not_isHex_percent: "\<not> isHex CHR ''%''"
  by (simp add: isHex_def isDigit_def)

lemma find_unique:
  assumes "y \<in> set xs" "P y" "\<And>x. x \<in> set xs \<Longrightarrow> P x \<Longrightarrow> x = y"
  shows "find P xs = Some y"
  using assms
proof (induction xs)
  case (Cons x xs)
  show ?case
  proof (cases "P x")
    case True
    then show ?thesis using Cons.prems(3) [of x] by simp
  next
    case False
    then have "y \<in> set xs" using Cons.prems(1,2) by auto
    then have "find P xs = Some y" by (rule Cons.IH [OF _ Cons.prems(2)]) (rule Cons.prems(3), simp)
    then show ?thesis using False by simp
  qed
qed simp

lemma find_colon_ip6String:
  assumes "length ip = 16"
  shows "find (\<lambda>c. c = CHR ''.'' \<or> c = CHR '':'' \<or> c = CHR ''%'') (ip6String ip) = Some CHR '':''"
proof -
  have c: "CHR '':'' \<in> set (ip6String ip)"
  proof (cases "zeroRun (ip6Groups ip)")
    case None
    have "length (ip6Groups ip) = 8" using assms by (simp add: length_ip6Groups)
    then obtain g h gs where "ip6Groups ip = g # h # gs" by (cases "ip6Groups ip"; cases "tl (ip6Groups ip)") auto
    with None show ?thesis by (simp add: ip6String_def)
  qed (auto simp: ip6String_def Let_def)
  have "CHR ''.'' \<notin> set (ip6String ip)" "CHR ''%'' \<notin> set (ip6String ip)"
    using ip6String_chars [of "CHR ''.''" ip] ip6String_chars [of "CHR ''%''" ip] not_isHex_percent by auto
  then show ?thesis using c by (intro find_unique) metis+
qed

lemma ParseIP_IP_String:
  assumes "ip_ok ip"
  shows "ParseIP (IP_String ip) = To16 ip"
proof (cases "To4 ip = []")
  case True
  then have l: "length ip = 16" using assms by (auto simp: ip_ok_def To4_def)
  then have s: "IP_String ip = ip6String ip" using True by (auto simp: IP_String_def)
  have "CHR ''%'' \<notin> set (ip6String ip)"
    using ip6String_chars [of "CHR ''%''" ip] not_isHex_percent by auto
  then have "ParseAddr (ip6String ip) = Some ip"
    using find_colon_ip6String [OF l] parseIPv6_ip6String [OF l] by (simp add: ParseAddr_def)
  then show ?thesis using l s by (simp add: ParseIP_def To16_def)
next
  case False
  then have l: "length (To4 ip) = 4" by (rule length_To4)
  then have "To4 (To4 ip) = To4 ip" by (simp add: To4_def)
  then have "IP_String ip = IP_String (To4 ip)" using False assms by (auto simp: IP_String_def ip_ok_def)
  then show ?thesis using ParseIP_IPv4_String [OF l] To16_To4 [OF False] by simp
qed

lemma ip4String_split:
  assumes "length ip = 4"
  shows "\<exists>r. ip4String ip = itoaNat (unat (hd ip)) @ CHR ''.'' # r"
  using assms by (cases ip; cases "tl ip") (auto simp: ip4String_def)

lemma parseIPv6Loop_ip4:
  assumes "length ip = 4"
  shows "parseIPv6Loop [0xff, 0xff] (Some 0) (ip4String ip) = Some ([0xff, 0xff] @ ip, Some 0)"
proof -
  let ?P = "\<lambda>c. hexVal c \<noteq> None"
  obtain r where s: "ip4String ip = itoaNat (unat (hd ip)) @ CHR ''.'' # r" using ip4String_split [OF assms] by blast
  have d: "\<And>c. c \<in> set (itoaNat (unat (hd ip))) \<Longrightarrow> ?P c"
    by (drule itoaNat_isDigit) (auto simp: isDigit_def hexVal_def Let_def)
  have n: "(CHR ''.'' # r = []) \<or> \<not> ?P (hd (CHR ''.'' # r))" by (simp add: hexVal_def)
  have w: "takeWhile ?P (ip4String ip) = itoaNat (unat (hd ip))" "dropWhile ?P (ip4String ip) = CHR ''.'' # r"
    unfolding s using takeWhile_word [of "itoaNat (unat (hd ip))" ?P "CHR ''.'' # r"] d n by blast+
  have "length (itoaNat (unat (hd ip))) \<le> 4"
    using length_itoaNat [of "unat (hd ip)" 3] unat_byte [of "hd ip"] by simp
  then show ?thesis
    by (subst parseIPv6Loop.simps, unfold w) (simp add: parseIPv4_ip4String [OF assms])
qed

lemma hexNat_ffff: "hexNat 65535 = ''ffff''"
  by (simp add: hexNat.simps hexChar_def char_of_def bit_0)

lemma ParseIP_mapped:
  assumes "length ip = 4"
  shows "ParseIP (''::ffff:'' @ ip4String ip) = v4InV6Prefix @ ip"
proof -
  let ?s = "''::ffff:'' @ ip4String ip"
  obtain r where r: "ip4String ip = itoaNat (unat (hd ip)) @ CHR ''.'' # r" using ip4String_split [OF assms] by blast
  then have ne: "ip4String ip \<noteq> []" by simp
  then have "hd (ip4String ip) \<in> set (ip4String ip)" by simp
  then have hd: "hd (ip4String ip) \<noteq> CHR '':''" using ip4String_chars [of "CHR '':''" ip] by (auto simp: isDigit_def)
  have "parseIPv6Loop [] (Some 0) (''ffff:'' @ ip4String ip) = parseIPv6Loop [0xff, 0xff] (Some 0) (ip4String ip)"
    using parseIPv6Loop_step [of "[]" 65535 "CHR '':'' # ip4String ip" "Some 0"] hd ne
    by (simp add: hexNat_ffff putGroup_def)
  then have "parseIPv6 ?s = Some (v4InV6Prefix @ ip)"
    using parseIPv6Loop_ip4 [OF assms] assms by (simp add: parseIPv6_def v4InV6Prefix_def)
  moreover have "CHR ''%'' \<notin> set ?s" using ip4String_chars [of "CHR ''%''" ip] by (auto simp: isDigit_def)
  ultimately show ?thesis using assms by (simp add: ParseIP_def ParseAddr_def To16_def v4InV6Prefix_def)
qed

subsection \<open>Lengths\<close>

lemma length_joinStr: "(\<And>w. w \<in> set ws \<Longrightarrow> length w \<le> k) \<Longrightarrow> length (joinStr [c] ws) \<le> Suc k * length ws"
proof (induction "[c]" ws rule: joinStr.induct)
  case (3 w v vs)
  have "length w \<le> k" using 3(2) by simp
  moreover have "length (joinStr [c] (v # vs)) \<le> Suc k * length (v # vs)" using 3 by simp
  ultimately show ?case by simp
qed auto

lemma length_ip4String: "length (ip4String ip) \<le> 4 * length ip"
proof -
  have "length (itoaNat (unat b)) \<le> 3" for b :: byte
    using length_itoaNat [of "unat b" 2] unat_byte [of b] by simp
  then show ?thesis using length_joinStr [of "map (\<lambda>b. itoaNat (unat b)) ip" 3 "CHR ''.''"]
    by (auto simp: ip4String_def)
qed

lemma length_ip6String: "length ip = 16 \<Longrightarrow> length (ip6String ip) \<le> 82"
proof -
  assume "length ip = 16"
  then have l: "length (ip6Groups ip) = 8" by (simp add: length_ip6Groups)
  have h: "length (hexNat g) \<le> 4" if "g \<in> set (ip6Groups ip)" for g
    using length_hexNat [of g 3] ip6Groups_bound [OF that] by simp
  have j: "length (joinStr '':'' (map hexNat gs)) \<le> 5 * length gs" if "set gs \<subseteq> set (ip6Groups ip)" for gs
    using length_joinStr [of "map hexNat gs" 4 "CHR '':''"] h that by auto
  have t: "length (joinStr '':'' (map hexNat (take s (ip6Groups ip)))) \<le> 40" for s
    using j [of "take s (ip6Groups ip)"] l by (simp add: set_take_subset min_def split: if_splits)
  have d: "length (joinStr '':'' (map hexNat (drop s (ip6Groups ip)))) \<le> 40" for s
    using j [of "drop s (ip6Groups ip)"] l by (simp add: set_drop_subset)
  show ?thesis using j [of "ip6Groups ip"] l t d
    by (auto simp: ip6String_def Let_def split: option.splits intro: add_mono [of _ 40 _ 40, simplified])
qed

lemma length_IP_String: "ip_ok ip \<Longrightarrow> length (IP_String ip) \<le> 82"
proof (cases "To4 ip = []")
  case False
  then show ?thesis using length_ip4String [of "To4 ip"] length_To4 [of ip] by (auto simp: IP_String_def)
next
  case True
  assume "ip_ok ip"
  with True have "length ip = 16" by (auto simp: ip_ok_def To4_def)
  with True show ?thesis using length_ip6String [of ip] by (auto simp: IP_String_def)
qed

end
