(* ===== verification/SNI_ProxyProtocol.thy ===== *)
theory SNI_ProxyProtocol
  imports Go_IP_RoundTrip Metrics
begin

text \<open>
  PROXY protocol version 1 in \<open>proxy/proxy.go\<close>: \<open>parseProxyProtocolHeader\<close>,
  \<open>buildProxyProtocolHeader\<close>, \<open>buildProxyProtocolHeaderFromInfo\<close> and their helpers.

  A connection is what the parser uses of it: its remote address, the bytes available when it is
  first read (\<open>None\<close> when that read fails), of which one \<open>Read\<close> takes at most the 512 of its buffer,
  and whether its read deadline can be set and cleared.  The result says what can be read from the
  connection the caller goes on with (\<open>pp_stream\<close>: the data put back by \<open>io.MultiReader\<close>, then
  what was never read) and whether the read deadline is still armed (\<open>pp_deadline\<close>).

  Shown: a header built by the proxy is parsed back by the next one, with both addresses, both ports
  and all data after it; every path that accepts the connection puts back exactly the bytes that are
  not a header, except \<open>PROXY UNKNOWN\<close>, which drops them; the two addresses of a header built are of
  the declared family.
\<close>

datatype NetAddr = TCPAddr IP int string | OtherAddr string

definition NetAddr_String :: "NetAddr \<Rightarrow> string" where
  "NetAddr_String a = (case a of
       TCPAddr ip port zone \<Rightarrow>
         (let h = (if ip = [] then [] else IP_String ip)
          in JoinHostPort (if zone \<noteq> [] then h @ ''%'' @ zone else h) (Itoa port))
     | OtherAddr s \<Rightarrow> s)"

record ProxyProtocolInfo =
  pi_Protocol :: string
  pi_SrcIP :: string
  pi_DestIP :: string
  pi_SrcPort :: int
  pi_DestPort :: int

record ppConn =
  pc_remote :: NetAddr
  pc_avail :: "string option"
  pc_setOK :: bool
  pc_clearOK :: bool

datatype ppError = ErrRemoteAddr | ErrSetDeadline | ErrSrcPort | ErrDestPort | ErrClearDeadline

record ppResult =
  pp_info :: "ProxyProtocolInfo option"
  pp_stream :: string
  pp_deadline :: bool

definition CRLF :: string where
  "CRLF = [CHR 0x0D, CHR 0x0A]"

definition keepConn :: "string \<Rightarrow> bool \<Rightarrow> ppResult" where
  "keepConn stream armed = \<lparr>pp_info = None, pp_stream = stream, pp_deadline = armed\<rparr>"

definition parseProxyProtocolHeader :: "string set \<Rightarrow> ppConn \<Rightarrow> ppError + ppResult" where
  "parseProxyProtocolHeader trustedUpstreams conn =
     (case SplitHostPort (NetAddr_String (pc_remote conn)) of
        None \<Rightarrow> Inl ErrRemoteAddr
      | Some (remoteHost, _) \<Rightarrow>
          if remoteHost \<notin> trustedUpstreams
          then Inr (keepConn (case pc_avail conn of None \<Rightarrow> [] | Some d \<Rightarrow> d) False)
          else if \<not> pc_setOK conn then Inl ErrSetDeadline
          else case pc_avail conn of
            None \<Rightarrow> Inr (keepConn [] (\<not> pc_clearOK conn))
          | Some avail \<Rightarrow>
              let buffer = take 512 avail; unread = drop 512 avail in
              (case cut buffer CRLF of
                 None \<Rightarrow> Inr (keepConn (buffer @ unread) (\<not> pc_clearOK conn))
               | Some (headerLine, remainingData) \<Rightarrow>
                   let parts = strFields headerLine in
                   if length parts \<noteq> 6 \<or> parts ! 0 \<noteq> ''PROXY'' then
                     (if length parts = 2 \<and> parts ! 0 = ''PROXY'' \<and> parts ! 1 = ''UNKNOWN''
                      then Inr (keepConn unread True)
                      else Inr (keepConn (buffer @ unread) (\<not> pc_clearOK conn)))
                   else (case Atoi (parts ! 4) of
                     None \<Rightarrow> Inl ErrSrcPort
                   | Some srcPort \<Rightarrow>
                       (case Atoi (parts ! 5) of
                          None \<Rightarrow> Inl ErrDestPort
                        | Some destPort \<Rightarrow>
                            if \<not> pc_clearOK conn then Inl ErrClearDeadline
                            else Inr \<lparr>pp_info = Some \<lparr>pi_Protocol = parts ! 1, pi_SrcIP = parts ! 2, pi_DestIP = parts ! 3,
                                        pi_SrcPort = srcPort, pi_DestPort = destPort\<rparr>,
                                      pp_stream = remainingData @ unread, pp_deadline = False\<rparr>))))"

definition determineProxyProtocolAndTargetIP :: "IP \<Rightarrow> IP \<Rightarrow> string \<times> string" where
  "determineProxyProtocolAndTargetIP clientIP targetIP =
     (if To4 clientIP \<noteq> [] then
        (if To4 targetIP \<noteq> [] then (''TCP4'', IP_String targetIP) else (''TCP6'', IP_String targetIP))
      else if To4 targetIP \<noteq> [] then (''TCP6'', ''::ffff:'' @ IP_String targetIP)
      else (''TCP6'', IP_String targetIP))"

definition normalizeProxyProtocolIP :: "IP \<Rightarrow> string \<Rightarrow> string" where
  "normalizeProxyProtocolIP ip protocol =
     (if protocol = ''TCP6'' \<and> To4 ip \<noteq> [] then ''::ffff:'' @ IP_String ip else IP_String ip)"

definition proxyLine :: "string \<Rightarrow> string \<Rightarrow> string \<Rightarrow> int \<Rightarrow> int \<Rightarrow> string" where
  "proxyLine protocol src dst srcPort dstPort =
     ''PROXY '' @ protocol @ '' '' @ src @ '' '' @ dst @ '' '' @ Itoa srcPort @ '' '' @ Itoa dstPort @ CRLF"

definition buildProxyProtocolHeader :: "NetAddr \<Rightarrow> NetAddr \<Rightarrow> string" where
  "buildProxyProtocolHeader clientAddr targetAddr =
     (case clientAddr of
        OtherAddr _ \<Rightarrow> ''PROXY UNKNOWN'' @ CRLF
      | TCPAddr clientIP clientPort _ \<Rightarrow>
     (case targetAddr of
        OtherAddr _ \<Rightarrow> ''PROXY UNKNOWN'' @ CRLF
      | TCPAddr targetIP targetPort _ \<Rightarrow>
          let (protocol, normalizedTargetIP) = determineProxyProtocolAndTargetIP clientIP targetIP
          in proxyLine protocol (normalizeProxyProtocolIP clientIP protocol) normalizedTargetIP clientPort targetPort))"

definition buildProxyProtocolHeaderFromInfo :: "ProxyProtocolInfo \<Rightarrow> NetAddr \<Rightarrow> string" where
  "buildProxyProtocolHeaderFromInfo proxyInfo targetAddr =
     (case targetAddr of
        OtherAddr _ \<Rightarrow> ''PROXY UNKNOWN'' @ CRLF
      | TCPAddr targetIP targetPort _ \<Rightarrow>
          let srcIP = ParseIP (pi_SrcIP proxyInfo) in
          if srcIP = [] then ''PROXY UNKNOWN'' @ CRLF
          else
            let (protocol, target) = determineProxyProtocolAndTargetIP srcIP targetIP
            in proxyLine protocol (normalizeProxyProtocolIP srcIP protocol) target (pi_SrcPort proxyInfo) targetPort)"

subsection \<open>Parsing what was built\<close>

definition word_ok :: "string \<Rightarrow> bool" where
  "word_ok w \<longleftrightarrow> w \<noteq> [] \<and> list_all (\<lambda>c. \<not> isSpace c) w"

definition port_ok :: "int \<Rightarrow> bool" where
  "port_ok p \<longleftrightarrow> 0 \<le> p \<and> p \<le> 65535"

definition proxyWords :: "string \<Rightarrow> string \<Rightarrow> string \<Rightarrow> int \<Rightarrow> int \<Rightarrow> string" where
  "proxyWords protocol src dst srcPort dstPort =
     ''PROXY'' @ '' '' @ protocol @ '' '' @ src @ '' '' @ dst @ '' '' @ Itoa srcPort @ '' '' @ Itoa dstPort"

definition exampleConn :: ppConn where
  "exampleConn = \<lparr>pc_remote = TCPAddr [10, 0, 0, 1] 555 [],
     pc_avail = Some (buildProxyProtocolHeader (TCPAddr [192, 0, 2, 7] 4000 []) (TCPAddr [10, 0, 0, 2] 443 []) @ ''hello''),
     pc_setOK = True, pc_clearOK = True\<rparr>"

lemma isHex_not_space: "isHex c \<Longrightarrow> \<not> isSpace c"
  by (auto simp: isHex_def isDigit_def isSpace_def)

lemma word_ok_Itoa [simp]: "word_ok (Itoa i)"
  using Itoa_chars [of _ i] isDigit_not_space by (fastforce simp: word_ok_def list_all_iff isSpace_def)

lemma ip4String_not_Nil [simp]: "length ip = 4 \<Longrightarrow> ip4String ip \<noteq> []"
  by (cases ip; cases "tl ip") (auto simp: ip4String_def)

lemma word_ok_ip4String [simp]: "length ip = 4 \<Longrightarrow> word_ok (ip4String ip)"
  using ip4String_chars [of _ ip] isDigit_not_space by (fastforce simp: word_ok_def list_all_iff isSpace_def)

lemma ip6String_not_Nil: "length ip = 16 \<Longrightarrow> ip6String ip \<noteq> []"
proof -
  assume "length ip = 16"
  then have "length (ip6Groups ip) = 8" by (simp add: length_ip6Groups)
  then obtain g h gs where "ip6Groups ip = g # h # gs" by (cases "ip6Groups ip"; cases "tl (ip6Groups ip)") auto
  then show ?thesis by (auto simp: ip6String_def Let_def split: option.splits)
qed

lemma word_ok_IP_String [simp]: "ip_ok ip \<Longrightarrow> word_ok (IP_String ip)"
proof (cases "To4 ip = []")
  case False
  assume "ip_ok ip"
  with False show ?thesis by (auto simp: IP_String_def ip_ok_def length_To4)
next
  case True
  assume "ip_ok ip"
  with True have l: "length ip = 16" by (auto simp: ip_ok_def To4_def)
  then have "word_ok (ip6String ip)"
    using ip6String_chars [of _ ip] isHex_not_space ip6String_not_Nil [OF l]
    by (fastforce simp: word_ok_def list_all_iff isSpace_def)
  with True l show ?thesis by (auto simp: IP_String_def)
qed

lemma word_ok_append: "word_ok v \<Longrightarrow> list_all (\<lambda>c. \<not> isSpace c) u \<Longrightarrow> word_ok (u @ v)"
  by (auto simp: word_ok_def)

lemma word_ok_mapped [simp]: "word_ok w \<Longrightarrow> word_ok (''::ffff:'' @ w)"
  by (rule word_ok_append) (auto simp: isSpace_def)

lemma strFields_word_ok: "word_ok w \<Longrightarrow> strFields (w @ CHR '' '' # s) = w # strFields s" "word_ok w \<Longrightarrow> strFields w = [w]"
  by (simp_all add: word_ok_def strFields_Cons_word strFields_word)

lemma cut_CRLF: "CHR 0x0D \<notin> set a \<Longrightarrow> cut (a @ CRLF @ b) CRLF = Some (a, b)"
  by (induction a) (auto simp: CRLF_def)

lemma proxyLine_words: "proxyLine p s d sp dp = proxyWords p s d sp dp @ CRLF"
  by (simp add: proxyLine_def proxyWords_def)

lemma strFields_proxyWords:
  assumes "word_ok p" "word_ok s" "word_ok d"
  shows "strFields (proxyWords p s d sp dp) = [''PROXY'', p, s, d, Itoa sp, Itoa dp]"
proof -
  have "word_ok ''PROXY''" by (simp add: word_ok_def isSpace_def)
  from strFields_word_ok(1) [OF this] show ?thesis
    using assms by (simp add: proxyWords_def strFields_word_ok)
qed

lemma isSpace_CR [simp]: "isSpace CHR 0x0D"
  by (simp add: isSpace_def)

lemma word_ok_no_CR: "word_ok w \<Longrightarrow> CHR 0x0D \<notin> set w"
  by (auto simp: word_ok_def list_all_iff dest: bspec [where x = "CHR 0x0D"])

lemma proxyWords_no_CR:
  assumes "word_ok p" "word_ok s" "word_ok d"
  shows "CHR 0x0D \<notin> set (proxyWords p s d sp dp)"
  using assms [THEN word_ok_no_CR] word_ok_no_CR [OF word_ok_Itoa] by (simp add: proxyWords_def)

subsection \<open>The length of a header\<close>

lemma length_Itoa_port: "port_ok p \<Longrightarrow> length (Itoa p) \<le> 5"
proof -
  assume p: "port_ok p"
  then have "nat p < 100000" by (auto simp: port_ok_def)
  then show ?thesis using length_itoaNat [of "nat p" 4] p by (simp add: port_ok_def Itoa_def)
qed

lemma port_int64: "port_ok p \<Longrightarrow> int64_ok p"
  by (simp add: port_ok_def int64_ok_def)

subsection \<open>Building and parsing\<close>

lemma parse_proxyLine:
  assumes T: "SplitHostPort (NetAddr_String (pc_remote conn)) = Some (h, q)" "h \<in> trusted" "pc_setOK conn" "pc_clearOK conn"
    and av: "pc_avail conn = Some (proxyLine p s d sp dp @ rest)"
    and w: "word_ok p" "word_ok s" "word_ok d" and n: "int64_ok sp" "int64_ok dp"
    and len: "length (proxyLine p s d sp dp) \<le> 512"
  shows "parseProxyProtocolHeader trusted conn
       = Inr \<lparr>pp_info = Some \<lparr>pi_Protocol = p, pi_SrcIP = s, pi_DestIP = d, pi_SrcPort = sp, pi_DestPort = dp\<rparr>,
              pp_stream = rest, pp_deadline = False\<rparr>"
proof -
  let ?l = "proxyLine p s d sp dp"
  have "cut (proxyWords p s d sp dp @ CRLF @ take (512 - length ?l) rest) CRLF
      = Some (proxyWords p s d sp dp, take (512 - length ?l) rest)"
    by (rule cut_CRLF) (rule proxyWords_no_CR [OF w])
  then have "cut (take 512 (?l @ rest)) CRLF = Some (proxyWords p s d sp dp, take (512 - length ?l) rest)"
    using len by (simp add: proxyLine_words)
  moreover have "drop 512 (?l @ rest) = drop (512 - length ?l) rest" using len by simp
  ultimately show ?thesis using T av
    by (simp add: parseProxyProtocolHeader_def strFields_proxyWords [OF w] Atoi_Itoa n)
qed

lemma length_proxyLine:
  assumes "length p = 4" "length s \<le> 90" "length d \<le> 90" "port_ok sp" "port_ok dp"
  shows "length (proxyLine p s d sp dp) \<le> 512"
  using assms length_Itoa_port [of sp] length_Itoa_port [of dp] by (simp add: proxyLine_def CRLF_def)

lemma family_strings:
  assumes "ip_ok c" "ip_ok t" "determineProxyProtocolAndTargetIP c t = (p, d)"
  shows "word_ok p" "length p = 4" "word_ok d" "length d \<le> 90"
    "word_ok (normalizeProxyProtocolIP c p)" "length (normalizeProxyProtocolIP c p) \<le> 90"
    "p = ''TCP4'' \<longleftrightarrow> To4 c \<noteq> [] \<and> To4 t \<noteq> []"
proof -
  have w: "word_ok ''TCP4''" "word_ok ''TCP6''" by (simp_all add: word_ok_def isSpace_def)
  show "word_ok p" "length p = 4" "word_ok d" "length d \<le> 90" "p = ''TCP4'' \<longleftrightarrow> To4 c \<noteq> [] \<and> To4 t \<noteq> []"
    using assms w word_ok_mapped [of "IP_String t"] length_IP_String [of t] word_ok_IP_String [of t]
    by (auto simp: determineProxyProtocolAndTargetIP_def split: if_splits)
  show "word_ok (normalizeProxyProtocolIP c p)" "length (normalizeProxyProtocolIP c p) \<le> 90"
    using assms(1) word_ok_mapped [of "IP_String c"] length_IP_String [of c] word_ok_IP_String [of c]
    by (auto simp: normalizeProxyProtocolIP_def)
qed

lemma parse_built_header:
  assumes T: "SplitHostPort (NetAddr_String (pc_remote conn)) = Some (h, q)" "h \<in> trusted" "pc_setOK conn" "pc_clearOK conn"
    and av: "pc_avail conn = Some (buildProxyProtocolHeader (TCPAddr c cp z) (TCPAddr t tp z') @ rest)"
    and ok: "ip_ok c" "ip_ok t" "port_ok cp" "port_ok tp"
    and pd: "determineProxyProtocolAndTargetIP c t = (p, d)"
  shows "parseProxyProtocolHeader trusted conn
       = Inr \<lparr>pp_info = Some \<lparr>pi_Protocol = p, pi_SrcIP = normalizeProxyProtocolIP c p, pi_DestIP = d,
                pi_SrcPort = cp, pi_DestPort = tp\<rparr>, pp_stream = rest, pp_deadline = False\<rparr>"
proof (rule parse_proxyLine [OF T])
  note f = family_strings [OF ok(1,2) pd]
  show "pc_avail conn = Some (proxyLine p (normalizeProxyProtocolIP c p) d cp tp @ rest)"
    using av pd by (simp add: buildProxyProtocolHeader_def)
  show "word_ok p" "word_ok (normalizeProxyProtocolIP c p)" "word_ok d" by (rule f)+
  show "int64_ok cp" "int64_ok tp" using ok by (simp_all add: port_int64)
  show "length (proxyLine p (normalizeProxyProtocolIP c p) d cp tp) \<le> 512"
    using f ok by (intro length_proxyLine) auto
qed

lemma To4_To16: "ip_ok ip \<Longrightarrow> To4 (To16 ip) = To4 ip"
  by (auto simp: To4_def To16_def ip_ok_def v4InV6Prefix_def)

lemma IP_String_To16: "ip_ok ip \<Longrightarrow> IP_String (To16 ip) = IP_String ip"
proof (cases "To4 ip = []")
  case True
  assume "ip_ok ip"
  with True have "length ip = 16" by (auto simp: ip_ok_def To4_def)
  then show ?thesis by (simp add: To16_def)
next
  case False
  assume ok: "ip_ok ip"
  then have "ip \<noteq> []" "To16 ip \<noteq> []" by (auto simp: ip_ok_def To16_def)
  with False show ?thesis using To4_To16 [OF ok] by (simp add: IP_String_def)
qed

lemma To16_not_Nil: "ip_ok ip \<Longrightarrow> To16 ip \<noteq> []"
  by (auto simp: ip_ok_def To16_def)

lemma ParseIP_normalized:
  assumes ok: "ip_ok c"
  shows "ParseIP (normalizeProxyProtocolIP c p) = To16 c"
proof (cases "p = ''TCP6'' \<and> To4 c \<noteq> []")
  case True
  then have "IP_String c = ip4String (To4 c)" using ok by (auto simp: IP_String_def ip_ok_def)
  with True show ?thesis
    using ParseIP_mapped [OF length_To4, of c] To16_To4 [of c] by (simp add: normalizeProxyProtocolIP_def)
next
  case False
  then have "normalizeProxyProtocolIP c p = IP_String c" by (auto simp: normalizeProxyProtocolIP_def)
  then show ?thesis using ParseIP_IP_String [OF ok] by simp
qed

lemma family_To16:
  assumes "ip_ok c"
  shows "determineProxyProtocolAndTargetIP (To16 c) t = determineProxyProtocolAndTargetIP c t"
    "normalizeProxyProtocolIP (To16 c) p = normalizeProxyProtocolIP c p"
  using To4_To16 [OF assms] IP_String_To16 [OF assms]
  by (simp_all add: determineProxyProtocolAndTargetIP_def normalizeProxyProtocolIP_def)

lemma header_from_info:
  assumes "ip_ok c" "pi_SrcIP info = normalizeProxyProtocolIP c p" "pi_SrcPort info = cp"
  shows "buildProxyProtocolHeaderFromInfo info target = buildProxyProtocolHeader (TCPAddr c cp z) target"
  using assms ParseIP_normalized [OF assms(1), of p] To16_not_Nil [OF assms(1)] family_To16 [OF assms(1)]
  by (auto simp: buildProxyProtocolHeaderFromInfo_def buildProxyProtocolHeader_def Let_def
      split: NetAddr.splits prod.splits)

lemma list_eq_2: "length xs = 2 \<Longrightarrow> xs = [xs ! 0, xs ! 1]"
  by (cases xs; cases "tl xs") auto

lemma list_eq_6: "length xs = 6 \<Longrightarrow> xs = [xs ! 0, xs ! 1, xs ! 2, xs ! 3, xs ! 4, xs ! 5]"
  by (rule nth_equalityI) (auto simp: nth_Cons' less_Suc_eq numeral_eq_Suc)

lemma target_normalized: "determineProxyProtocolAndTargetIP c t = (p, d) \<Longrightarrow> d = normalizeProxyProtocolIP t p"
  by (auto simp: determineProxyProtocolAndTargetIP_def normalizeProxyProtocolIP_def split: if_splits)

text \<open>
  C25: a header this proxy builds for a client and a target is parsed by the next one, behind which
  it is a trusted upstream: the two ports come back, the two addresses are the same as addresses
  however they are spelled, the family says \<open>TCP4\<close> exactly when both are IPv4, all data after the
  header can still be read, and the header the next proxy then sends to any target of its own is
  the one it would build for the original client, so a chain of proxies keeps the client.
\<close>

theorem proxy_chain_keeps_client:
  assumes "SplitHostPort (NetAddr_String (pc_remote conn)) = Some (h, q)" "h \<in> trusted" "pc_setOK conn" "pc_clearOK conn"
    and "pc_avail conn = Some (buildProxyProtocolHeader (TCPAddr c cp z) (TCPAddr t tp z') @ rest)"
    and "ip_ok c" "ip_ok t" "port_ok cp" "port_ok tp"
  shows "\<exists>info. parseProxyProtocolHeader trusted conn = Inr \<lparr>pp_info = Some info, pp_stream = rest, pp_deadline = False\<rparr> \<and>
      pi_SrcPort info = cp \<and> pi_DestPort info = tp \<and>
      ParseIP (pi_SrcIP info) = To16 c \<and> ParseIP (pi_DestIP info) = To16 t \<and>
      (pi_Protocol info = ''TCP4'' \<longleftrightarrow> To4 c \<noteq> [] \<and> To4 t \<noteq> []) \<and>
      (\<forall>target. buildProxyProtocolHeaderFromInfo info target = buildProxyProtocolHeader (TCPAddr c cp z) target)"
proof -
  obtain p d where pd: "determineProxyProtocolAndTargetIP c t = (p, d)" by force
  note parsed = parse_built_header [OF assms pd]
  note fam = family_strings(7) [OF assms(6,7) pd]
  show ?thesis
    unfolding parsed target_normalized [OF pd]
    using fam ParseIP_normalized [OF assms(6)] ParseIP_normalized [OF assms(7)]
      header_from_info [OF assms(6), where p = p and cp = cp and z = z] by simp
qed

lemma exampleConn_remote: "SplitHostPort (NetAddr_String (pc_remote exampleConn)) = Some (''10.0.0.1'', ''555'')"
  by (simp add: exampleConn_def NetAddr_String_def IP_String_def To4_def ip4String_def Itoa_def
      itoaNat.simps JoinHostPort_def SplitHostPort_def lastIndex_def)

theorem proxy_chain_keeps_client_witness:
  "\<exists>info. parseProxyProtocolHeader {''10.0.0.1''} exampleConn
      = Inr \<lparr>pp_info = Some info, pp_stream = ''hello'', pp_deadline = False\<rparr> \<and> pi_SrcPort info = 4000"
  using proxy_chain_keeps_client [OF exampleConn_remote, of "{''10.0.0.1''}" "[192, 0, 2, 7]" 4000 "[]" "[10, 0, 0, 2]" 443 "[]" "''hello''"]
  by (auto simp: exampleConn_def ip_ok_def port_ok_def)

text \<open>
  C32: when the parser accepts a connection it reports client information only for a trusted
  upstream, and then exactly the header line is taken from the data.  Otherwise every byte can still
  be read, with one exception: after \<open>PROXY UNKNOWN\<close> the rest of the first read is gone.
\<close>

theorem proxy_parse_keeps_data:
  assumes "parseProxyProtocolHeader trusted conn = Inr r" "pc_avail conn = Some avail"
  shows "(\<exists>line info. pp_info r = Some info \<and> avail = line @ CRLF @ pp_stream r \<and>
            strFields line = [''PROXY'', pi_Protocol info, pi_SrcIP info, pi_DestIP info, strFields line ! 4, strFields line ! 5] \<and>
            (\<exists>q. SplitHostPort (NetAddr_String (pc_remote conn)) = Some q \<and> fst q \<in> trusted))
       \<or> pp_info r = None \<and> pp_stream r = avail
       \<or> pp_info r = None \<and> pp_stream r = drop 512 avail \<and>
            (\<exists>line rest. take 512 avail = line @ CRLF @ rest \<and> strFields line = [''PROXY'', ''UNKNOWN''])"
proof (cases "cut (take 512 avail) CRLF")
  case None
  then show ?thesis using assms
    by (auto simp: parseProxyProtocolHeader_def keepConn_def split: option.splits if_splits)
next
  case (Some hr)
  obtain line rest where lr: "hr = (line, rest)" by force
  then have t: "take 512 avail = line @ CRLF @ rest" using Some cut_Some by blast
  have "avail = take 512 avail @ drop 512 avail" by simp
  then have a: "avail = line @ CRLF @ rest @ drop 512 avail" by (metis t append.assoc)
  show ?thesis
  proof (cases "pp_info r")
    case N: None
    have "pp_stream r = avail \<or> pp_stream r = drop 512 avail \<and> length (strFields line) = 2 \<and>
        strFields line ! 0 = ''PROXY'' \<and> strFields line ! 1 = ''UNKNOWN''"
      using assms Some lr N
      by (auto simp: parseProxyProtocolHeader_def keepConn_def Let_def split: option.splits if_splits)
    then show ?thesis using N t list_eq_2 [of "strFields line"] by metis
  next
    case S: (Some info)
    then have "pp_stream r = rest @ drop 512 avail" "length (strFields line) = 6" "strFields line ! 0 = ''PROXY''"
      "pi_Protocol info = strFields line ! 1" "pi_SrcIP info = strFields line ! 2" "pi_DestIP info = strFields line ! 3"
      "\<exists>q. SplitHostPort (NetAddr_String (pc_remote conn)) = Some q \<and> fst q \<in> trusted"
      using assms Some lr
      by (auto simp: parseProxyProtocolHeader_def keepConn_def Let_def split: option.splits if_splits)
    then show ?thesis using S a list_eq_6 [of "strFields line"] by metis
  qed
qed

theorem proxy_parse_keeps_data_witness:
  "\<exists>r. parseProxyProtocolHeader {''10.0.0.1''} (exampleConn\<lparr>pc_avail := Some ''hello''\<rparr>) = Inr r \<and> pp_stream r = ''hello''"
proof -
  let ?c = "exampleConn\<lparr>pc_avail := Some ''hello''\<rparr>"
  have p: "parseProxyProtocolHeader {''10.0.0.1''} ?c = Inr (keepConn ''hello'' False)"
    using exampleConn_remote by (simp add: parseProxyProtocolHeader_def CRLF_def exampleConn_def)
  have "\<not> (\<exists>line rest. take 512 ''hello'' = line @ CRLF @ rest)"
  proof clarify
    fix line rest assume "take 512 ''hello'' = line @ CRLF @ rest"
    then have "''hello'' = line @ CRLF @ rest" by simp
    then have "CHR 0x0D \<in> set ''hello''" by (simp only: CRLF_def set_append) simp
    then show False by simp
  qed
  then show ?thesis
    using proxy_parse_keeps_data [OF p, of "''hello''"] p by (simp add: keepConn_def)
qed

text \<open>
  C39: \<open>PROXY UNKNOWN\<close> loses data.  When a trusted upstream sends this header and the first bytes
  of the client in one segment, those bytes are dropped and the read deadline is left armed.
\<close>

theorem proxy_unknown_drops_data:
  assumes "SplitHostPort (NetAddr_String (pc_remote conn)) = Some (h, q)" "h \<in> trusted" "pc_setOK conn"
    and "pc_avail conn = Some (''PROXY UNKNOWN'' @ CRLF @ rest)" "length rest \<le> 497"
  shows "parseProxyProtocolHeader trusted conn = Inr \<lparr>pp_info = None, pp_stream = [], pp_deadline = True\<rparr>"
proof -
  have "strFields ''PROXY UNKNOWN'' = [''PROXY'', ''UNKNOWN'']" by (simp add: strFields_def isSpace_def)
  moreover have "cut (''PROXY UNKNOWN'' @ CRLF @ rest) CRLF = Some (''PROXY UNKNOWN'', rest)"
    by (rule cut_CRLF) simp
  moreover have "take 512 (''PROXY UNKNOWN'' @ CRLF @ rest) = ''PROXY UNKNOWN'' @ CRLF @ rest"
    "drop 512 (''PROXY UNKNOWN'' @ CRLF @ rest) = []" using assms(5) by (simp_all add: CRLF_def)
  ultimately show ?thesis using assms by (simp add: parseProxyProtocolHeader_def keepConn_def)
qed

theorem proxy_unknown_drops_data_witness:
  "parseProxyProtocolHeader {''10.0.0.1''} (exampleConn\<lparr>pc_avail := Some (''PROXY UNKNOWN'' @ CRLF @ ''hello'')\<rparr>)
     = Inr \<lparr>pp_info = None, pp_stream = [], pp_deadline = True\<rparr>"
  by (rule proxy_unknown_drops_data [where h = "''10.0.0.1''" and q = "''555''" and rest = "''hello''"])
     (use exampleConn_remote in \<open>auto simp: exampleConn_def\<close>)

end
