(* ===== verification/SNI_Routing.thy ===== *)
theory SNI_Routing
  imports SNI_ProxyProtocol Control_Plane
begin

text \<open>
  Routing of the SNI proxy in \<open>proxy/proxy.go\<close>: \<open>getRoute\<close>, \<open>selectStickyEndpoint\<close>,
  \<open>dialRoute\<close>, \<open>UpdateLocalSNIs\<close>, the table of active tunnels and the path a connection takes
  through \<open>handleConnection\<close>.

  \<^item> The route cache is the package \<open>go-cache\<close>, which is not part of the sources: its operations are
    the record \<open>cacheOps\<close>, an argument of everything that uses it, and what is documented of them is
    the hypothesis \<open>cache_laws\<close>.
  \<^item> The answer of the route API, the resolver, the dialer and the TLS library's reading of the
    ClientHello are arguments too (\<open>apiReply\<close>, \<open>routeEnv\<close>, \<open>connEnv\<close>).
  \<^item> Connections are numbered; \<open>sp_closed\<close> collects the connections the proxy closed itself,
    \<open>sp_dials\<close> the addresses it dialled, \<open>sp_requests\<close> the requests it made to the route API.
\<close>

record RouteRecord =
  rr_Hostname :: string
  rr_TargetHost :: string
  rr_TargetPort :: int
  rr_remote :: bool

datatype expiration = DefaultExpiration | ExpireAfter duration

record 'c cacheOps =
  co_Get :: "time \<Rightarrow> string \<Rightarrow> 'c \<Rightarrow> RouteRecord option option"
  co_Set :: "time \<Rightarrow> string \<Rightarrow> RouteRecord option \<Rightarrow> expiration \<Rightarrow> 'c \<Rightarrow> 'c"
  co_Delete :: "string \<Rightarrow> 'c \<Rightarrow> 'c"
  co_Flush :: "'c \<Rightarrow> 'c"
  co_ItemCount :: "'c \<Rightarrow> nat"
  co_Items :: "time \<Rightarrow> 'c \<Rightarrow> nat"

datatype apiReply = ReqInvalid | DoFailed | Resp int "string list option"

record routeEnv =
  re_getAt :: time
  re_setAt :: time
  re_latency :: rat
  re_reply :: apiReply

record 'c SNIProxy =
  sp_port :: int
  sp_cache :: 'c
  sp_localProxyAddr :: string
  sp_localProxyPort :: int
  sp_remoteConfigURL :: string
  sp_publicKey :: string
  sp_proxyProtocol :: bool
  sp_allowedNetworks :: "Prefix list"
  sp_tunnelIdleTimeout :: duration
  sp_localSNIs :: "string list"
  sp_localOverrides :: "string set"
  sp_activeTunnels :: "(string, nat list) gomap"
  sp_trustedUpstreams :: "string set"
  sp_requests :: "(string \<times> string \<times> string) list"
  sp_dials :: "string list"
  sp_closed :: "nat list"
  sp_mlog :: "call list"

datatype routeError = ErrRequest | ErrAPI | ErrStatus int | ErrDecode

definition snilog :: "call \<Rightarrow> 'c SNIProxy \<Rightarrow> 'c SNIProxy" where
  "snilog c p = p\<lparr>sp_mlog := sp_mlog p @ [c]\<rparr>"

subsection \<open>Sticky selection\<close>

definition fnv32a :: "string \<Rightarrow> u32" where
  "fnv32a s = fold (\<lambda>c h. (h XOR of_nat (of_char c)) * 16777619) s 2166136261"

definition selectStickyEndpoint :: "'c SNIProxy \<Rightarrow> string \<Rightarrow> string list \<Rightarrow> string" where
  "selectStickyEndpoint p clientAddr endpoints =
     (if length endpoints = 0 then sp_localProxyAddr p
      else if length endpoints = 1 then endpoints ! 0
      else endpoints ! unat (fnv32a clientAddr mod of_nat (length endpoints)))"

subsection \<open>Looking up a route\<close>

definition localRoute :: "'c SNIProxy \<Rightarrow> string \<Rightarrow> RouteRecord" where
  "localRoute p hostname =
     \<lparr>rr_Hostname = hostname, rr_TargetHost = sp_localProxyAddr p, rr_TargetPort = sp_localProxyPort p, rr_remote = False\<rparr>"

definition routeOf :: "'c SNIProxy \<Rightarrow> string \<Rightarrow> string \<Rightarrow> string list \<Rightarrow> RouteRecord" where
  "routeOf p hostname clientAddr endpoints =
     (if endpoints = [] then localRoute p hostname
      else \<lparr>rr_Hostname = hostname, rr_TargetHost = selectStickyEndpoint p clientAddr endpoints,
            rr_TargetPort = 443, rr_remote = True\<rparr>)"

definition queryAPI :: "'c cacheOps \<Rightarrow> routeEnv \<Rightarrow> string \<Rightarrow> string \<Rightarrow> 'c SNIProxy
    \<Rightarrow> (routeError + RouteRecord option) \<times> 'c SNIProxy" where
  "queryAPI C env hostname clientAddr p =
     (let q = p\<lparr>sp_requests := (sp_remoteConfigURL p @ ''/gerbil/get-resolved-hostname'', hostname, sp_publicKey p) # sp_requests p\<rparr>;
          r = snilog (RecordSNIRouteAPILatency (re_latency env)) q in
      case re_reply env of
        ReqInvalid \<Rightarrow> (Inl ErrRequest, p)
      | DoFailed \<Rightarrow> (Inl ErrAPI, snilog (RecordSNIRouteAPIRequest ''error'') q)
      | Resp status body \<Rightarrow>
          if status = 404 then
            (Inr None, (snilog (RecordSNIRouteAPIRequest ''not_found'') r)
                         \<lparr>sp_cache := co_Set C (re_setAt env) hostname None (ExpireAfter minute) (sp_cache p)\<rparr>)
          else if status \<noteq> 200 then (Inl (ErrStatus status), snilog (RecordSNIRouteAPIRequest ''error'') r)
          else (case body of
              None \<Rightarrow> (Inl ErrDecode, snilog (RecordSNIRouteAPIRequest ''success'') r)
            | Some endpoints \<Rightarrow>
                let route = routeOf p hostname clientAddr endpoints in
                (Inr (Some route), (snilog (RecordSNIRouteAPIRequest ''success'') r)
                   \<lparr>sp_cache := co_Set C (re_setAt env) hostname (Some route) DefaultExpiration (sp_cache p)\<rparr>)))"

definition getRoute :: "'c cacheOps \<Rightarrow> routeEnv \<Rightarrow> string \<Rightarrow> string \<Rightarrow> 'c SNIProxy
    \<Rightarrow> (routeError + RouteRecord option) \<times> 'c SNIProxy" where
  "getRoute C env hostname clientAddr p =
     (if hostname \<in> sp_localOverrides p then
        (Inr (Some (localRoute p hostname)), snilog (RecordProxyRouteLookup ''local_override'') p)
      else if hostname \<in> set (sp_localSNIs p) then
        (Inr (Some (localRoute p hostname)), snilog (RecordProxyRouteLookup ''local'') p)
      else (case co_Get C (re_getAt env) hostname (sp_cache p) of
          Some None \<Rightarrow> (Inr None, snilog (RecordProxyRouteLookup ''cached_not_found'') p)
        | Some (Some route) \<Rightarrow> (Inr (Some route), snilog (RecordProxyRouteLookup ''cache_hit'') p)
        | None \<Rightarrow> queryAPI C env hostname clientAddr (snilog (RecordProxyRouteLookup ''cache_miss'') p)))"

subsection \<open>Dialling a route\<close>

text \<open>\<open>netip.Addr.String\<close> keeps the IPv4-mapped spelling that \<open>net.IP.String\<close> drops.\<close>

definition Addr_String :: "bytes \<Rightarrow> string" where
  "Addr_String ip = (if length ip = 4 then ip4String ip
     else if To4 ip \<noteq> [] then ''::ffff:'' @ ip4String (To4 ip) else ip6String ip)"

datatype dialError = ErrResolve | ErrNoAddresses | ErrOutside | ErrDial

definition addrAllowed :: "Prefix list \<Rightarrow> bytes \<Rightarrow> bool" where
  "addrAllowed networks ip = list_ex (\<lambda>n. Prefix_Contains n (Unmap ip)) networks"

definition dialRoute :: "(string \<Rightarrow> bytes list option) \<Rightarrow> (string \<Rightarrow> 'conn option) \<Rightarrow> RouteRecord
    \<Rightarrow> 'c SNIProxy \<Rightarrow> (dialError + 'conn) \<times> 'c SNIProxy" where
  "dialRoute lookup dial route p =
     (if \<not> rr_remote route then
        (let a = JoinHostPort (rr_TargetHost route) (Itoa (rr_TargetPort route)) in
         (case dial a of None \<Rightarrow> Inl ErrDial | Some conn \<Rightarrow> Inr conn, p\<lparr>sp_dials := sp_dials p @ [a]\<rparr>))
      else case lookup (rr_TargetHost route) of
        None \<Rightarrow> (Inl ErrResolve, p)
      | Some resolved \<Rightarrow>
          if resolved = [] then (Inl ErrNoAddresses, p)
          else if \<not> list_all (addrAllowed (sp_allowedNetworks p)) resolved then (Inl ErrOutside, p)
          else
            let (res, tried) = dialFirst dial (map (\<lambda>ip. JoinHostPort (Addr_String ip) (Itoa (rr_TargetPort route))) resolved) []
            in (case res of None \<Rightarrow> Inl ErrDial | Some conn \<Rightarrow> Inr conn, p\<lparr>sp_dials := sp_dials p @ tried\<rparr>))"

subsection \<open>Tunnels\<close>

definition addTunnel :: "string \<Rightarrow> nat \<Rightarrow> 'c SNIProxy \<Rightarrow> 'c SNIProxy" where
  "addTunnel hostname conn p =
     p\<lparr>sp_activeTunnels := Store hostname
        ((case Load (sp_activeTunnels p) hostname of None \<Rightarrow> [] | Some conns \<Rightarrow> conns) @ [conn]) (sp_activeTunnels p)\<rparr>"

definition removeTunnel :: "string \<Rightarrow> nat \<Rightarrow> 'c SNIProxy \<Rightarrow> 'c SNIProxy" where
  "removeTunnel hostname conn p =
     (case Load (sp_activeTunnels p) hostname of
        None \<Rightarrow> p
      | Some conns \<Rightarrow>
          let newConns = filter (\<lambda>c. c \<noteq> conn) conns in
          if newConns = [] then p\<lparr>sp_activeTunnels := Delete hostname (sp_activeTunnels p)\<rparr>
          else p\<lparr>sp_activeTunnels := Store hostname newConns (sp_activeTunnels p)\<rparr>)"

definition closeTunnels :: "string \<Rightarrow> 'c SNIProxy \<Rightarrow> 'c SNIProxy" where
  "closeTunnels sni p =
     (case Load (sp_activeTunnels p) sni of
        None \<Rightarrow> p
      | Some conns \<Rightarrow> p\<lparr>sp_closed := sp_closed p @ conns, sp_activeTunnels := Delete sni (sp_activeTunnels p)\<rparr>)"

definition UpdateLocalSNIs :: "'c cacheOps \<Rightarrow> string list \<Rightarrow> 'c SNIProxy \<Rightarrow> 'c SNIProxy" where
  "UpdateLocalSNIs C fullDomains p =
     (let newSNIs = remdups fullDomains;
          cache' = fold (co_Delete C) fullDomains (sp_cache p);
          removed = filter (\<lambda>sni. sni \<notin> set newSNIs) (sp_localSNIs p);
          q = p\<lparr>sp_cache := cache', sp_localSNIs := newSNIs\<rparr>
      in if removed \<noteq> [] then fold closeTunnels removed q else q)"

definition ClearCache :: "'c cacheOps \<Rightarrow> 'c SNIProxy \<Rightarrow> 'c SNIProxy" where
  "ClearCache C p = p\<lparr>sp_cache := co_Flush C (sp_cache p)\<rparr>"

definition GetCacheStats :: "'c cacheOps \<Rightarrow> time \<Rightarrow> 'c SNIProxy \<Rightarrow> nat \<times> nat" where
  "GetCacheStats C now p = (co_ItemCount C (sp_cache p), co_Items C now (sp_cache p))"

subsection \<open>A connection from its first byte to its tunnel\<close>

text \<open>
  \<open>handleConnection\<close> up to the call of \<open>pipe\<close>.  The TLS library's reading of the ClientHello is
  \<open>ce_hello\<close>, a function of the bytes that can be read from the connection (\<open>None\<close> when there is
  no ClientHello); \<open>peekClientHello\<close> replays what it read, so the tunnel gets those bytes again.
  The result is the tunnel opened: its hostname, the header sent to the target, and the client's
  bytes to be copied.
\<close>

record connEnv =
  ce_conn :: ppConn
  ce_setOK :: bool
  ce_hello :: "string \<Rightarrow> string option"
  ce_helloSeconds :: rat
  ce_clearOK :: bool
  ce_route :: routeEnv
  ce_lookup :: "string \<Rightarrow> bytes list option"
  ce_dial :: "string \<Rightarrow> NetAddr option"
  ce_writeOK :: bool

record tunnel =
  tn_hostname :: string
  tn_header :: string
  tn_stream :: string

definition readProxyHeader :: "connEnv \<Rightarrow> 'c SNIProxy \<Rightarrow> (ProxyProtocolInfo option \<times> string) option \<times> 'c SNIProxy" where
  "readProxyHeader env p =
     (if sp_trustedUpstreams p = {} then
        (Some (None, case pc_avail (ce_conn env) of None \<Rightarrow> [] | Some d \<Rightarrow> d), p)
      else case parseProxyProtocolHeader (sp_trustedUpstreams p) (ce_conn env) of
        Inl _ \<Rightarrow> (None, snilog RecordSNIProxyProtocolParseError p)
      | Inr r \<Rightarrow> (Some (pp_info r, pp_stream r),
                   if pp_info r \<noteq> None then snilog (RecordSNITrustedProxyEvent ''proxy_protocol_parsed'') p else p))"

definition clientAddrStr :: "connEnv \<Rightarrow> ProxyProtocolInfo option \<Rightarrow> string" where
  "clientAddrStr env info = (case info of
       Some i \<Rightarrow> pi_SrcIP i @ '':'' @ Itoa (pi_SrcPort i)
     | None \<Rightarrow> NetAddr_String (pc_remote (ce_conn env)))"

definition proxyHeader :: "connEnv \<Rightarrow> ProxyProtocolInfo option \<Rightarrow> NetAddr \<Rightarrow> 'c SNIProxy \<Rightarrow> string" where
  "proxyHeader env info localAddr p =
     (if \<not> sp_proxyProtocol p then []
      else case info of
        Some i \<Rightarrow> buildProxyProtocolHeaderFromInfo i localAddr
      | None \<Rightarrow> buildProxyProtocolHeader (pc_remote (ce_conn env)) localAddr)"

definition connectTarget :: "connEnv \<Rightarrow> nat \<Rightarrow> string \<Rightarrow> ProxyProtocolInfo option \<Rightarrow> string \<Rightarrow> RouteRecord
    \<Rightarrow> 'c SNIProxy \<Rightarrow> tunnel option \<times> 'c SNIProxy" where
  "connectTarget env conn hostname info stream route p =
     (case dialRoute (ce_lookup env) (ce_dial env) route p of
        (Inl _, q) \<Rightarrow> (None, q)
      | (Inr localAddr, q) \<Rightarrow>
          let q1 = snilog (RecordActiveProxyConnection 1) q in
          if sp_proxyProtocol p \<and> \<not> ce_writeOK env
          then (None, snilog (RecordActiveProxyConnection (- 1)) q1)
          else (Some \<lparr>tn_hostname = hostname, tn_header = proxyHeader env info localAddr p, tn_stream = stream\<rparr>,
                addTunnel hostname conn q1))"

definition handleConnection :: "'c cacheOps \<Rightarrow> connEnv \<Rightarrow> nat \<Rightarrow> 'c SNIProxy \<Rightarrow> tunnel option \<times> 'c SNIProxy" where
  "handleConnection C env conn p =
     (case readProxyHeader env (snilog (RecordSNIConnection ''accepted'') p) of
        (None, q) \<Rightarrow> (None, q)
      | (Some (info, stream), q) \<Rightarrow>
          if \<not> ce_setOK env then (None, q)
          else case ce_hello env stream of
            None \<Rightarrow> (None, q)
          | Some hostname \<Rightarrow>
              if hostname = [] then (None, q)
              else
                let q1 = snilog (RecordProxyTLSHandshake (ce_helloSeconds env)) q in
                if \<not> ce_clearOK env then (None, q1)
                else case getRoute C (ce_route env) hostname (clientAddrStr env info) q1 of
                  (Inl _, q2) \<Rightarrow> (None, q2)
                | (Inr None, q2) \<Rightarrow> (None, q2)
                | (Inr (Some route), q2) \<Rightarrow> connectTarget env conn hostname info stream route q2)"

text \<open>
  The end of a tunnel: \<open>pipe\<close> has counted the bytes of both directions, then the deferred calls run.
\<close>

definition endTunnel :: "string \<Rightarrow> nat \<Rightarrow> int \<Rightarrow> int \<Rightarrow> 'c SNIProxy \<Rightarrow> 'c SNIProxy" where
  "endTunnel hostname conn up down p =
     snilog (RecordActiveProxyConnection (- 1))
       (removeTunnel hostname conn
          (snilog (RecordProxyBytesTransmitted ''target_to_client'' down)
            (snilog (RecordProxyBytesTransmitted ''client_to_target'' up) p)))"

subsection \<open>Configuration and construction\<close>

abbreviation defaultMaxSNIConnections :: int where "defaultMaxSNIConnections \<equiv> 4096"
abbreviation defaultMaxSNIConnectionsPerIP :: int where "defaultMaxSNIConnectionsPerIP \<equiv> 256"

definition positiveEnv :: "(string \<Rightarrow> string) \<Rightarrow> string \<Rightarrow> int \<Rightarrow> int" where
  "positiveEnv getenv name dflt =
     (let v = getenv name in
      if v = [] then dflt
      else case Atoi v of Some n \<Rightarrow> if 0 < n then n else dflt | None \<Rightarrow> dflt)"

definition loadMaxSNIConnections :: "(string \<Rightarrow> string) \<Rightarrow> int" where
  "loadMaxSNIConnections getenv = positiveEnv getenv ''GERBIL_MAX_SNI_CONNECTIONS'' defaultMaxSNIConnections"

definition loadMaxSNIConnectionsPerIP :: "(string \<Rightarrow> string) \<Rightarrow> int" where
  "loadMaxSNIConnectionsPerIP getenv = positiveEnv getenv ''GERBIL_MAX_SNI_CONNECTIONS_PER_IP'' defaultMaxSNIConnectionsPerIP"

text \<open>
  \<open>NewSNIProxy\<close>: \<open>parse\<close> is \<open>url.Parse\<close>, \<open>lookupIP\<close> is \<open>net.LookupIP\<close>, \<open>cache0\<close> the new cache and
  \<open>idleTimeout\<close> the value of \<open>loadSNITunnelIdleTimeout\<close>.
\<close>

datatype newError = ErrRemoteURL | ErrAllowedNetwork string

fun parseNetworks :: "string list \<Rightarrow> newError + Prefix list" where
  "parseNetworks [] = Inr []"
| "parseNetworks (n # ns) =
     (case ParsePrefix n of
        None \<Rightarrow> Inl (ErrAllowedNetwork n)
      | Some network \<Rightarrow> (case parseNetworks ns of Inl e \<Rightarrow> Inl e | Inr ps \<Rightarrow> Inr (Prefix_Masked network # ps)))"

definition trustedMap :: "(string \<Rightarrow> IP list option) \<Rightarrow> string list \<Rightarrow> string set" where
  "trustedMap lookupIP upstreams =
     (\<Union>u \<in> set (filter (\<lambda>u. u \<noteq> []) upstreams).
        insert u (case lookupIP u of None \<Rightarrow> {} | Some ips \<Rightarrow> IP_String ` set ips))"

definition NewSNIProxy :: "urlParser \<Rightarrow> (string \<Rightarrow> IP list option) \<Rightarrow> 'c \<Rightarrow> duration \<Rightarrow> int \<Rightarrow> string \<Rightarrow> string \<Rightarrow> string
    \<Rightarrow> int \<Rightarrow> string list \<Rightarrow> bool \<Rightarrow> string list \<Rightarrow> string list \<Rightarrow> newError + 'c SNIProxy" where
  "NewSNIProxy parse lookupIP cache0 idleTimeout port remoteConfigURL publicKey localProxyAddr localProxyPort
       localOverrides proxyProtocol trustedUpstreams allowedNetworks =
     (if \<not> proxy_ValidateRemoteConfigURL parse remoteConfigURL then Inl ErrRemoteURL
      else case parseNetworks allowedNetworks of
        Inl e \<Rightarrow> Inl e
      | Inr parsedNetworks \<Rightarrow> Inr \<lparr>
          sp_port = port, sp_cache = cache0, sp_localProxyAddr = localProxyAddr, sp_localProxyPort = localProxyPort,
          sp_remoteConfigURL = remoteConfigURL, sp_publicKey = publicKey, sp_proxyProtocol = proxyProtocol,
          sp_allowedNetworks = parsedNetworks, sp_tunnelIdleTimeout = idleTimeout, sp_localSNIs = [],
          sp_localOverrides = set (filter (\<lambda>d. d \<noteq> []) localOverrides), sp_activeTunnels = [],
          sp_trustedUpstreams = trustedMap lookupIP trustedUpstreams,
          sp_requests = [], sp_dials = [], sp_closed = [], sp_mlog = []\<rparr>)"

subsection \<open>What is assumed of the cache, and the runs of the proxy\<close>

text \<open>
  The documented behaviour of \<open>go-cache\<close> that the proxy relies on, for a cache made with a default
  expiration \<open>d\<close>: an item is found until its expiration has passed, \<open>Set\<close> replaces the item of its
  key and touches no other, \<open>Delete\<close> removes one key, \<open>Flush\<close> all.
\<close>

definition ttlOf :: "duration \<Rightarrow> expiration \<Rightarrow> duration" where
  "ttlOf d e = (case e of DefaultExpiration \<Rightarrow> d | ExpireAfter x \<Rightarrow> x)"

definition cache_set_get :: "'c cacheOps \<Rightarrow> duration \<Rightarrow> bool" where
  "cache_set_get C d \<longleftrightarrow> (\<forall>t t' k k' v e c. 0 < ttlOf d e \<longrightarrow> t' \<le> t \<longrightarrow>
     co_Get C t k (co_Set C t' k' v e c) =
       (if k = k' then (if t \<le> t' + ttlOf d e then Some v else None) else co_Get C t k c))"

definition cache_set_only :: "'c cacheOps \<Rightarrow> bool" where
  "cache_set_only C \<longleftrightarrow> (\<forall>t t' k k' v e c w. co_Get C t k (co_Set C t' k' v e c) = Some w \<longrightarrow>
     (if k = k' then w = v else co_Get C t k c = Some w))"

definition cache_delete :: "'c cacheOps \<Rightarrow> bool" where
  "cache_delete C \<longleftrightarrow> (\<forall>t k k' c. co_Get C t k (co_Delete C k' c) = (if k = k' then None else co_Get C t k c))"

definition cache_flush :: "'c cacheOps \<Rightarrow> bool" where
  "cache_flush C \<longleftrightarrow> (\<forall>t k c. co_Get C t k (co_Flush C c) = None)"

definition cache_laws :: "'c cacheOps \<Rightarrow> duration \<Rightarrow> bool" where
  "cache_laws C d \<longleftrightarrow> cache_set_get C d \<and> cache_set_only C \<and> cache_delete C \<and> cache_flush C"

definition routeCacheTTL :: duration where
  "routeCacheTTL = 3 * second"

text \<open>
  A state of a run is the proxy and the tunnels open at the moment, each with its hostname and its
  client connection.  A new connection has a number no open tunnel and no closed connection has.
\<close>

inductive sni_step :: "'c cacheOps \<Rightarrow> 'c SNIProxy \<times> (string \<times> nat) list \<Rightarrow> 'c SNIProxy \<times> (string \<times> nat) list \<Rightarrow> bool"
  for C where
  ss_open: "handleConnection C env conn p = (res, q) \<Longrightarrow> conn \<notin> snd ` set run \<Longrightarrow> conn \<notin> set (sp_closed p) \<Longrightarrow>
     sni_step C (p, run) (q, case res of None \<Rightarrow> run | Some t \<Rightarrow> (tn_hostname t, conn) # run)"
| ss_end: "(h, conn) \<in> set run \<Longrightarrow> sni_step C (p, run) (endTunnel h conn up down p, removeAll (h, conn) run)"
| ss_update: "sni_step C (p, run) (UpdateLocalSNIs C fullDomains p, run)"
| ss_clear: "sni_step C (p, run) (ClearCache C p, run)"
| ss_order: "mset m = mset (sp_activeTunnels p) \<Longrightarrow> mset l = mset (sp_localSNIs p) \<Longrightarrow>
     sni_step C (p, run) (p\<lparr>sp_activeTunnels := m, sp_localSNIs := l\<rparr>, run)"

definition tunnelConns :: "'c SNIProxy \<Rightarrow> string \<Rightarrow> nat list" where
  "tunnelConns p h = (case Load (sp_activeTunnels p) h of None \<Rightarrow> [] | Some conns \<Rightarrow> conns)"

abbreviation tunnelGauge :: "'c SNIProxy \<Rightarrow> int" where
  "tunnelGauge p \<equiv> gauge (SysVar V_activeProxyConnections) (sp_mlog p)"

definition tunnel_inv :: "'c SNIProxy \<Rightarrow> (string \<times> nat) list \<Rightarrow> bool" where
  "tunnel_inv p run \<longleftrightarrow> wf_map (sp_activeTunnels p) \<and> [] \<notin> snd ` set (sp_activeTunnels p) \<and> distinct (map snd run) \<and>
     (\<forall>h c. c \<in> set (tunnelConns p h) \<longleftrightarrow> (h, c) \<in> set run \<and> c \<notin> set (sp_closed p)) \<and>
     tunnelGauge p = int (length run)"

definition localDial :: "'c SNIProxy \<Rightarrow> string" where
  "localDial p = JoinHostPort (sp_localProxyAddr p) (Itoa (sp_localProxyPort p))"

definition dial_ok :: "'c SNIProxy \<Rightarrow> string \<Rightarrow> bool" where
  "dial_ok p a \<longleftrightarrow> a = localDial p \<or>
     (\<exists>ip. addrAllowed (sp_allowedNetworks p) ip \<and> a = JoinHostPort (Addr_String ip) ''443'')"

definition route_ok :: "'c SNIProxy \<Rightarrow> string \<Rightarrow> RouteRecord \<Rightarrow> bool" where
  "route_ok p h r \<longleftrightarrow> r = localRoute p h \<or> (rr_Hostname r = h \<and> rr_remote r \<and> rr_TargetPort r = 443)"

definition sni_inv :: "'c cacheOps \<Rightarrow> 'c SNIProxy \<Rightarrow> bool" where
  "sni_inv C p \<longleftrightarrow> cache_laws C routeCacheTTL \<and>
     (\<forall>t h r. co_Get C t h (sp_cache p) = Some (Some r) \<longrightarrow> route_ok p h r) \<and>
     (\<forall>a \<in> set (sp_dials p). dial_ok p a)"

definition sni_config :: "'c SNIProxy \<Rightarrow> string \<times> int \<times> Prefix list \<times> string set \<times> string set \<times> string" where
  "sni_config p = (sp_localProxyAddr p, sp_localProxyPort p, sp_allowedNetworks p, sp_localOverrides p,
     sp_trustedUpstreams p, sp_remoteConfigURL p)"

definition sameTunnels :: "'c SNIProxy \<Rightarrow> 'c SNIProxy \<Rightarrow> bool" where
  "sameTunnels q p \<longleftrightarrow> sp_activeTunnels q = sp_activeTunnels p \<and> sp_closed q = sp_closed p \<and> tunnelGauge q = tunnelGauge p"

definition tableOK :: "'c SNIProxy \<Rightarrow> bool" where
  "tableOK p \<longleftrightarrow> wf_map (sp_activeTunnels p) \<and> [] \<notin> snd ` set (sp_activeTunnels p)"

text \<open>A cache with the documented behaviour and a proxy, for the witnesses.\<close>

definition demoCache :: "(string, RouteRecord option \<times> time) gomap cacheOps" where
  "demoCache = \<lparr>
     co_Get = (\<lambda>t k c. case Load c k of None \<Rightarrow> None | Some (v, expiry) \<Rightarrow> if t \<le> expiry then Some v else None),
     co_Set = (\<lambda>t k v e c. Store k (v, t + ttlOf routeCacheTTL e) c),
     co_Delete = Delete, co_Flush = (\<lambda>c. []), co_ItemCount = length, co_Items = (\<lambda>t c. length (filter (\<lambda>i. t \<le> snd (snd i)) c))\<rparr>"

definition demoProxy :: "(string, RouteRecord option \<times> time) gomap SNIProxy" where
  "demoProxy = \<lparr>
     sp_port = 8443, sp_cache = [], sp_localProxyAddr = ''localhost'', sp_localProxyPort = 443, sp_remoteConfigURL = ''https://a/x'',
     sp_publicKey = ''k'', sp_proxyProtocol = False, sp_allowedNetworks = [\<lparr>pfx_addr = [10, 0, 0, 0], pfx_bits = 8\<rparr>],
     sp_tunnelIdleTimeout = 5 * minute, sp_localSNIs = [], sp_localOverrides = {''own''}, sp_activeTunnels = [],
     sp_trustedUpstreams = {}, sp_requests = [], sp_dials = [], sp_closed = [], sp_mlog = []\<rparr>"

definition demoRouteEnv :: routeEnv where
  "demoRouteEnv = \<lparr>re_getAt = 0, re_setAt = 1, re_latency = 0, re_reply = Resp 200 (Some [''n1'', ''n2''])\<rparr>"

definition demoConn :: connEnv where
  "demoConn = \<lparr>ce_conn = exampleConn, ce_setOK = True, ce_hello = (\<lambda>s. Some ''h''), ce_helloSeconds = 0, ce_clearOK = True,
     ce_route = demoRouteEnv, ce_lookup = (\<lambda>h. Some [[10, 0, 0, 9]]), ce_dial = (\<lambda>a. Some (TCPAddr [10, 0, 0, 3] 40 [])), ce_writeOK = True\<rparr>"

subsection \<open>Frames\<close>

lemma snilog_fields [simp]:
  "sp_cache (snilog c p) = sp_cache p" "sp_localSNIs (snilog c p) = sp_localSNIs p"
  "sp_activeTunnels (snilog c p) = sp_activeTunnels p" "sp_dials (snilog c p) = sp_dials p"
  "sp_closed (snilog c p) = sp_closed p" "sp_requests (snilog c p) = sp_requests p"
  "sp_localOverrides (snilog c p) = sp_localOverrides p" "sp_proxyProtocol (snilog c p) = sp_proxyProtocol p"
  "sp_allowedNetworks (snilog c p) = sp_allowedNetworks p" "sp_localProxyAddr (snilog c p) = sp_localProxyAddr p"
  "sp_localProxyPort (snilog c p) = sp_localProxyPort p" "sp_trustedUpstreams (snilog c p) = sp_trustedUpstreams p"
  "sp_remoteConfigURL (snilog c p) = sp_remoteConfigURL p" "sp_publicKey (snilog c p) = sp_publicKey p"
  "sni_config (snilog c p) = sni_config p" "sp_mlog (snilog c p) = sp_mlog p @ [c]"
  by (simp_all add: snilog_def sni_config_def)

lemma config_eqs:
  assumes "sni_config q = sni_config p"
  shows "localRoute q h = localRoute p h" "localDial q = localDial p" "dial_ok q = dial_ok p" "route_ok q = route_ok p"
    "selectStickyEndpoint q a es = selectStickyEndpoint p a es" "routeOf q h a es = routeOf p h a es"
    "sp_allowedNetworks q = sp_allowedNetworks p"
  using assms
  by (auto simp: sni_config_def localRoute_def localDial_def dial_ok_def route_ok_def selectStickyEndpoint_def
      routeOf_def fun_eq_iff)

lemma sni_config_upd [simp]:
  "sni_config (p\<lparr>sp_cache := c\<rparr>) = sni_config p" "sni_config (p\<lparr>sp_localSNIs := l\<rparr>) = sni_config p"
  "sni_config (p\<lparr>sp_activeTunnels := m\<rparr>) = sni_config p" "sni_config (p\<lparr>sp_dials := ds\<rparr>) = sni_config p"
  "sni_config (p\<lparr>sp_closed := ks\<rparr>) = sni_config p" "sni_config (p\<lparr>sp_requests := rs\<rparr>) = sni_config p"
  by (simp_all add: sni_config_def)

lemma closeTunnels_frame [simp]: "sni_config (closeTunnels h p) = sni_config p" "sp_cache (closeTunnels h p) = sp_cache p"
  "sp_dials (closeTunnels h p) = sp_dials p" "sp_localSNIs (closeTunnels h p) = sp_localSNIs p"
  by (auto simp: closeTunnels_def sni_config_def split: option.splits)

lemma UpdateLocalSNIs_fold:
  "UpdateLocalSNIs C ds p = fold closeTunnels (filter (\<lambda>h. h \<notin> set ds) (sp_localSNIs p))
     (p\<lparr>sp_cache := fold (co_Delete C) ds (sp_cache p), sp_localSNIs := remdups ds\<rparr>)"
  by (simp add: UpdateLocalSNIs_def Let_def)

lemma UpdateLocalSNIs_frame [simp]:
  "sni_config (UpdateLocalSNIs C ds p) = sni_config p" "sp_dials (UpdateLocalSNIs C ds p) = sp_dials p"
  "sp_cache (UpdateLocalSNIs C ds p) = fold (co_Delete C) ds (sp_cache p)"
  "sp_localSNIs (UpdateLocalSNIs C ds p) = remdups ds"
  unfolding UpdateLocalSNIs_fold
  by (simp_all add: fold_frame [where f = sni_config] fold_frame [where f = sp_dials]
      fold_frame [where f = sp_cache] fold_frame [where f = sp_localSNIs])

lemma removeTunnel_frame [simp]: "sni_config (removeTunnel h c p) = sni_config p" "sp_cache (removeTunnel h c p) = sp_cache p"
  "sp_dials (removeTunnel h c p) = sp_dials p"
  by (auto simp: removeTunnel_def sni_config_def Let_def split: option.splits)

lemma addTunnel_frame [simp]: "sni_config (addTunnel h c p) = sni_config p" "sp_cache (addTunnel h c p) = sp_cache p"
  "sp_dials (addTunnel h c p) = sp_dials p"
  by (simp_all add: addTunnel_def sni_config_def)

subsection \<open>Routes\<close>

lemma routeOf_ok: "route_ok p h (routeOf p h a es)"
  by (simp add: routeOf_def route_ok_def)

lemma queryAPI_frame:
  "sni_config (snd (queryAPI C env h a p)) = sni_config p" "sp_dials (snd (queryAPI C env h a p)) = sp_dials p"
  "sp_activeTunnels (snd (queryAPI C env h a p)) = sp_activeTunnels p" "sp_closed (snd (queryAPI C env h a p)) = sp_closed p"
  by (auto simp: queryAPI_def Let_def split: apiReply.splits option.splits)

lemma queryAPI_cache:
  "sp_cache (snd (queryAPI C env h a p)) = sp_cache p \<or>
   (\<exists>v e. sp_cache (snd (queryAPI C env h a p)) = co_Set C (re_setAt env) h v e (sp_cache p) \<and> (\<forall>r. v = Some r \<longrightarrow> route_ok p h r))"
  by (auto simp: queryAPI_def Let_def routeOf_ok split: apiReply.splits option.splits)

lemma queryAPI_route: "fst (queryAPI C env h a p) = Inr (Some r) \<Longrightarrow> route_ok p h r"
  by (auto simp: queryAPI_def Let_def routeOf_ok split: apiReply.splits option.splits if_splits)

lemma getRoute_frame [simp]:
  "sni_config (snd (getRoute C env h a p)) = sni_config p" "sp_dials (snd (getRoute C env h a p)) = sp_dials p"
  "sp_activeTunnels (snd (getRoute C env h a p)) = sp_activeTunnels p" "sp_closed (snd (getRoute C env h a p)) = sp_closed p"
  by (auto simp: getRoute_def queryAPI_frame split: option.splits)

lemma getRoute_cache:
  "sp_cache (snd (getRoute C env h a p)) = sp_cache p \<or>
   (\<exists>v e. sp_cache (snd (getRoute C env h a p)) = co_Set C (re_setAt env) h v e (sp_cache p) \<and> (\<forall>r. v = Some r \<longrightarrow> route_ok p h r))"
proof -
  let ?q = "snilog (RecordProxyRouteLookup ''cache_miss'') p"
  have "route_ok ?q = route_ok p" by (rule config_eqs) simp
  then show ?thesis using queryAPI_cache [of C env h a ?q]
    by (auto simp: getRoute_def split: option.splits)
qed

lemma getRoute_route:
  assumes "\<forall>t h r. co_Get C t h (sp_cache p) = Some (Some r) \<longrightarrow> route_ok p h r" "fst (getRoute C env h a p) = Inr (Some r)"
  shows "route_ok p h r"
proof -
  let ?q = "snilog (RecordProxyRouteLookup ''cache_miss'') p"
  have "route_ok ?q = route_ok p" by (rule config_eqs) simp
  moreover have "route_ok p h (localRoute p h)" by (simp add: route_ok_def)
  ultimately show ?thesis using assms queryAPI_route [of C env h a ?q r]
    by (auto simp: getRoute_def split: option.splits if_splits)
qed

lemma cache_set_onlyD:
  "cache_laws C d \<Longrightarrow> co_Get C t k (co_Set C t' k' v e c) = Some w \<Longrightarrow> if k = k' then w = v else co_Get C t k c = Some w"
  unfolding cache_laws_def cache_set_only_def by (elim conjE allE impE, assumption)

lemma cache_deleteD: "cache_laws C d \<Longrightarrow> co_Get C t k (co_Delete C k' c) = (if k = k' then None else co_Get C t k c)"
  by (simp add: cache_laws_def cache_delete_def)

lemma cache_set_getD:
  "cache_laws C d \<Longrightarrow> 0 < ttlOf d e \<Longrightarrow> t' \<le> t \<Longrightarrow> co_Get C t k (co_Set C t' k' v e c) =
     (if k = k' then (if t \<le> t' + ttlOf d e then Some v else None) else co_Get C t k c)"
  by (simp add: cache_laws_def cache_set_get_def)

lemma sni_inv_cong:
  assumes "sni_inv C p" "sni_config q = sni_config p" "sp_dials q = sp_dials p" "sp_cache q = sp_cache p"
  shows "sni_inv C q"
  using assms config_eqs [OF assms(2)] by (simp add: sni_inv_def)

lemma sni_inv_getRoute:
  assumes inv: "sni_inv C p"
  shows "sni_inv C (snd (getRoute C env h a p))"
proof -
  let ?q = "snd (getRoute C env h a p)"
  have c: "sni_config ?q = sni_config p" by simp
  have "route_ok p k r" if "co_Get C t k (sp_cache ?q) = Some (Some r)" for t k r
  proof (cases "sp_cache ?q = sp_cache p")
    case True
    then show ?thesis using that inv by (auto simp: sni_inv_def)
  next
    case False
    then obtain v e where v: "sp_cache ?q = co_Set C (re_setAt env) h v e (sp_cache p)" "\<forall>r. v = Some r \<longrightarrow> route_ok p h r"
      using getRoute_cache [of C env h a p] by auto
    have "if k = h then Some r = v else co_Get C t k (sp_cache p) = Some (Some r)"
      using that inv unfolding v sni_inv_def by (intro cache_set_onlyD) auto
    then show ?thesis using v(2) inv by (auto simp: sni_inv_def split: if_splits)
  qed
  then show ?thesis using inv config_eqs [OF c] by (auto simp: sni_inv_def)
qed

subsection \<open>Dialling\<close>

lemma dialRoute_frame [simp]:
  "sni_config (snd (dialRoute lookup dial r p)) = sni_config p" "sp_cache (snd (dialRoute lookup dial r p)) = sp_cache p"
  "sp_activeTunnels (snd (dialRoute lookup dial r p)) = sp_activeTunnels p"
  by (auto simp: dialRoute_def Let_def split: option.splits prod.splits)

lemma Itoa_443: "Itoa 443 = ''443''"
  by (simp add: Itoa_def itoaNat.simps)

lemma dialRoute_dials:
  assumes "route_ok p h r"
  shows "\<exists>ds. sp_dials (snd (dialRoute lookup dial r p)) = sp_dials p @ ds \<and> (\<forall>a \<in> set ds. dial_ok p a)"
proof (cases "rr_remote r")
  case False
  then have "r = localRoute p h" using assms by (auto simp: route_ok_def)
  then show ?thesis by (simp add: dialRoute_def localRoute_def Let_def dial_ok_def localDial_def)
next
  case True
  then have port: "rr_TargetPort r = 443" using assms by (auto simp: route_ok_def localRoute_def)
  show ?thesis
  proof (cases "lookup (rr_TargetHost r)")
    case None
    then show ?thesis using True by (simp add: dialRoute_def)
  next
    case (Some ips)
    let ?as = "map (\<lambda>ip. JoinHostPort (Addr_String ip) ''443'') ips"
    have "dial_ok p a" if "list_all (addrAllowed (sp_allowedNetworks p)) ips" "a \<in> set (snd (dialFirst dial ?as []))" for a
    proof -
      have "a \<in> set ?as" using that(2) dialFirst_subset [of dial ?as] by blast
      then show ?thesis using that(1) by (auto simp: dial_ok_def list_all_iff)
    qed
    then show ?thesis using True Some port
      by (auto simp: dialRoute_def Itoa_443 Let_def split: prod.splits)
  qed
qed

lemma sni_inv_dialRoute:
  assumes inv: "sni_inv C p" and r: "route_ok p h r"
  shows "sni_inv C (snd (dialRoute lookup dial r p))"
proof -
  let ?q = "snd (dialRoute lookup dial r p)"
  have c: "sni_config ?q = sni_config p" by simp
  show ?thesis using inv dialRoute_dials [OF r, of lookup dial] config_eqs [OF c] by (auto simp: sni_inv_def)
qed

subsection \<open>The security invariant along a run\<close>

lemma readProxyHeader_frame [simp]:
  "sni_config (snd (readProxyHeader env p)) = sni_config p" "sp_dials (snd (readProxyHeader env p)) = sp_dials p"
  "sp_cache (snd (readProxyHeader env p)) = sp_cache p" "sp_activeTunnels (snd (readProxyHeader env p)) = sp_activeTunnels p"
  "sp_closed (snd (readProxyHeader env p)) = sp_closed p" "sp_localSNIs (snd (readProxyHeader env p)) = sp_localSNIs p"
  "sp_requests (snd (readProxyHeader env p)) = sp_requests p"
  by (auto simp: readProxyHeader_def split: sum.splits)

lemma sni_inv_snilog [simp]: "sni_inv C (snilog c p) \<longleftrightarrow> sni_inv C p"
  using sni_inv_cong [of C p "snilog c p"] sni_inv_cong [of C "snilog c p" p] by auto

lemma sni_inv_connectTarget:
  assumes "sni_inv C p" "route_ok p h r"
  shows "sni_inv C (snd (connectTarget env conn hostname info stream r p))"
proof -
  obtain res q where d: "dialRoute (ce_lookup env) (ce_dial env) r p = (res, q)" by force
  with sni_inv_dialRoute [OF assms, of "ce_lookup env" "ce_dial env"] have q: "sni_inv C q" by simp
  then have "sni_inv C (addTunnel hostname conn (snilog c q))" for c by (rule sni_inv_cong) simp_all
  with q d show ?thesis by (auto simp: connectTarget_def Let_def split: sum.splits)
qed

lemma sni_inv_handleConnection:
  assumes inv: "sni_inv C p"
  shows "sni_inv C (snd (handleConnection C env conn p))"
proof -
  obtain res q where r: "readProxyHeader env (snilog (RecordSNIConnection ''accepted'') p) = (res, q)" by force
  then have q: "sni_inv C q"
    using sni_inv_cong [OF inv, of q] readProxyHeader_frame [of env "snilog (RecordSNIConnection ''accepted'') p"] by simp
  have "sni_inv C (snd (connectTarget env conn h info stream route q2))"
    if g: "getRoute C (ce_route env) h a (snilog c q) = (Inr (Some route), q2)" for h a c q2 info stream route
  proof (rule sni_inv_connectTarget)
    let ?q1 = "snilog c q"
    have q1: "sni_inv C ?q1" using q by simp
    show "sni_inv C q2" using sni_inv_getRoute [OF q1, of "ce_route env" h a] g by simp
    have "route_ok q2 = route_ok ?q1" using getRoute_frame(1) [of C "ce_route env" h a ?q1] g by (intro config_eqs) simp
    moreover have "route_ok ?q1 h route" using q1 g by (intro getRoute_route [where C = C and env = "ce_route env" and a = a]) (auto simp: sni_inv_def)
    ultimately show "route_ok q2 h route" by simp
  qed
  moreover have "sni_inv C q2" if "getRoute C (ce_route env) h a (snilog c q) = (x, q2)" for h a c q2 x
    using sni_inv_getRoute [of C "snilog c q" "ce_route env" h a] q that by simp
  ultimately show ?thesis using q r
    by (auto simp: handleConnection_def Let_def split: option.splits sum.splits prod.splits)
qed

lemma handleConnection_config: "sni_config (snd (handleConnection C env conn p)) = sni_config p"
proof -
  obtain x q0 where r: "readProxyHeader env (snilog (RecordSNIConnection ''accepted'') p) = (x, q0)" by force
  then have q0: "sni_config q0 = sni_config p"
    using readProxyHeader_frame(1) [of env "snilog (RecordSNIConnection ''accepted'') p"] by simp
  have g: "sni_config q2 = sni_config p" if "getRoute C (ce_route env) h a (snilog c q0) = (z, q2)" for h a c z q2
    using that q0 getRoute_frame(1) [of C "ce_route env" h a "snilog c q0"] by simp
  have ct: "sni_config (snd (connectTarget env conn h info stream r q2)) = sni_config q2" for h info stream r q2
    using dialRoute_frame(1) [of "ce_lookup env" "ce_dial env" r q2]
    by (cases "dialRoute (ce_lookup env) (ce_dial env) r q2") (auto simp: connectTarget_def Let_def split: sum.splits)
  show ?thesis using r q0
    by (auto simp: handleConnection_def Let_def ct dest: g split: option.splits sum.splits prod.splits)
qed

lemma fold_co_Delete:
  assumes "cache_laws C d"
  shows "co_Get C t k (fold (co_Delete C) ds c) = (if k \<in> set ds then None else co_Get C t k c)"
  by (induction ds arbitrary: c) (auto simp: cache_deleteD [OF assms])

lemma sni_step_inv: "sni_step C s t \<Longrightarrow> sni_inv C (fst s) \<Longrightarrow> sni_inv C (fst t)"
proof (induction rule: sni_step.induct)
  case (ss_open env conn p res q run)
  then show ?case using sni_inv_handleConnection [of C p env conn] by simp
next
  case (ss_end h conn run p up down)
  then show ?case by (auto simp: endTunnel_def elim: sni_inv_cong)
next
  case (ss_update p run fullDomains)
  then have "cache_laws C routeCacheTTL" by (simp add: sni_inv_def)
  note f = fold_co_Delete [OF this]
  have c: "sni_config (UpdateLocalSNIs C fullDomains p) = sni_config p" by simp
  show ?case using ss_update config_eqs [OF c] by (auto simp: sni_inv_def f split: if_splits)
next
  case (ss_clear p run)
  have c: "sni_config (ClearCache C p) = sni_config p" by (simp add: ClearCache_def)
  show ?case using ss_clear config_eqs [OF c] by (auto simp: sni_inv_def ClearCache_def cache_laws_def cache_flush_def)
next
  case (ss_order m p l run)
  then show ?case by (auto elim!: sni_inv_cong)
qed

interpretation sni_sec: step_system "sni_step C" "\<lambda>s. sni_inv C (fst s)" for C
  by unfold_locales (rule sni_step_inv)

subsection \<open>The tunnel table along a run\<close>

lemma sni_calls [simp]:
  "gauge (SysVar V_activeProxyConnections) [RecordActiveProxyConnection d] = d"
  "gauge (SysVar V_activeProxyConnections) [RecordSNIConnection x] = 0"
  "gauge (SysVar V_activeProxyConnections) [RecordSNIProxyProtocolParseError] = 0"
  "gauge (SysVar V_activeProxyConnections) [RecordSNITrustedProxyEvent x] = 0"
  "gauge (SysVar V_activeProxyConnections) [RecordProxyTLSHandshake y] = 0"
  "gauge (SysVar V_activeProxyConnections) [RecordProxyRouteLookup x] = 0"
  "gauge (SysVar V_activeProxyConnections) [RecordSNIRouteAPIRequest x] = 0"
  "gauge (SysVar V_activeProxyConnections) [RecordSNIRouteAPILatency y] = 0"
  "gauge (SysVar V_activeProxyConnections) [RecordProxyBytesTransmitted x d] = 0"
  by (simp_all add: gauge_single Record_defs)

lemma gauge_stages [simp]:
  "tunnelGauge (snd (readProxyHeader env p)) = tunnelGauge p" "tunnelGauge (snd (getRoute C renv h a p)) = tunnelGauge p"
  "tunnelGauge (snd (dialRoute lookup dial r p)) = tunnelGauge p" "tunnelGauge (addTunnel h c p) = tunnelGauge p"
  "tunnelGauge (removeTunnel h c p) = tunnelGauge p" "tunnelGauge (closeTunnels h p) = tunnelGauge p"
proof -
  show "tunnelGauge (snd (readProxyHeader env p)) = tunnelGauge p"
    by (auto simp: readProxyHeader_def split: sum.splits)
  have "tunnelGauge (snd (queryAPI C renv h a q)) = tunnelGauge q" for q
    by (auto simp: queryAPI_def Let_def split: apiReply.splits option.splits)
  then show "tunnelGauge (snd (getRoute C renv h a p)) = tunnelGauge p"
    by (auto simp: getRoute_def split: option.splits)
  show "tunnelGauge (snd (dialRoute lookup dial r p)) = tunnelGauge p"
    by (auto simp: dialRoute_def Let_def split: option.splits prod.splits)
  show "tunnelGauge (addTunnel h c p) = tunnelGauge p" by (simp add: addTunnel_def)
  show "tunnelGauge (removeTunnel h c p) = tunnelGauge p" "tunnelGauge (closeTunnels h p) = tunnelGauge p"
    by (auto simp: removeTunnel_def closeTunnels_def Let_def split: option.splits)
qed

lemma stage_tables [simp]:
  "sp_closed (snd (dialRoute lookup dial r p)) = sp_closed p" "sp_closed (addTunnel h c p) = sp_closed p"
  "sp_closed (removeTunnel h c p) = sp_closed p"
  by (auto simp: dialRoute_def addTunnel_def removeTunnel_def Let_def split: option.splits prod.splits)

lemma sameTunnels_refl [simp]: "sameTunnels p p"
  by (simp add: sameTunnels_def)

lemma connectTarget_tunnels:
  "connectTarget env conn h info stream r p = (res, q) \<Longrightarrow>
   (case res of
      None \<Rightarrow> sameTunnels q p
    | Some t \<Rightarrow> tn_hostname t = h \<and> sp_activeTunnels q = sp_activeTunnels (addTunnel h conn p) \<and>
                sp_closed q = sp_closed p \<and> tunnelGauge q = tunnelGauge p + 1)"
proof -
  assume c: "connectTarget env conn h info stream r p = (res, q)"
  obtain x q0 where d: "dialRoute (ce_lookup env) (ce_dial env) r p = (x, q0)" by force
  then have "sameTunnels q0 p"
    using gauge_stages(3) [of "ce_lookup env" "ce_dial env" r p] stage_tables(1) [of "ce_lookup env" "ce_dial env" r p]
      dialRoute_frame(3) [of "ce_lookup env" "ce_dial env" r p] by (simp add: sameTunnels_def)
  with c d show ?thesis
    by (auto simp: connectTarget_def sameTunnels_def Let_def addTunnel_def split: sum.splits if_splits)
qed

lemma handleConnection_tunnels:
  assumes "handleConnection C env conn p = (res, q)"
  shows "case res of
      None \<Rightarrow> sameTunnels q p
    | Some t \<Rightarrow> sp_activeTunnels q = sp_activeTunnels (addTunnel (tn_hostname t) conn p) \<and>
                sp_closed q = sp_closed p \<and> tunnelGauge q = tunnelGauge p + 1"
proof -
  obtain x q0 where r: "readProxyHeader env (snilog (RecordSNIConnection ''accepted'') p) = (x, q0)" by force
  then have q0: "sameTunnels q0 p"
    using readProxyHeader_frame(4,5) [of env "snilog (RecordSNIConnection ''accepted'') p"]
      gauge_stages(1) [of env "snilog (RecordSNIConnection ''accepted'') p"] by (simp add: sameTunnels_def)
  have g: "sameTunnels q2 p" if "getRoute C (ce_route env) h a (snilog (RecordProxyTLSHandshake y) q0) = (z, q2)" for h a y z q2
    using that q0 getRoute_frame(3,4) [of C "ce_route env" h a "snilog (RecordProxyTLSHandshake y) q0"]
      gauge_stages(2) [of C "ce_route env" h a "snilog (RecordProxyTLSHandshake y) q0"] by (simp add: sameTunnels_def)
  have l: "sameTunnels (snilog (RecordProxyTLSHandshake y) q0) p" for y using q0 by (simp add: sameTunnels_def)
  have a: "sp_activeTunnels (addTunnel h conn q2) = sp_activeTunnels (addTunnel h conn p)" if "sameTunnels q2 p" for h q2
    using that by (simp add: addTunnel_def sameTunnels_def)
  have ct: "case res of None \<Rightarrow> sameTunnels q p | Some t \<Rightarrow> sp_activeTunnels q = sp_activeTunnels (addTunnel (tn_hostname t) conn p) \<and>
                sp_closed q = sp_closed p \<and> tunnelGauge q = tunnelGauge p + 1"
    if "sameTunnels q2 p" "connectTarget env conn h info stream r q2 = (res, q)" for q2 h info stream r
    using connectTarget_tunnels [OF that(2)] that(1) a [OF that(1)] by (auto simp: sameTunnels_def split: option.splits)
  show ?thesis using assms r q0 g l
    by (auto simp: handleConnection_def Let_def dest: ct [OF g]
        split: option.split_asm sum.split_asm prod.split_asm if_split_asm)
qed

lemma tunnelConns_upd:
  "tunnelConns (addTunnel h c p) h' = (if h' = h then tunnelConns p h @ [c] else tunnelConns p h')"
  "tunnelConns (removeTunnel h c p) h' = (if h' = h then filter (\<lambda>d. d \<noteq> c) (tunnelConns p h) else tunnelConns p h')"
  "tunnelConns (closeTunnels h p) h' = (if h' = h then [] else tunnelConns p h')"
  "set (sp_closed (closeTunnels h p)) = set (sp_closed p) \<union> set (tunnelConns p h)"
  by (auto simp: tunnelConns_def addTunnel_def removeTunnel_def closeTunnels_def Load_Store Load_Delete Let_def split: option.splits)

lemma snd_Store: "x \<in> snd ` set (Store k v m) \<Longrightarrow> x = v \<or> x \<in> snd ` set m"
  by (induction m) (auto split: if_splits)

lemma snd_Delete: "x \<in> snd ` set (Delete k m) \<Longrightarrow> x \<in> snd ` set m"
  by (auto simp: AList.delete_eq)

lemma tableOK_upd: "tableOK p \<Longrightarrow> tableOK (addTunnel h c p)" "tableOK p \<Longrightarrow> tableOK (removeTunnel h c p)"
  "tableOK p \<Longrightarrow> tableOK (closeTunnels h p)"
  by (auto simp: tableOK_def addTunnel_def removeTunnel_def closeTunnels_def Let_def
      dest!: snd_Store snd_Delete split: option.splits)

lemma tableOK_cong: "sp_activeTunnels q = sp_activeTunnels p \<Longrightarrow> tableOK q = tableOK p"
  by (simp add: tableOK_def)

lemma tunnelConns_cong: "sp_activeTunnels q = sp_activeTunnels p \<Longrightarrow> tunnelConns q = tunnelConns p"
  by (simp add: tunnelConns_def fun_eq_iff)

lemma fold_closeTunnels:
  "tunnelConns (fold closeTunnels hs p) h = (if h \<in> set hs then [] else tunnelConns p h)"
  "set (sp_closed (fold closeTunnels hs p)) = set (sp_closed p) \<union> (\<Union>h \<in> set hs. set (tunnelConns p h))"
  "tunnelGauge (fold closeTunnels hs p) = tunnelGauge p" "tableOK p \<Longrightarrow> tableOK (fold closeTunnels hs p)"
proof (induction hs arbitrary: p)
  case (Cons k hs)
  { case 1 show ?case using Cons.IH(1) [of "closeTunnels k p"] by (auto simp: tunnelConns_upd) }
  { case 2 show ?case using Cons.IH(2) [of "closeTunnels k p"] by (auto simp: tunnelConns_upd split: if_splits) }
  { case 3 show ?case using Cons.IH(3) [of "closeTunnels k p"] by simp }
  { case 4 then show ?case using Cons.IH(4) [of "closeTunnels k p"] by (simp add: tableOK_upd) }
qed auto

lemma UpdateLocalSNIs_tunnels:
  fixes p :: "'c SNIProxy" and ds :: "string list"
  defines "removed \<equiv> set (sp_localSNIs p) - set ds"
  shows "tunnelConns (UpdateLocalSNIs C ds p) h = (if h \<in> removed then [] else tunnelConns p h)"
    "set (sp_closed (UpdateLocalSNIs C ds p)) = set (sp_closed p) \<union> (\<Union>h \<in> removed. set (tunnelConns p h))"
    "tunnelGauge (UpdateLocalSNIs C ds p) = tunnelGauge p" "tableOK p \<Longrightarrow> tableOK (UpdateLocalSNIs C ds p)"
proof -
  let ?q = "p\<lparr>sp_cache := fold (co_Delete C) ds (sp_cache p), sp_localSNIs := remdups ds\<rparr>"
  have t: "tunnelConns ?q = tunnelConns p" by (rule tunnelConns_cong) simp
  have s: "set (filter (\<lambda>h. h \<notin> set ds) (sp_localSNIs p)) = removed" by (auto simp: removed_def)
  show "tunnelConns (UpdateLocalSNIs C ds p) h = (if h \<in> removed then [] else tunnelConns p h)"
    unfolding UpdateLocalSNIs_fold fold_closeTunnels s t ..
  show "set (sp_closed (UpdateLocalSNIs C ds p)) = set (sp_closed p) \<union> (\<Union>h \<in> removed. set (tunnelConns p h))"
    unfolding UpdateLocalSNIs_fold fold_closeTunnels s t by simp
  show "tunnelGauge (UpdateLocalSNIs C ds p) = tunnelGauge p"
    unfolding UpdateLocalSNIs_fold fold_closeTunnels by simp
  have k: "tableOK ?q = tableOK p" by (rule tableOK_cong) simp
  show "tableOK p \<Longrightarrow> tableOK (UpdateLocalSNIs C ds p)"
    unfolding UpdateLocalSNIs_fold by (rule fold_closeTunnels) (simp add: k)
qed

lemma tunnel_inv_alt:
  "tunnel_inv p run \<longleftrightarrow> tableOK p \<and> distinct (map snd run) \<and>
     (\<forall>h c. c \<in> set (tunnelConns p h) \<longleftrightarrow> (h, c) \<in> set run \<and> c \<notin> set (sp_closed p)) \<and> tunnelGauge p = int (length run)"
  by (auto simp: tunnel_inv_def tableOK_def)

lemma run_functional: "distinct (map snd run) \<Longrightarrow> (h, c) \<in> set run \<Longrightarrow> (h', c) \<in> set run \<Longrightarrow> h = h'"
  by (induction run) force+

lemma tunnel_inv_sameTunnels: "sameTunnels q p \<Longrightarrow> tunnel_inv q run = tunnel_inv p run"
  using tunnelConns_cong [of q p] by (auto simp: tunnel_inv_def sameTunnels_def)

lemma tunnel_step_inv: "sni_step C s t \<Longrightarrow> tunnel_inv (fst s) (snd s) \<Longrightarrow> tunnel_inv (fst t) (snd t)"
proof (induction rule: sni_step.induct)
  case (ss_open env conn p res q run)
  note h = handleConnection_tunnels [OF ss_open(1)]
  show ?case
  proof (cases res)
    case None
    then show ?thesis using h ss_open tunnel_inv_sameTunnels [of q p run] by simp
  next
    case (Some t)
    let ?a = "addTunnel (tn_hostname t) conn p"
    have "tunnelConns q = tunnelConns ?a" "tableOK q = tableOK ?a"
      using h Some by (auto intro!: tunnelConns_cong tableOK_cong)
    with h Some ss_open show ?thesis
      by (auto simp: tunnel_inv_alt tableOK_upd tunnelConns_upd image_iff split: if_splits)
  qed
next
  case (ss_end h conn run p up down)
  have d: "distinct run" "inj_on snd (set run)" using ss_end(2) by (auto simp: tunnel_inv_def distinct_map)
  have l: "int (length (removeAll (h, conn) run)) = int (length run) - 1"
    using d(1) ss_end(1) by (induction run) auto
  have m: "distinct (map snd (removeAll (h, conn) run))"
    using d by (auto simp: distinct_map distinct_removeAll intro: inj_on_subset)
  let ?q = "snilog (RecordProxyBytesTransmitted ''target_to_client'' down) (snilog (RecordProxyBytesTransmitted ''client_to_target'' up) p)"
  let ?e = "endTunnel h conn up down p"
  have "tunnelConns ?q = tunnelConns p" "tunnelConns ?e = tunnelConns (removeTunnel h conn ?q)"
    by (auto intro!: tunnelConns_cong simp: endTunnel_def)
  then have t: "tunnelConns ?e h' = (if h' = h then filter (\<lambda>d. d \<noteq> conn) (tunnelConns p h) else tunnelConns p h')" for h'
    by (simp add: tunnelConns_upd)
  have "tableOK ?e = tableOK (removeTunnel h conn ?q)" "tableOK ?q = tableOK p"
    by (auto intro!: tableOK_cong simp: endTunnel_def)
  then have k: "tableOK ?e" using ss_end(2) tableOK_upd(2) [of ?q h conn] by (simp add: tunnel_inv_alt)
  have g: "tunnelGauge ?e = tunnelGauge p - 1" "sp_closed ?e = sp_closed p" by (simp_all add: endTunnel_def)
  have "(h', conn) \<in> set run \<Longrightarrow> h' = h" for h'
    using ss_end run_functional [of run h' conn h] by (simp add: tunnel_inv_def)
  then show ?case using ss_end(2) l m k g by (auto simp: tunnel_inv_alt t split: if_splits)
next
  case (ss_update p run fullDomains)
  have f: "h = h'" if "c \<in> set (tunnelConns p h)" "c \<in> set (tunnelConns p h')" for c h h'
    using that ss_update run_functional [of run h c h'] by (auto simp: tunnel_inv_alt)
  show ?case using ss_update f UpdateLocalSNIs_tunnels [where p = p and C = C and ds = fullDomains]
    by (auto simp: tunnel_inv_alt split: if_splits)
next
  case (ss_clear p run)
  then show ?case using tunnel_inv_sameTunnels [of "ClearCache C p" p run]
    by (simp add: sameTunnels_def ClearCache_def)
next
  case (ss_order m p l run)
  let ?q = "p\<lparr>sp_activeTunnels := m, sp_localSNIs := l\<rparr>"
  have w: "wf_map m" "wf_map (sp_activeTunnels p)" using ss_order wf_map_mset [OF ss_order(1)] by (auto simp: tunnel_inv_def)
  have st: "set m = set (sp_activeTunnels p)" using ss_order(1) by (rule mset_eq_setD)
  have "map_of m = map_of (sp_activeTunnels p)"
    using w st map_of_inject_set [of m "sp_activeTunnels p"] by (simp add: wf_map_def)
  then have "tunnelConns ?q = tunnelConns p" by (simp add: tunnelConns_def fun_eq_iff)
  then show ?case using ss_order(3) w st by (auto simp: tunnel_inv_def)
qed

interpretation sni_tun: step_system "sni_step C" "\<lambda>s. tunnel_inv (fst s) (snd s)" for C
  by unfold_locales (rule tunnel_step_inv)

lemma sni_step_config: "sni_step C s t \<Longrightarrow> sni_config (fst t) = sni_config (fst s)"
proof (induction rule: sni_step.induct)
  case (ss_open env conn p res q run)
  then show ?case using handleConnection_config [of C env conn p] by simp
qed (auto simp: endTunnel_def ClearCache_def)

lemma sni_run_config: "(sni_step C)\<^sup>*\<^sup>* s t \<Longrightarrow> sni_config (fst t) = sni_config (fst s)"
  by (induction rule: rtranclp_induct) (auto dest: sni_step_config)

lemma demoCache_laws: "cache_laws demoCache routeCacheTTL"
  by (auto simp: cache_laws_def cache_set_get_def cache_set_only_def cache_delete_def cache_flush_def demoCache_def
      Load_Store Load_Delete split: option.splits)

subsection \<open>Properties\<close>

lemma NewSNIProxy_init:
  assumes "NewSNIProxy parse lookupIP cache0 idle port url key addr lport overrides pp trusted nets = Inr p"
    "cache_laws C routeCacheTTL" "\<And>t h. co_Get C t h cache0 = None"
  shows "sni_inv C p" "tunnel_inv p []"
  using assms
  by (auto simp: NewSNIProxy_def sni_inv_def tunnel_inv_def tunnelConns_def split: if_splits sum.splits)

text \<open>
  C7: in every run of a proxy that starts with an empty cache, whatever the route API, the resolver
  and the clients do, each address the proxy dials is the local proxy or port 443 of an address that
  lies in one of the networks it was configured with.  Cached routes are covered: the cache holds
  only routes the proxy computed itself.
\<close>

theorem sni_dials_only_allowed:
  assumes "cache_laws C routeCacheTTL" "\<And>t h. co_Get C t h cache0 = None"
    and "NewSNIProxy parse lookupIP cache0 idle port url key addr lport overrides pp trusted nets = Inr p0"
    and "(sni_step C)\<^sup>*\<^sup>* (p0, []) (p, run)" and "a \<in> set (sp_dials p)"
  shows "a = JoinHostPort addr (Itoa lport) \<or>
      (\<exists>ip n. n \<in> set (sp_allowedNetworks p0) \<and> Prefix_Contains n (Unmap ip) \<and> a = JoinHostPort (Addr_String ip) ''443'')"
proof -
  have "sni_inv C p0" using NewSNIProxy_init(1) [OF assms(3,1,2)] .
  then have "sni_inv C p" using sni_sec.run_inv [OF assms(4)] by simp
  then have "dial_ok p a" using assms(5) by (simp add: sni_inv_def)
  moreover have "dial_ok p = dial_ok p0" using sni_run_config [OF assms(4)] by (intro config_eqs) simp
  moreover have "localDial p0 = JoinHostPort addr (Itoa lport)"
    using assms(3) by (auto simp: NewSNIProxy_def localDial_def split: if_splits sum.splits)
  ultimately show ?thesis by (auto simp: dial_ok_def addrAllowed_def list_ex_iff)
qed

lemma demo_ParsePrefix: "ParsePrefix ''10.0.0.0/8'' = Some \<lparr>pfx_addr = [10, 0, 0, 0], pfx_bits = 8\<rparr>"
  by (simp add: ParsePrefix_def lastIndex_def ParseAddr_def parseIPv4_def parseOctet_def parseUint_def isDigit_def digitVal_def
      Atoi_def int64_ok_def)

lemma demoNew_eq:
  "NewSNIProxy demoParse (\<lambda>u. None) [] (5 * minute) 8443 ''https://a/x'' ''k'' ''localhost'' 443 [''own''] False [] [''10.0.0.0/8'']
     = Inr demoProxy"
  by (simp add: NewSNIProxy_def demoProxy_def proxy_ValidateRemoteConfigURL_def demoParse_def trustedMap_def demo_ParsePrefix
      Prefix_Masked_def CIDRMask_def MaskIP_def upt_rec)

lemma demo_allowed: "addrAllowed [\<lparr>pfx_addr = [10, 0, 0, 0], pfx_bits = 8\<rparr>] [10, 0, 0, 9]"
  by (simp add: addrAllowed_def Prefix_Contains_def Unmap_def To4_def ipBits_def byteBits_def)

lemma demo_addr: "JoinHostPort (Addr_String [10, 0, 0, 9]) ''443'' = ''10.0.0.9:443''"
  by (simp add: JoinHostPort_def Addr_String_def ip4String_def itoaNat.simps)

lemma demo_dial: "sp_dials (snd (handleConnection demoCache demoConn 1 demoProxy)) = [''10.0.0.9:443'']"
  using demo_allowed demo_addr
  by (simp add: handleConnection_def readProxyHeader_def demoConn_def demoProxy_def snilog_def exampleConn_def getRoute_def
      demoCache_def queryAPI_def demoRouteEnv_def routeOf_def connectTarget_def dialRoute_def Itoa_443 Let_def addTunnel_def)

theorem sni_dials_only_allowed_witness:
  "\<exists>ip n. n \<in> set (sp_allowedNetworks demoProxy) \<and> Prefix_Contains n (Unmap ip) \<and> ''10.0.0.9:443'' = JoinHostPort (Addr_String ip) ''443''"
proof -
  let ?h = "handleConnection demoCache demoConn 1 demoProxy"
  have "\<exists>run. sni_step demoCache (demoProxy, []) (snd ?h, run)"
    using ss_open [of demoCache demoConn 1 demoProxy "fst ?h" "snd ?h" "[]"] by (auto simp: demoProxy_def)
  then obtain run where r: "(sni_step demoCache)\<^sup>*\<^sup>* (demoProxy, []) (snd ?h, run)" by blast
  have "''10.0.0.9:443'' = JoinHostPort ''localhost'' (Itoa 443) \<or>
      (\<exists>ip n. n \<in> set (sp_allowedNetworks demoProxy) \<and> Prefix_Contains n (Unmap ip) \<and> ''10.0.0.9:443'' = JoinHostPort (Addr_String ip) ''443'')"
  proof (rule sni_dials_only_allowed [OF demoCache_laws _ demoNew_eq r])
    show "co_Get demoCache t h [] = None" for t h by (simp add: demoCache_def)
    show "''10.0.0.9:443'' \<in> set (sp_dials (snd ?h))" unfolding demo_dial by simp
  qed
  then show ?thesis by (simp add: JoinHostPort_def)
qed



text \<open>
  C31: a connection for a hostname that is overridden or local is sent to the local proxy whatever the
  cache holds and the route API would say: the API is not asked, the cache is left alone, and nothing
  but the local proxy is dialled.
\<close>

theorem local_hostname_stays_local:
  assumes "fst (readProxyHeader env (snilog (RecordSNIConnection ''accepted'') p)) = Some (info, stream)"
    and "ce_hello env stream = Some h" "h \<in> sp_localOverrides p \<or> h \<in> set (sp_localSNIs p)"
    and "handleConnection C env conn p = (res, q)"
  shows "sp_requests q = sp_requests p \<and> sp_cache q = sp_cache p \<and>
      (sp_dials q = sp_dials p \<or> sp_dials q = sp_dials p @ [JoinHostPort (sp_localProxyAddr p) (Itoa (sp_localProxyPort p))])"
proof -
  obtain x q0 where r: "readProxyHeader env (snilog (RecordSNIConnection ''accepted'') p) = (x, q0)" by force
  have f: "sp_requests q0 = sp_requests p" "sp_cache q0 = sp_cache p" "sp_dials q0 = sp_dials p"
    "sp_localSNIs q0 = sp_localSNIs p" "sni_config q0 = sni_config p"
    using readProxyHeader_frame [of env "snilog (RecordSNIConnection ''accepted'') p"] r by simp_all
  have x: "x = Some (info, stream)" using assms(1) r by simp
  have g: "\<exists>c. getRoute C (ce_route env) h a (snilog d q0) = (Inr (Some (localRoute q0 h)), snilog c (snilog d q0))" for a d
    using assms(3) f(4,5) by (auto simp: getRoute_def sni_config_def localRoute_def)
  have l: "connectTarget env conn h info stream (localRoute q0 h) q2 = (res, q) \<Longrightarrow>
      sp_requests q = sp_requests q2 \<and> sp_cache q = sp_cache q2 \<and> sp_dials q = sp_dials q2 @ [localDial q0]" for q2
    by (auto simp: connectTarget_def dialRoute_def localRoute_def localDial_def addTunnel_def snilog_def Let_def
        split: option.splits if_splits)
  have "sp_localProxyAddr q0 = sp_localProxyAddr p" "sp_localProxyPort q0 = sp_localProxyPort p"
    using f(5) by (auto simp: sni_config_def)
  then have d: "localDial q0 = JoinHostPort (sp_localProxyAddr p) (Itoa (sp_localProxyPort p))" by (simp add: localDial_def)
  obtain c where c: "getRoute C (ce_route env) h (clientAddrStr env info) (snilog (RecordProxyTLSHandshake (ce_helloSeconds env)) q0)
      = (Inr (Some (localRoute q0 h)), snilog c (snilog (RecordProxyTLSHandshake (ce_helloSeconds env)) q0))" using g by blast
  show ?thesis using assms(2,4) r x f d c l [of "snilog c (snilog (RecordProxyTLSHandshake (ce_helloSeconds env)) q0)"]
    by (auto simp: handleConnection_def Let_def split: if_splits)
qed

theorem local_hostname_witness:
  "sp_dials (snd (handleConnection demoCache (demoConn\<lparr>ce_hello := (\<lambda>s. Some ''own'')\<rparr>) 1 demoProxy)) = [''localhost:443'']"
proof -
  let ?e = "demoConn\<lparr>ce_hello := (\<lambda>s. Some ''own'')\<rparr>"
  let ?h = "handleConnection demoCache ?e 1 demoProxy"
  have "\<exists>info stream. fst (readProxyHeader ?e (snilog (RecordSNIConnection ''accepted'') demoProxy)) = Some (info, stream)"
    by (simp add: readProxyHeader_def demoProxy_def snilog_def)
  then obtain info stream where r: "fst (readProxyHeader ?e (snilog (RecordSNIConnection ''accepted'') demoProxy)) = Some (info, stream)" by blast
  have "sp_dials (snd ?h) = sp_dials demoProxy \<or> sp_dials (snd ?h) = sp_dials demoProxy @ [JoinHostPort (sp_localProxyAddr demoProxy) (Itoa (sp_localProxyPort demoProxy))]"
    using local_hostname_stays_local [OF r, of "''own''" demoCache 1 "fst ?h" "snd ?h"] by (simp add: demoProxy_def)
  moreover have "sp_dials (snd ?h) \<noteq> []"
    by (simp add: handleConnection_def readProxyHeader_def demoConn_def demoProxy_def snilog_def getRoute_def
        connectTarget_def dialRoute_def localRoute_def Let_def addTunnel_def)
  ultimately show ?thesis by (auto simp: demoProxy_def JoinHostPort_def Itoa_443)
qed

text \<open>
  C36: \<open>UpdateLocalSNIs\<close> makes exactly the given domains local, closes exactly the client connections
  of tunnels whose hostname stopped being local, keeps every other tunnel, and forgets exactly the
  cached routes of the given domains.
\<close>

theorem UpdateLocalSNIs_exact:
  assumes "cache_laws C d"
  shows "set (sp_localSNIs (UpdateLocalSNIs C ds p)) = set ds \<and>
      (\<forall>h. tunnelConns (UpdateLocalSNIs C ds p) h = (if h \<in> set (sp_localSNIs p) \<and> h \<notin> set ds then [] else tunnelConns p h)) \<and>
      set (sp_closed (UpdateLocalSNIs C ds p)) = set (sp_closed p) \<union> {c. \<exists>h. h \<in> set (sp_localSNIs p) \<and> h \<notin> set ds \<and> c \<in> set (tunnelConns p h)} \<and>
      (\<forall>t h. co_Get C t h (sp_cache (UpdateLocalSNIs C ds p)) = (if h \<in> set ds then None else co_Get C t h (sp_cache p)))"
  using fold_co_Delete [OF assms] UpdateLocalSNIs_tunnels [where p = p and C = C and ds = ds] by auto

theorem UpdateLocalSNIs_witness:
  "set (sp_closed (UpdateLocalSNIs demoCache [''b''] (demoProxy\<lparr>sp_localSNIs := [''a''], sp_activeTunnels := [(''a'', [7])]\<rparr>))) = {7}"
  using UpdateLocalSNIs_exact [OF demoCache_laws, of "[''b'']" "demoProxy\<lparr>sp_localSNIs := [''a''], sp_activeTunnels := [(''a'', [7])]\<rparr>"]
  by (simp add: demoProxy_def tunnelConns_def)

text \<open>
  The endpoint chosen for the first client of a hostname is served from the cache to every other
  client for three seconds, and a hostname the API does not know is refused for one minute, in both
  cases without a request.  The hash of the client address therefore only decides for clients that
  miss the cache.
\<close>

theorem cached_route_ignores_client:
  assumes "cache_laws C routeCacheTTL" "h \<notin> sp_localOverrides p" "h \<notin> set (sp_localSNIs p)"
    and "co_Get C (re_getAt env) h (sp_cache p) = None"
    and "getRoute C env h client p = (Inr route, q)"
    and "re_setAt env \<le> re_getAt env2" "re_getAt env2 \<le> re_setAt env + (if route = None then minute else 3 * second)"
  shows "fst (getRoute C env2 h client2 q) = Inr route \<and> sp_requests (snd (getRoute C env2 h client2 q)) = sp_requests q"
proof -
  let ?p = "snilog (RecordProxyRouteLookup ''cache_miss'') p"
  have q: "queryAPI C env h client ?p = (Inr route, q)" using assms(2-5) by (simp add: getRoute_def)
  have f: "sp_localOverrides q = sp_localOverrides p" "sp_localSNIs q = sp_localSNIs p"
    using queryAPI_frame(1) [of C env h client ?p] q by (auto simp: queryAPI_def sni_config_def snilog_def Let_def
        split: apiReply.splits option.splits if_splits)
  obtain e where e: "sp_cache q = co_Set C (re_setAt env) h route e (sp_cache p)"
      "ttlOf routeCacheTTL e = (if route = None then minute else 3 * second)"
    using q by (auto simp: queryAPI_def Let_def ttlOf_def routeCacheTTL_def split: apiReply.splits option.splits if_splits)
  have "co_Get C (re_getAt env2) h (sp_cache q) = Some route"
    unfolding e(1) using cache_set_getD [OF assms(1), where e = e] assms(6,7) e(2) by (auto split: if_splits)
  then show ?thesis using f assms(2,3) by (cases route) (simp_all add: getRoute_def)
qed

theorem cached_route_witness:
  "\<exists>r q. getRoute demoCache demoRouteEnv ''h'' ''c1'' demoProxy = (Inr (Some r), q) \<and>
     fst (getRoute demoCache (demoRouteEnv\<lparr>re_getAt := 2 * second, re_reply := DoFailed\<rparr>) ''h'' ''c2'' q) = Inr (Some r)"
proof -
  let ?g = "getRoute demoCache demoRouteEnv ''h'' ''c1'' demoProxy"
  have "\<exists>r. fst ?g = Inr (Some r)"
    by (simp add: getRoute_def demoCache_def demoProxy_def demoRouteEnv_def queryAPI_def snilog_def Let_def)
  then obtain r where r: "?g = (Inr (Some r), snd ?g)" by (metis prod.collapse)
  have "fst (getRoute demoCache (demoRouteEnv\<lparr>re_getAt := 2 * second, re_reply := DoFailed\<rparr>) ''h'' ''c2'' (snd ?g)) = Inr (Some r)"
    using cached_route_ignores_client [OF demoCache_laws _ _ _ r, of "demoRouteEnv\<lparr>re_getAt := 2 * second, re_reply := DoFailed\<rparr>" "''c2''"]
    by (simp add: demoProxy_def demoCache_def demoRouteEnv_def)
  with r show ?thesis by blast
qed

text \<open>
  The sticky choice is always one of the endpoints, for every client address, as long as their
  number fits the 32-bit modulus.
\<close>

theorem sticky_endpoint_in_range:
  assumes "es \<noteq> []" "length es < 2 ^ 32"
  shows "selectStickyEndpoint p client es \<in> set es"
proof -
  have "unat (of_nat (length es) :: u32) = length es" using assms(2) by (simp add: unsigned_of_nat take_bit_nat_eq_self)
  then have "unat (fnv32a client mod of_nat (length es)) < length es"
    using assms(1) by (simp add: unat_mod)
  then show ?thesis using assms(1) by (auto simp: selectStickyEndpoint_def)
qed

theorem sticky_endpoint_witness: "selectStickyEndpoint demoProxy ''10.0.0.1:5'' [''n1'', ''n2''] \<in> {''n1'', ''n2''}"
  using sticky_endpoint_in_range [of "[''n1'', ''n2'']" demoProxy "''10.0.0.1:5''"] by simp

end
