(* ===== verification/SNI_Tunnel.thy ===== *)
theory SNI_Tunnel
  imports SNI_Routing
begin

text \<open>
  The data path of the SNI proxy in \<open>proxy/proxy.go\<close>: \<open>extractSNI\<close> with \<open>peekClientHello\<close>, the idle
  deadline of a tunnel and the two copying goroutines of \<open>pipe\<close>.

  \<^item> A connection (\<open>endpoint\<close>) has the bytes that arrived and were not read, whether its peer ended its
    side, its deadline, whether it is closed, and the bytes written to it; \<open>ep_sent\<close> records all
    that ever arrived.
  \<^item> A goroutine of \<open>pipe\<close> is a \<open>copier\<close>: it waits in \<open>Read\<close>, holds a chunk to write with the error its
    read came with, has left \<open>io.CopyBuffer\<close>, is about to close the connections, or is done.
    \<open>copy_step\<close> is one such action of either goroutine, \<open>pipe_step\<close> adds what happens outside: bytes
    arrive, a peer ends its side, time passes, \<open>UpdateLocalSNIs\<close> closes the client connection.
  \<^item> \<open>SetDeadline\<close> fails exactly on a closed connection, a read or write fails on a closed connection
    and from its deadline on, and may take or write any number of bytes; a write may also fail for
    other reasons after writing part.

  Shown for every interleaving: each side receives a prefix of what the other sent, in order, with
  the ClientHello replayed; a goroutine that saw the end of its source has delivered everything; the
  byte counts recorded are the bytes delivered; buffers go back to the pool cleared; the tunnel times
  out exactly when nothing was read for the timeout; once the connections are closed both
  goroutines end within eight actions.
\<close>

subsection \<open>The ClientHello\<close>

text \<open>
  \<open>tls.Server(...).Handshake\<close> is a parameter: how many bytes it reads from a stream, and the server
  name of the ClientHello it found there, if any.
\<close>

type_synonym tlsServer = "string \<Rightarrow> nat \<times> string option"

datatype sniError = ErrNoClientHello | ErrNoSNI

definition readClientHello :: "tlsServer \<Rightarrow> string \<Rightarrow> (sniError + string) \<times> string \<times> string" where
  "readClientHello tls stream =
     (case tls stream of (n, hello) \<Rightarrow>
        (case hello of None \<Rightarrow> Inl ErrNoClientHello | Some name \<Rightarrow> Inr name, take n stream, drop n stream))"

text \<open>The result has what is replayed and what is still unread.\<close>

definition peekClientHello :: "tlsServer \<Rightarrow> string \<Rightarrow> sniError + string \<times> string \<times> string" where
  "peekClientHello tls stream =
     (case readClientHello tls stream of
        (Inl e, _, _) \<Rightarrow> Inl e
      | (Inr name, peeked, unread) \<Rightarrow> Inr (name, peeked, unread))"

definition extractSNI :: "tlsServer \<Rightarrow> string \<Rightarrow> sniError + string \<times> string \<times> string" where
  "extractSNI tls stream =
     (case peekClientHello tls stream of
        Inl e \<Rightarrow> Inl e
      | Inr (name, peeked, unread) \<Rightarrow> if name = [] then Inl ErrNoSNI else Inr (name, peeked, unread))"

abbreviation defaultSNITunnelIdleTimeout :: duration where "defaultSNITunnelIdleTimeout \<equiv> 5 * 60 * second"

definition loadSNITunnelIdleTimeout :: "(string \<Rightarrow> duration option) \<Rightarrow> (string \<Rightarrow> string) \<Rightarrow> duration" where
  "loadSNITunnelIdleTimeout parseDuration getenv =
     (let v = getenv ''GERBIL_SNI_TUNNEL_IDLE_TIMEOUT'' in
      if v = [] then defaultSNITunnelIdleTimeout
      else case parseDuration v of Some d \<Rightarrow> if 0 < d then d else defaultSNITunnelIdleTimeout | None \<Rightarrow> defaultSNITunnelIdleTimeout)"

subsection \<open>State\<close>

datatype side = Client | Target
datatype direction = Up | Down

fun srcOf :: "direction \<Rightarrow> side" where
  "srcOf Up = Client"
| "srcOf Down = Target"

fun dstOf :: "direction \<Rightarrow> side" where
  "dstOf Up = Target"
| "dstOf Down = Client"

fun directionName :: "direction \<Rightarrow> string" where
  "directionName Up = ''client_to_target''"
| "directionName Down = ''target_to_client''"

record endpoint =
  ep_in :: string
  ep_eof :: bool
  ep_deadline :: time
  ep_closed :: bool
  ep_out :: string
  ep_sent :: string

datatype copier = Reading | Writing string bool | Ended bool | Closing bool | Finished bool

record pipeState =
  tp_conn :: "side \<Rightarrow> endpoint"
  tp_replay :: string
  tp_copier :: "direction \<Rightarrow> copier"
  tp_count :: "direction \<Rightarrow> nat"
  tp_buf :: "direction \<Rightarrow> string"
  tp_pool :: "string list"
  tp_calls :: "call list"
  tp_now :: time
  tp_last :: time

definition bufSize :: nat where "bufSize = 32 * 1024"

definition zeros :: "nat \<Rightarrow> string" where "zeros n = replicate n CHR 0x00"

definition upd :: "side \<Rightarrow> (endpoint \<Rightarrow> endpoint) \<Rightarrow> pipeState \<Rightarrow> pipeState" where
  "upd c f s = s\<lparr>tp_conn := (tp_conn s)(c := f (tp_conn s c))\<rparr>"

definition setCopier :: "direction \<Rightarrow> copier \<Rightarrow> pipeState \<Rightarrow> pipeState" where
  "setCopier d p s = s\<lparr>tp_copier := (tp_copier s)(d := p)\<rparr>"

subsection \<open>Deadlines, reading and writing\<close>

definition SetDeadline :: "time \<Rightarrow> side \<Rightarrow> pipeState \<Rightarrow> bool \<times> pipeState" where
  "SetDeadline deadline c s =
     (if ep_closed (tp_conn s c) then (False, s) else (True, upd c (\<lambda>e. e\<lparr>ep_deadline := deadline\<rparr>) s))"

definition refresh :: "duration \<Rightarrow> pipeState \<Rightarrow> bool \<times> pipeState" where
  "refresh timeout s =
     (let deadline = tp_now s + timeout in
      case SetDeadline deadline Client s of
        (False, s1) \<Rightarrow> (False, s1)
      | (True, s1) \<Rightarrow>
          (case SetDeadline deadline Target s1 of
             (False, s2) \<Rightarrow> (False, s2)
           | (True, s2) \<Rightarrow> (True, s2\<lparr>tp_last := tp_now s2\<rparr>)))"

datatype readResult = Got string | Eof | ReadFailed

text \<open>
  One \<open>Read\<close> of the source of a direction; \<open>None\<close> when it blocks.  The client's reader is
  \<open>io.MultiReader\<close> of the peeked bytes and the connection.  The kernel hands out \<open>Suc k\<close> bytes if it
  has that many.
\<close>

definition sourceRead :: "direction \<Rightarrow> nat \<Rightarrow> pipeState \<Rightarrow> (readResult \<times> pipeState) option" where
  "sourceRead d k s =
     (let e = tp_conn s (srcOf d) in
      if d = Up \<and> tp_replay s \<noteq> [] then Some (Got (take bufSize (tp_replay s)), s\<lparr>tp_replay := drop bufSize (tp_replay s)\<rparr>)
      else if ep_closed e \<or> ep_deadline e \<le> tp_now s then Some (ReadFailed, s)
      else if ep_in e \<noteq> [] then
        let n = min (Suc k) bufSize in
        Some (Got (take n (ep_in e)), upd (srcOf d) (\<lambda>e. e\<lparr>ep_in := drop n (ep_in e)\<rparr>) s)
      else if ep_eof e then Some (Eof, s)
      else None)"

text \<open>\<open>idleDeadlineReader.Read\<close> inside \<open>io.CopyBuffer\<close>.\<close>

definition copyRead :: "duration \<Rightarrow> direction \<Rightarrow> nat \<Rightarrow> pipeState \<Rightarrow> pipeState option" where
  "copyRead timeout d k s =
     (case sourceRead d k s of
        None \<Rightarrow> None
      | Some (ReadFailed, s1) \<Rightarrow> Some (setCopier d (Ended False) s1)
      | Some (Eof, s1) \<Rightarrow> Some (setCopier d (Ended True) s1)
      | Some (Got chunk, s1) \<Rightarrow>
          let s2 = s1\<lparr>tp_buf := (tp_buf s1)(d := chunk @ drop (length chunk) (tp_buf s1 d))\<rparr> in
          (case refresh timeout s2 of (ok, s3) \<Rightarrow> Some (setCopier d (Writing chunk (\<not> ok)) s3)))"

definition copyWrite :: "direction \<Rightarrow> bool \<Rightarrow> nat \<Rightarrow> string \<Rightarrow> bool \<Rightarrow> pipeState \<Rightarrow> pipeState" where
  "copyWrite d ok j chunk readErr s =
     (let e = tp_conn s (dstOf d);
          good = (ok \<and> \<not> ep_closed e \<and> tp_now s < ep_deadline e);
          written = (if good then chunk else if ep_closed e then [] else take (min j (length chunk - 1)) chunk);
          s1 = upd (dstOf d) (\<lambda>e. e\<lparr>ep_out := ep_out e @ written\<rparr>) s;
          s2 = s1\<lparr>tp_count := (tp_count s1)(d := tp_count s1 d + length written)\<rparr>
      in setCopier d (if \<not> good \<or> readErr then Ended False else Reading) s2)"

text \<open>
  Leaving \<open>io.CopyBuffer\<close>: the bytes are recorded, the buffer is cleared and goes back to the pool;
  then the deferred \<open>closeConns\<close> runs, once for both.
\<close>

definition copyEnd :: "direction \<Rightarrow> bool \<Rightarrow> pipeState \<Rightarrow> pipeState" where
  "copyEnd d clean s =
     (let cleared = zeros (length (tp_buf s d)) in
      setCopier d (Closing clean) (s\<lparr>tp_calls := tp_calls s @ [RecordProxyBytesTransmitted (directionName d) (int (tp_count s d))],
        tp_buf := (tp_buf s)(d := cleared), tp_pool := tp_pool s @ [cleared]\<rparr>))"

definition closeConns :: "pipeState \<Rightarrow> pipeState" where
  "closeConns s = upd Target (\<lambda>e. e\<lparr>ep_closed := True\<rparr>) (upd Client (\<lambda>e. e\<lparr>ep_closed := True\<rparr>) s)"

definition copyClose :: "direction \<Rightarrow> bool \<Rightarrow> pipeState \<Rightarrow> pipeState" where
  "copyClose d clean s = setCopier d (Finished clean) (closeConns s)"

inductive copy_step :: "duration \<Rightarrow> pipeState \<Rightarrow> pipeState \<Rightarrow> bool" for timeout where
  cp_read: "tp_copier s d = Reading \<Longrightarrow> copyRead timeout d k s = Some t \<Longrightarrow> copy_step timeout s t"
| cp_write: "tp_copier s d = Writing chunk readErr \<Longrightarrow> copy_step timeout s (copyWrite d ok j chunk readErr s)"
| cp_end: "tp_copier s d = Ended clean \<Longrightarrow> copy_step timeout s (copyEnd d clean s)"
| cp_close: "tp_copier s d = Closing clean \<Longrightarrow> copy_step timeout s (copyClose d clean s)"

inductive pipe_step :: "duration \<Rightarrow> pipeState \<Rightarrow> pipeState \<Rightarrow> bool" for timeout where
  pi_copy: "copy_step timeout s t \<Longrightarrow> pipe_step timeout s t"
| pi_arrive: "\<not> ep_eof (tp_conn s c) \<Longrightarrow>
     pipe_step timeout s (upd c (\<lambda>e. e\<lparr>ep_in := ep_in e @ data, ep_sent := ep_sent e @ data\<rparr>) s)"
| pi_eof: "pipe_step timeout s (upd c (\<lambda>e. e\<lparr>ep_eof := True\<rparr>) s)"
| pi_time: "tp_now s \<le> now \<Longrightarrow> pipe_step timeout s (s\<lparr>tp_now := now\<rparr>)"
| pi_update: "pipe_step timeout s (upd Client (\<lambda>e. e\<lparr>ep_closed := True\<rparr>) s)"

text \<open>
  \<open>pipe\<close> starts with both connections as \<open>handleConnection\<close> leaves them: the header is written to the
  target, the peeked bytes are replayed, the rest is unread.  \<open>None\<close>: the first \<open>refresh\<close> failed, the
  connections are closed and no goroutine starts.
\<close>

definition freshPipe :: "time \<Rightarrow> string \<Rightarrow> string \<Rightarrow> string \<Rightarrow> bool \<Rightarrow> pipeState" where
  "freshPipe now header peeked unread clientClosed = \<lparr>
     tp_conn = (\<lambda>c. case c of
        Client \<Rightarrow> \<lparr>ep_in = unread, ep_eof = False, ep_deadline = now, ep_closed = clientClosed, ep_out = [], ep_sent = peeked @ unread\<rparr>
      | Target \<Rightarrow> \<lparr>ep_in = [], ep_eof = False, ep_deadline = now, ep_closed = False, ep_out = header, ep_sent = []\<rparr>),
     tp_replay = peeked, tp_copier = (\<lambda>_. Reading), tp_count = (\<lambda>_. 0), tp_buf = (\<lambda>_. zeros bufSize),
     tp_pool = [], tp_calls = [], tp_now = now, tp_last = now\<rparr>"

definition pipe :: "duration \<Rightarrow> pipeState \<Rightarrow> pipeState option \<times> pipeState" where
  "pipe timeout s =
     (case refresh timeout s of
        (False, s1) \<Rightarrow> (None, closeConns s1)
      | (True, s1) \<Rightarrow> (Some s1, s1))"

text \<open>What is on its way in a direction: still to be read, and read but not known to be written.\<close>

definition unreadOf :: "direction \<Rightarrow> pipeState \<Rightarrow> string" where
  "unreadOf d s = (if d = Up then tp_replay s else []) @ ep_in (tp_conn s (srcOf d))"

fun copierOk :: "copier \<Rightarrow> string \<Rightarrow> bool \<Rightarrow> bool" where
  "copierOk Reading lost drained \<longleftrightarrow> lost = []"
| "copierOk (Writing chunk _) lost drained \<longleftrightarrow> lost = chunk \<and> chunk \<noteq> []"
| "copierOk (Ended clean) lost drained \<longleftrightarrow> (clean \<longrightarrow> lost = [] \<and> drained)"
| "copierOk (Closing clean) lost drained \<longleftrightarrow> (clean \<longrightarrow> lost = [] \<and> drained)"
| "copierOk (Finished clean) lost drained \<longleftrightarrow> (clean \<longrightarrow> lost = [] \<and> drained)"

definition drained :: "direction \<Rightarrow> pipeState \<Rightarrow> bool" where
  "drained d s \<longleftrightarrow> unreadOf d s = [] \<and> ep_eof (tp_conn s (srcOf d))"

definition headerOf :: "string \<Rightarrow> direction \<Rightarrow> string" where
  "headerOf header d = (if d = Up then header else [])"

definition flowOk :: "string \<Rightarrow> direction \<Rightarrow> pipeState \<Rightarrow> bool" where
  "flowOk header d s \<longleftrightarrow>
     (\<exists>done lost. ep_out (tp_conn s (dstOf d)) = headerOf header d @ done \<and>
        ep_sent (tp_conn s (srcOf d)) = done @ lost @ unreadOf d s \<and> tp_count s d = length done \<and>
        copierOk (tp_copier s d) lost (drained d s))"

definition pipe_inv :: "duration \<Rightarrow> string \<Rightarrow> pipeState \<Rightarrow> bool" where
  "pipe_inv timeout header s \<longleftrightarrow> (\<forall>d. flowOk header d s) \<and>
     (ep_closed (tp_conn s Target) \<longrightarrow> ep_closed (tp_conn s Client)) \<and>
     (\<forall>c. ep_deadline (tp_conn s c) = tp_last s + timeout) \<and> tp_last s \<le> tp_now s \<and>
     (\<forall>d. length (tp_buf s d) = bufSize) \<and> set (tp_pool s) \<subseteq> {zeros bufSize}"

definition hasEnded :: "copier \<Rightarrow> bool" where
  "hasEnded p \<longleftrightarrow> (case p of Closing _ \<Rightarrow> True | Finished _ \<Rightarrow> True | _ \<Rightarrow> False)"

definition isFinished :: "copier \<Rightarrow> bool" where
  "isFinished p \<longleftrightarrow> (case p of Finished _ \<Rightarrow> True | _ \<Rightarrow> False)"

definition end_inv :: "pipeState \<Rightarrow> bool" where
  "end_inv s \<longleftrightarrow>
     (\<forall>d. hasEnded (tp_copier s d) \<longrightarrow> RecordProxyBytesTransmitted (directionName d) (int (tp_count s d)) \<in> set (tp_calls s)) \<and>
     (\<forall>d. isFinished (tp_copier s d) \<longrightarrow> ep_closed (tp_conn s Client) \<and> ep_closed (tp_conn s Target))"

fun copierRank :: "copier \<Rightarrow> nat" where
  "copierRank Reading = 4"
| "copierRank (Writing _ _) = 3"
| "copierRank (Ended _) = 2"
| "copierRank (Closing _) = 1"
| "copierRank (Finished _) = 0"

definition pipeRank :: "pipeState \<Rightarrow> nat" where
  "pipeRank s = copierRank (tp_copier s Up) + copierRank (tp_copier s Down)"

text \<open>What \<open>pipe\<close>'s operations on the connections leave alone.\<close>

definition pipe_frame :: "pipeState \<Rightarrow> pipeState \<Rightarrow> bool" where
  "pipe_frame s t \<longleftrightarrow> tp_calls t = tp_calls s \<and> tp_count t = tp_count s \<and> tp_copier t = tp_copier s \<and>
     (\<forall>c. ep_closed (tp_conn t c) = ep_closed (tp_conn s c) \<and> ep_sent (tp_conn t c) = ep_sent (tp_conn s c))"

text \<open>The view of \<open>extractSNI\<close> that \<open>handleConnection\<close> takes.\<close>

definition sniOf :: "tlsServer \<Rightarrow> string \<Rightarrow> string option" where
  "sniOf tls stream = (case extractSNI tls stream of Inl _ \<Rightarrow> None | Inr (name, _, _) \<Rightarrow> Some name)"

text \<open>A TLS library that finds the name \<open>h\<close> after three bytes, and the tunnel it leads to.\<close>

definition demoTLS :: tlsServer where
  "demoTLS stream = (3, Some ''h'')"

definition demoPipe :: pipeState where
  "demoPipe = freshPipe 0 ''H'' ''abc'' ''d'' False"

definition demoRun :: pipeState where
  "demoRun = demoPipe\<lparr>tp_conn := (\<lambda>c. (tp_conn demoPipe c)\<lparr>ep_deadline := 10\<rparr>)\<rparr>"

subsection \<open>The invariant\<close>

lemmas pipe_defs = upd_def setCopier_def

lemma bufSize_pos [simp]: "0 < bufSize"
  by (simp add: bufSize_def)

lemma dir_neq [simp]: "srcOf d \<noteq> dstOf d" "dstOf d \<noteq> srcOf d" "(srcOf d = srcOf d') = (d = d')" "(dstOf d = dstOf d') = (d = d')"
    "(srcOf d = dstOf d') = (d \<noteq> d')" "(dstOf d = srcOf d') = (d \<noteq> d')"
  by (cases d; cases d'; simp)+

lemma dir_other: "d' \<noteq> d \<Longrightarrow> srcOf d' = dstOf d" "d' \<noteq> d \<Longrightarrow> dstOf d' = srcOf d"
  by (cases d; cases d'; simp)+

lemma refresh_cases:
  assumes "ep_closed (tp_conn s Target) \<longrightarrow> ep_closed (tp_conn s Client)"
  shows "refresh timeout s =
    (if ep_closed (tp_conn s Client) then (False, s)
     else (True, s\<lparr>tp_conn := (\<lambda>c. (tp_conn s c)\<lparr>ep_deadline := tp_now s + timeout\<rparr>), tp_last := tp_now s\<rparr>))"
proof -
  have "(tp_conn s)(Client := (tp_conn s Client)\<lparr>ep_deadline := x\<rparr>, Target := (tp_conn s Target)\<lparr>ep_deadline := x\<rparr>)
      = (\<lambda>c. (tp_conn s c)\<lparr>ep_deadline := x\<rparr>)" for x
    by (rule ext) (metis (full_types) fun_upd_apply side.exhaust)
  then show ?thesis using assms by (auto simp: refresh_def SetDeadline_def upd_def Let_def)
qed

text \<open>A change that keeps what a direction depends on keeps its flow.\<close>

lemma copierOk_mono: "copierOk p lost a \<Longrightarrow> (a \<Longrightarrow> b) \<Longrightarrow> copierOk p lost b"
  by (cases p) auto

lemma flowOkI:
  assumes "ep_out (tp_conn s (dstOf d)) = headerOf header d @ out" "ep_sent (tp_conn s (srcOf d)) = out @ lost @ unreadOf d s"
    and "tp_count s d = length out" "copierOk (tp_copier s d) lost (drained d s)"
  shows "flowOk header d s"
  using assms unfolding flowOk_def by blast

lemma flowOk_cong:
  assumes "flowOk header d s" "tp_copier t d = tp_copier s d" "tp_count t d = tp_count s d"
    and "ep_out (tp_conn t (dstOf d)) = ep_out (tp_conn s (dstOf d))" "ep_sent (tp_conn t (srcOf d)) = ep_sent (tp_conn s (srcOf d))"
    and "unreadOf d t = unreadOf d s" "ep_eof (tp_conn s (srcOf d)) \<Longrightarrow> ep_eof (tp_conn t (srcOf d))"
  shows "flowOk header d t"
proof -
  obtain out lost where f: "ep_out (tp_conn s (dstOf d)) = headerOf header d @ out" "ep_sent (tp_conn s (srcOf d)) = out @ lost @ unreadOf d s"
      "tp_count s d = length out" "copierOk (tp_copier s d) lost (drained d s)"
    using assms(1) unfolding flowOk_def by blast
  have "drained d s \<Longrightarrow> drained d t" using assms(6,7) by (simp add: drained_def)
  then show ?thesis using f assms(2-6) copierOk_mono [OF f(4)] by (intro flowOkI [of t d header out lost]) simp_all
qed

lemma unreadOf_simps: "unreadOf Up s = tp_replay s @ ep_in (tp_conn s Client)" "unreadOf Down s = ep_in (tp_conn s Target)"
  by (simp_all add: unreadOf_def)

text \<open>The pieces of the invariant that do not depend on the flow.\<close>

lemma pipe_invI:
  assumes "\<And>d. flowOk header d s" "ep_closed (tp_conn s Target) \<Longrightarrow> ep_closed (tp_conn s Client)"
    and "\<And>c. ep_deadline (tp_conn s c) = tp_last s + timeout" "tp_last s \<le> tp_now s"
    and "\<And>d. length (tp_buf s d) = bufSize" "set (tp_pool s) \<subseteq> {zeros bufSize}"
  shows "pipe_inv timeout header s"
  using assms unfolding pipe_inv_def by blast

lemma pipe_invD:
  assumes "pipe_inv timeout header s"
  shows "flowOk header d s" "ep_closed (tp_conn s Target) \<longrightarrow> ep_closed (tp_conn s Client)"
    "ep_deadline (tp_conn s c) = tp_last s + timeout" "tp_last s \<le> tp_now s" "length (tp_buf s d) = bufSize" "set (tp_pool s) \<subseteq> {zeros bufSize}"
  using assms unfolding pipe_inv_def by blast+

text \<open>Reading: the chunk moves from the unread bytes to the ones in flight.\<close>

lemma sourceRead_Got:
  assumes "sourceRead d k s = Some (Got chunk, s1)"
  shows "chunk \<noteq> [] \<and> unreadOf d s = chunk @ unreadOf d s1 \<and> length chunk \<le> bufSize \<and>
     (\<forall>d'. d' \<noteq> d \<longrightarrow> unreadOf d' s1 = unreadOf d' s) \<and>
     s1 = s\<lparr>tp_conn := tp_conn s1, tp_replay := tp_replay s1\<rparr> \<and>
     (\<forall>c. \<exists>i. tp_conn s1 c = (tp_conn s c)\<lparr>ep_in := i\<rparr>)"
proof (cases "d = Up \<and> tp_replay s \<noteq> []")
  case True
  then have "chunk = take bufSize (tp_replay s)" "s1 = s\<lparr>tp_replay := drop bufSize (tp_replay s)\<rparr>"
    using assms by (simp_all add: sourceRead_def Let_def)
  moreover have "\<exists>i. tp_conn s c = (tp_conn s c)\<lparr>ep_in := i\<rparr>" for c by (rule exI [of _ "ep_in (tp_conn s c)"]) simp
  ultimately show ?thesis using True by (auto simp: unreadOf_def)
next
  case False
  define n where "n = min (Suc k) bufSize"
  have *: "ep_in (tp_conn s (srcOf d)) \<noteq> []" "chunk = take n (ep_in (tp_conn s (srcOf d)))"
      "s1 = upd (srcOf d) (\<lambda>e. e\<lparr>ep_in := drop n (ep_in e)\<rparr>) s"
    using assms False by (auto simp: sourceRead_def Let_def n_def split: if_splits)
  have "n > 0" "n \<le> bufSize" by (simp_all add: n_def)
  moreover have "\<exists>i. tp_conn s1 c = (tp_conn s c)\<lparr>ep_in := i\<rparr>" for c
    by (cases "c = srcOf d") (auto simp: *(3) upd_def intro: exI [of _ "ep_in (tp_conn s c)"])
  moreover have "unreadOf d' s1 = unreadOf d' s" if "d' \<noteq> d" for d'
    using that by (simp add: unreadOf_def *(3) upd_def)
  ultimately show ?thesis using * False by (auto simp: unreadOf_def upd_def)
qed

lemma sourceRead_other:
  assumes "sourceRead d k s = Some (r, s1)" "\<And>chunk. r \<noteq> Got chunk"
  shows "s1 = s \<and> (r = Eof \<longrightarrow> drained d s)"
  using assms by (auto simp: sourceRead_def Let_def drained_def unreadOf_def split: if_splits)

lemma copyRead_stop:
  assumes "pipe_inv timeout header s" "tp_copier s d = Reading" "clean \<longrightarrow> drained d s"
  shows "pipe_inv timeout header (setCopier d (Ended clean) s)"
proof (rule pipe_invI)
  fix d'
  show "flowOk header d' (setCopier d (Ended clean) s)"
  proof (cases "d' = d")
    case True
    obtain out where "ep_out (tp_conn s (dstOf d)) = headerOf header d @ out" "ep_sent (tp_conn s (srcOf d)) = out @ [] @ unreadOf d s" "tp_count s d = length out"
      using pipe_invD(1) [OF assms(1), of d] assms(2) unfolding flowOk_def by auto
    then show ?thesis using True assms(3)
      by (intro flowOkI [of _ d' header out "[]"]) (auto simp: setCopier_def unreadOf_def drained_def)
  next
    case False
    then show ?thesis by (intro flowOk_cong [OF pipe_invD(1) [OF assms(1)]]) (simp_all add: setCopier_def unreadOf_def)
  qed
qed (use pipe_invD [OF assms(1)] in \<open>simp_all add: setCopier_def\<close>)

lemma copyRead_inv:
  assumes "pipe_inv timeout header s" "tp_copier s d = Reading" "copyRead timeout d k s = Some t"
  shows "pipe_inv timeout header t"
proof -
  note inv = pipe_invD [OF assms(1)]
  obtain r s1 where r: "sourceRead d k s = Some (r, s1)" using assms(3) by (auto simp: copyRead_def split: option.splits)
  show ?thesis
  proof (cases "\<exists>chunk. r = Got chunk")
    case False
    then have "s1 = s" "r = Eof \<longrightarrow> drained d s" using sourceRead_other [OF r] by auto
    then show ?thesis using assms r False copyRead_stop [OF assms(1,2)] by (cases r) (auto simp: copyRead_def)
  next
    case True
    then obtain chunk where r: "sourceRead d k s = Some (Got chunk, s1)" using r by blast
    note g = sourceRead_Got [OF r]
    define s2 where "s2 = s1\<lparr>tp_buf := (tp_buf s1)(d := chunk @ drop (length chunk) (tp_buf s1 d))\<rparr>"
    have same: "tp_copier s1 = tp_copier s" "tp_count s1 = tp_count s" "tp_buf s1 = tp_buf s" "tp_pool s1 = tp_pool s" "tp_now s1 = tp_now s" "tp_last s1 = tp_last s"
      using g by (metis (no_types) pipeState.select_convs pipeState.surjective pipeState.update_convs(1,2))+
    have ep: "ep_eof (tp_conn s1 c) = ep_eof (tp_conn s c)" "ep_closed (tp_conn s1 c) = ep_closed (tp_conn s c)" "ep_deadline (tp_conn s1 c) = ep_deadline (tp_conn s c)"
      "ep_out (tp_conn s1 c) = ep_out (tp_conn s c)" "ep_sent (tp_conn s1 c) = ep_sent (tp_conn s c)" for c
      using g by (metis endpoint.select_convs endpoint.surjective endpoint.update_convs(1))+
    obtain ok s3 where f: "refresh timeout s2 = (ok, s3)" by fastforce
    have t: "t = setCopier d (Writing chunk (\<not> ok)) s3" using assms(3) r f by (simp add: copyRead_def s2_def Let_def)
    have s3: "s3 = (if ok then s2\<lparr>tp_conn := (\<lambda>c. (tp_conn s2 c)\<lparr>ep_deadline := tp_now s2 + timeout\<rparr>), tp_last := tp_now s2\<rparr> else s2)"
      using refresh_cases [of s2 timeout] inv(2) f by (auto simp: s2_def ep split: if_splits)
    have u: "unreadOf d' t = unreadOf d' s1" for d' by (simp add: t s3 s2_def unreadOf_def setCopier_def)
    show ?thesis
    proof (rule pipe_invI)
      fix d'
      show "flowOk header d' t"
      proof (cases "d' = d")
        case True
        obtain out where "ep_out (tp_conn s (dstOf d)) = headerOf header d @ out" "ep_sent (tp_conn s (srcOf d)) = out @ [] @ unreadOf d s" "tp_count s d = length out"
          using inv(1) [of d] assms(2) unfolding flowOk_def by auto
        then show ?thesis using True g u
          by (intro flowOkI [of _ d' header out chunk]) (auto simp: t s3 s2_def setCopier_def ep same)
      next
        case False
        then show ?thesis using g u by (intro flowOk_cong [OF inv(1)]) (auto simp: t s3 s2_def setCopier_def ep same)
      qed
    next
      have cl: "ep_closed (tp_conn t c) = ep_closed (tp_conn s c)" for c by (simp add: t s3 s2_def setCopier_def ep)
      show "ep_closed (tp_conn t Target) \<Longrightarrow> ep_closed (tp_conn t Client)" using inv(2) by (simp add: cl)
    qed (use inv(3-6) g in \<open>auto simp: t s3 s2_def setCopier_def ep same\<close>)
  qed
qed

lemma copyWrite_inv:
  assumes "pipe_inv timeout header s" "tp_copier s d = Writing chunk readErr"
  shows "pipe_inv timeout header (copyWrite d ok j chunk readErr s)"
proof -
  note inv = pipe_invD [OF assms(1)]
  let ?t = "copyWrite d ok j chunk readErr s"
  obtain out where f: "ep_out (tp_conn s (dstOf d)) = headerOf header d @ out" "ep_sent (tp_conn s (srcOf d)) = out @ chunk @ unreadOf d s"
      "tp_count s d = length out" and ne: "chunk \<noteq> []"
    using inv(1) [of d] assms(2) unfolding flowOk_def by auto
  obtain good written where w: "good \<longrightarrow> written = chunk" "written = take (length written) chunk"
      "?t = setCopier d (if \<not> good \<or> readErr then Ended False else Reading)
         (upd (dstOf d) (\<lambda>e. e\<lparr>ep_out := ep_out e @ written\<rparr>) s)\<lparr>tp_count := (tp_count s)(d := tp_count s d + length written)\<rparr>"
  proof -
    let ?e = "tp_conn s (dstOf d)"
    let ?good = "ok \<and> \<not> ep_closed ?e \<and> tp_now s < ep_deadline ?e"
    let ?written = "if ?good then chunk else if ep_closed ?e then [] else take (min j (length chunk - 1)) chunk"
    show thesis by (rule that [of ?good ?written]) (auto simp: copyWrite_def Let_def setCopier_def upd_def min_def)
  qed
  have u: "unreadOf d' ?t = unreadOf d' s" for d'
    unfolding w(3) by (cases d; cases d') (simp_all add: unreadOf_def setCopier_def upd_def)
  show ?thesis
  proof (rule pipe_invI)
    fix d'
    show "flowOk header d' ?t"
    proof (cases "d' = d")
      case True
      have "chunk = written @ drop (length written) chunk" using w(2) by (metis append_take_drop_id)
      then show ?thesis using True f w(1) u
        by (intro flowOkI [of _ d' header "out @ written" "drop (length written) chunk"]) (auto simp: w(3) setCopier_def upd_def)
    next
      case False
      then show ?thesis using u by (intro flowOk_cong [OF inv(1)]) (auto simp: w(3) setCopier_def upd_def dir_other [OF False])
    qed
  next
    have cl: "ep_closed (tp_conn ?t c) = ep_closed (tp_conn s c)" for c by (simp add: w(3) setCopier_def upd_def)
    show "ep_closed (tp_conn ?t Target) \<Longrightarrow> ep_closed (tp_conn ?t Client)" using inv(2) by (simp add: cl)
  qed (use inv(3-6) in \<open>auto simp: w(3) setCopier_def upd_def\<close>)
qed

text \<open>A step that changes neither the bytes nor where a goroutine stands in its loop.\<close>

lemma copier_next_inv:
  assumes "pipe_inv timeout header s" "\<And>lost b. copierOk (tp_copier s d) lost b \<Longrightarrow> copierOk p lost b"
    and "t = setCopier d p (s\<lparr>tp_conn := cs, tp_calls := calls, tp_buf := bufs, tp_pool := pool\<rparr>)"
    and "\<And>c. cs c = (tp_conn s c)\<lparr>ep_closed := ep_closed (cs c)\<rparr>" "ep_closed (cs Target) \<Longrightarrow> ep_closed (cs Client)"
    and "\<And>d. length (bufs d) = bufSize" "set pool \<subseteq> {zeros bufSize}"
  shows "pipe_inv timeout header t"
proof (rule pipe_invI)
  have ep: "ep_eof (cs c) = ep_eof (tp_conn s c)" "ep_in (cs c) = ep_in (tp_conn s c)" "ep_deadline (cs c) = ep_deadline (tp_conn s c)"
    "ep_out (cs c) = ep_out (tp_conn s c)" "ep_sent (cs c) = ep_sent (tp_conn s c)" for c
    using assms(4) [of c] by (metis endpoint.select_convs endpoint.surjective endpoint.update_convs(4))+
  fix d'
  obtain out lost where f: "ep_out (tp_conn s (dstOf d')) = headerOf header d' @ out" "ep_sent (tp_conn s (srcOf d')) = out @ lost @ unreadOf d' s"
      "tp_count s d' = length out" "copierOk (tp_copier s d') lost (drained d' s)"
    using pipe_invD(1) [OF assms(1), of d'] unfolding flowOk_def by blast
  have "unreadOf d' t = unreadOf d' s" "drained d' t = drained d' s" by (simp_all add: assms(3) drained_def unreadOf_def setCopier_def ep)
  then show "flowOk header d' t" using f assms(2)
    by (intro flowOkI [of _ d' header out lost]) (auto simp: assms(3) setCopier_def ep)
  show "ep_deadline (tp_conn t c) = tp_last t + timeout" for c using pipe_invD(3) [OF assms(1), of c] by (simp add: assms(3) setCopier_def ep)
qed (use pipe_invD(4) [OF assms(1)] assms(5-7) in \<open>auto simp: assms(3) setCopier_def\<close>)

lemma copyEnd_inv:
  assumes "pipe_inv timeout header s" "tp_copier s d = Ended clean"
  shows "pipe_inv timeout header (copyEnd d clean s)"
proof (rule copier_next_inv [OF assms(1)])
  show "copyEnd d clean s = setCopier d (Closing clean) (s\<lparr>tp_conn := tp_conn s,
      tp_calls := tp_calls s @ [RecordProxyBytesTransmitted (directionName d) (int (tp_count s d))],
      tp_buf := (tp_buf s)(d := zeros (length (tp_buf s d))), tp_pool := tp_pool s @ [zeros (length (tp_buf s d))]\<rparr>)"
    by (simp add: copyEnd_def Let_def)
qed (use pipe_invD [OF assms(1)] assms(2) in \<open>auto simp: zeros_def\<close>)

lemma copyClose_inv:
  assumes "pipe_inv timeout header s" "tp_copier s d = Closing clean"
  shows "pipe_inv timeout header (copyClose d clean s)"
proof (rule copier_next_inv [OF assms(1)])
  show "copyClose d clean s = setCopier d (Finished clean) (s\<lparr>tp_conn := tp_conn (closeConns s),
      tp_calls := tp_calls s, tp_buf := tp_buf s, tp_pool := tp_pool s\<rparr>)"
    by (simp add: copyClose_def closeConns_def upd_def)
qed (use pipe_invD [OF assms(1)] assms(2) in \<open>auto simp: closeConns_def upd_def\<close>)

lemma copy_step_inv: "copy_step timeout s t \<Longrightarrow> pipe_inv timeout header s \<Longrightarrow> pipe_inv timeout header t"
  by (induction rule: copy_step.induct) (blast intro: copyRead_inv copyWrite_inv copyEnd_inv copyClose_inv)+

lemma pipe_step_inv: "pipe_step timeout s t \<Longrightarrow> pipe_inv timeout header s \<Longrightarrow> pipe_inv timeout header t"
proof (induction rule: pipe_step.induct)
  case (pi_copy s t)
  then show ?case by (rule copy_step_inv)
next
  case (pi_arrive s c data)
  note inv = pipe_invD [OF pi_arrive(2)]
  let ?t = "upd c (\<lambda>e. e\<lparr>ep_in := ep_in e @ data, ep_sent := ep_sent e @ data\<rparr>) s"
  show ?case
  proof (rule pipe_invI)
    fix d
    obtain out lost where f: "ep_out (tp_conn s (dstOf d)) = headerOf header d @ out" "ep_sent (tp_conn s (srcOf d)) = out @ lost @ unreadOf d s"
        "tp_count s d = length out" "copierOk (tp_copier s d) lost (drained d s)"
      using inv(1) [of d] unfolding flowOk_def by blast
    have "drained d s \<Longrightarrow> drained d ?t" using pi_arrive(1) by (auto simp: drained_def unreadOf_def upd_def)
    then have c: "copierOk (tp_copier ?t d) lost (drained d ?t)" using copierOk_mono [OF f(4)] by (simp add: upd_def)
    let ?new = "if c = srcOf d then data else []"
    have "ep_out (tp_conn ?t (dstOf d)) = headerOf header d @ out" "tp_count ?t d = length out"
        "ep_sent (tp_conn ?t (srcOf d)) = ep_sent (tp_conn s (srcOf d)) @ ?new" "unreadOf d ?t = unreadOf d s @ ?new"
      using f(1,3) by (auto simp: upd_def unreadOf_def)
    with c show "flowOk header d ?t" using f(2) by (intro flowOkI [of _ d header out lost]) simp_all
  qed (use inv(2-6) in \<open>auto simp: upd_def split: if_splits\<close>)
next
  case (pi_eof s c)
  note inv = pipe_invD [OF pi_eof]
  show ?case
  proof (rule pipe_invI)
    show "flowOk header d (upd c (\<lambda>e. e\<lparr>ep_eof := True\<rparr>) s)" for d
      by (rule flowOk_cong [OF inv(1)]) (auto simp: upd_def unreadOf_def)
  qed (use inv(2-6) in \<open>auto simp: upd_def split: if_splits\<close>)
next
  case (pi_time s now)
  note inv = pipe_invD [OF pi_time(2)]
  show ?case
  proof (rule pipe_invI)
    show "flowOk header d (s\<lparr>tp_now := now\<rparr>)" for d
      by (rule flowOk_cong [OF inv(1)]) (auto simp: unreadOf_def)
  qed (use inv(2-6) pi_time(1) in auto)
next
  case (pi_update s)
  note inv = pipe_invD [OF pi_update]
  show ?case
  proof (rule pipe_invI)
    show "flowOk header d (upd Client (\<lambda>e. e\<lparr>ep_closed := True\<rparr>) s)" for d
      by (rule flowOk_cong [OF inv(1)]) (auto simp: upd_def unreadOf_def)
  qed (use inv(3-6) in \<open>auto simp: upd_def\<close>)
qed

interpretation pipe_sys: step_system "pipe_step timeout" "pipe_inv timeout header" for timeout header
  by unfold_locales (rule pipe_step_inv)

lemma pipe_start:
  assumes "pipe timeout (freshPipe now header peeked unread cc) = (Some s, s')" "0 \<le> timeout"
  shows "pipe_inv timeout header s"
proof -
  let ?f = "freshPipe now header peeked unread cc"
  have "ep_closed (tp_conn ?f Target) \<longrightarrow> ep_closed (tp_conn ?f Client)" by (simp add: freshPipe_def)
  from refresh_cases [OF this, of timeout] have s: "s = ?f\<lparr>tp_conn := (\<lambda>c. (tp_conn ?f c)\<lparr>ep_deadline := tp_now ?f + timeout\<rparr>), tp_last := tp_now ?f\<rparr>"
      "\<not> ep_closed (tp_conn ?f Client)"
    using assms(1) by (auto simp: pipe_def split: if_splits)
  show ?thesis
  proof (rule pipe_invI)
    show "flowOk header d s" for d
      by (rule flowOkI [of _ d header "[]" "[]"]) (cases d; simp add: s freshPipe_def unreadOf_def headerOf_def)+
  qed (use s(2) in \<open>auto simp: s(1) freshPipe_def zeros_def split: side.splits\<close>)
qed

subsection \<open>How a tunnel ends\<close>

lemma pipe_frame_trans: "pipe_frame s t \<Longrightarrow> pipe_frame t u \<Longrightarrow> pipe_frame s u"
  by (simp add: pipe_frame_def)

lemma sourceRead_frame: "sourceRead d k s = Some (r, t) \<Longrightarrow> pipe_frame s t"
  by (auto simp: sourceRead_def upd_def pipe_frame_def Let_def split: if_splits)

lemma SetDeadline_frame: "pipe_frame s (snd (SetDeadline x c s))"
  by (simp add: SetDeadline_def upd_def pipe_frame_def)

lemma refresh_frame: "pipe_frame s (snd (refresh timeout s))"
proof -
  obtain ok1 s1 where 1: "SetDeadline (tp_now s + timeout) Client s = (ok1, s1)" by fastforce
  obtain ok2 s2 where 2: "SetDeadline (tp_now s + timeout) Target s1 = (ok2, s2)" by fastforce
  have "pipe_frame s s1" "pipe_frame s1 s2" using SetDeadline_frame 1 2 by (metis snd_conv)+
  then have "pipe_frame s s1" "pipe_frame s s2" by (auto intro: pipe_frame_trans)
  then show ?thesis by (cases ok1; cases ok2) (simp_all add: refresh_def 1 2 Let_def, simp add: pipe_frame_def)
qed

lemma copyRead_to:
  assumes "copyRead timeout d k s = Some t"
  shows "\<exists>s1 p. pipe_frame s s1 \<and> t = setCopier d p s1 \<and> \<not> hasEnded p \<and> copierRank p \<in> {2, 3}"
proof -
  obtain r s1 where r: "sourceRead d k s = Some (r, s1)" using assms by (auto simp: copyRead_def split: option.splits)
  note f = sourceRead_frame [OF r]
  show ?thesis
  proof (cases r)
    case (Got chunk)
    define s2 where "s2 = s1\<lparr>tp_buf := (tp_buf s1)(d := chunk @ drop (length chunk) (tp_buf s1 d))\<rparr>"
    have "pipe_frame s s2" using f by (simp add: pipe_frame_def s2_def)
    moreover have "t = setCopier d (Writing chunk (\<not> fst (refresh timeout s2))) (snd (refresh timeout s2))"
      using assms r Got by (simp add: copyRead_def s2_def Let_def case_prod_beta)
    ultimately show ?thesis using refresh_frame [of s2 timeout] pipe_frame_trans
      by (intro exI [of _ "snd (refresh timeout s2)"] exI [of _ "Writing chunk (\<not> fst (refresh timeout s2))"]) (auto simp: hasEnded_def)
  next
    case Eof
    then show ?thesis using assms r f by (intro exI [of _ s1] exI [of _ "Ended True"]) (simp add: copyRead_def hasEnded_def)
  next
    case ReadFailed
    then show ?thesis using assms r f by (intro exI [of _ s1] exI [of _ "Ended False"]) (simp add: copyRead_def hasEnded_def)
  qed
qed

lemma copyRead_frame:
  assumes "copyRead timeout d k s = Some t"
  shows "tp_calls t = tp_calls s" "tp_count t = tp_count s" "d' \<noteq> d \<Longrightarrow> tp_copier t d' = tp_copier s d'" "\<not> hasEnded (tp_copier t d)"
    "ep_closed (tp_conn t c) = ep_closed (tp_conn s c)" "ep_sent (tp_conn t c) = ep_sent (tp_conn s c)" "copierRank (tp_copier t d) < 4"
    "tp_copier t = (tp_copier s)(d := tp_copier t d)"
proof -
  obtain s1 p where t: "t = setCopier d p s1" and p: "\<not> hasEnded p" "copierRank p \<in> {2, 3}" and f: "pipe_frame s s1"
    using copyRead_to [OF assms] by blast
  have c: "tp_copier t = (tp_copier s)(d := p)" using f by (simp add: t setCopier_def pipe_frame_def)
  show "tp_calls t = tp_calls s" "tp_count t = tp_count s" "ep_closed (tp_conn t c) = ep_closed (tp_conn s c)" "ep_sent (tp_conn t c) = ep_sent (tp_conn s c)"
    using f by (simp_all add: t setCopier_def pipe_frame_def)
  show "d' \<noteq> d \<Longrightarrow> tp_copier t d' = tp_copier s d'" "\<not> hasEnded (tp_copier t d)" "tp_copier t = (tp_copier s)(d := tp_copier t d)"
    using p(1) by (simp_all add: c)
  show "copierRank (tp_copier t d) < 4" using p(2) by (auto simp: c)
qed

lemma copy_step_end_inv: "copy_step timeout s t \<Longrightarrow> end_inv s \<Longrightarrow> end_inv t"
proof (induction rule: copy_step.induct)
  case (cp_read s d k t)
  note f = copyRead_frame [OF cp_read(2)]
  have n: "\<not> isFinished (tp_copier t d)" using f(4) by (auto simp: hasEnded_def isFinished_def split: copier.splits)
  have "d' \<noteq> d" "tp_copier t d' = tp_copier s d'" if "hasEnded (tp_copier t d') \<or> isFinished (tp_copier t d')" for d'
    using that f(3) [of d'] f(4) n by auto
  then show ?case using cp_read(3) unfolding end_inv_def f(1,2,5) by (metis (full_types))
next
  case (cp_write s d chunk readErr ok j)
  then show ?case unfolding end_inv_def
    by (auto simp: copyWrite_def setCopier_def upd_def hasEnded_def isFinished_def Let_def)
next
  case (cp_end s d clean)
  then show ?case unfolding end_inv_def by (auto simp: copyEnd_def setCopier_def hasEnded_def isFinished_def Let_def)
next
  case (cp_close s d clean)
  then have "RecordProxyBytesTransmitted (directionName d) (int (tp_count s d)) \<in> set (tp_calls s)" by (auto simp: end_inv_def hasEnded_def)
  then show ?case using cp_close(2) unfolding end_inv_def
    by (auto simp: copyClose_def closeConns_def upd_def setCopier_def hasEnded_def isFinished_def)
qed

lemma pipe_step_end_inv: "pipe_step timeout s t \<Longrightarrow> end_inv s \<Longrightarrow> end_inv t"
proof (induction rule: pipe_step.induct)
  case (pi_copy s t)
  then show ?case by (rule copy_step_end_inv)
qed (auto simp: end_inv_def upd_def)

interpretation pipe_end: step_system "pipe_step timeout" end_inv for timeout
  by unfold_locales (rule pipe_step_end_inv)

lemma pipe_start_end:
  assumes "pipe timeout (freshPipe now header peeked unread cc) = (Some s, s')"
  shows "end_inv s" "tp_copier s d = Reading" "ep_sent (tp_conn s Client) = peeked @ unread"
  using assms
  by (auto simp: pipe_def refresh_def SetDeadline_def freshPipe_def end_inv_def upd_def hasEnded_def isFinished_def Let_def split: if_splits)

lemma copy_step_sent: "copy_step timeout s t \<Longrightarrow> ep_sent (tp_conn t c) = ep_sent (tp_conn s c)"
  by (induction rule: copy_step.induct)
    (auto simp: copyRead_frame copyWrite_def copyEnd_def copyClose_def closeConns_def setCopier_def upd_def Let_def)

lemma pipe_step_sent: "pipe_step timeout s t \<Longrightarrow> prefix (ep_sent (tp_conn s c)) (ep_sent (tp_conn t c))"
  by (induction rule: pipe_step.induct) (auto simp: copy_step_sent upd_def)

lemma pipe_run_sent: "(pipe_step timeout)\<^sup>*\<^sup>* s t \<Longrightarrow> prefix (ep_sent (tp_conn s c)) (ep_sent (tp_conn t c))"
  by (induction rule: rtranclp_induct) (auto dest: pipe_step_sent intro: prefix_order.trans)

text \<open>With both connections closed every action brings a goroutine closer to its end, and none blocks.\<close>

lemma closed_step:
  assumes "copy_step timeout s t" "ep_closed (tp_conn s Client)" "ep_closed (tp_conn s Target)"
  shows "pipeRank t < pipeRank s" "ep_closed (tp_conn t c)"
proof -
  have cl: "ep_closed (tp_conn s c)" for c using assms(2,3) by (cases c) auto
  show "ep_closed (tp_conn t c)" using assms(1) cl
    by (induction rule: copy_step.induct)
      (auto simp: copyRead_frame copyWrite_def copyEnd_def copyClose_def closeConns_def setCopier_def upd_def Let_def)
  have "\<exists>d p. tp_copier t = (tp_copier s)(d := p) \<and> copierRank p < copierRank (tp_copier s d)"
    using assms(1) cl
  proof (induction rule: copy_step.induct)
    case (cp_read s d k t)
    then show ?case using copyRead_frame(7,8) [OF cp_read(2)] by (intro exI [of _ d] exI [of _ "tp_copier t d"]) simp
  next
    case (cp_write s d chunk readErr ok j)
    then show ?case by (intro exI [of _ d] exI [of _ "Ended False"]) (simp add: copyWrite_def setCopier_def upd_def Let_def)
  next
    case (cp_end s d clean)
    then show ?case by (intro exI [of _ d] exI [of _ "Closing clean"]) (simp add: copyEnd_def setCopier_def Let_def)
  next
    case (cp_close s d clean)
    then show ?case by (intro exI [of _ d] exI [of _ "Finished clean"]) (simp add: copyClose_def closeConns_def setCopier_def upd_def)
  qed
  then obtain d p where "tp_copier t = (tp_copier s)(d := p)" "copierRank p < copierRank (tp_copier s d)" by blast
  then show "pipeRank t < pipeRank s" by (cases d) (simp_all add: pipeRank_def)
qed

lemma closed_progress:
  assumes "ep_closed (tp_conn s Client)" "ep_closed (tp_conn s Target)" "\<not> isFinished (tp_copier s d)"
  shows "\<exists>t. copy_step timeout s t"
proof (cases "tp_copier s d")
  case Reading
  have "ep_closed (tp_conn s (srcOf d))" using assms(1,2) by (cases d) auto
  then have "\<exists>r s1. sourceRead d 0 s = Some (r, s1)" by (auto simp: sourceRead_def Let_def)
  then have "\<exists>t. copyRead timeout d 0 s = Some t" by (auto simp: copyRead_def split: readResult.splits prod.splits)
  then show ?thesis using Reading cp_read by blast
qed (use assms(3) in \<open>auto simp: isFinished_def intro: copy_step.intros\<close>)

lemma closed_run:
  assumes "(copy_step timeout ^^ n) s t" "ep_closed (tp_conn s Client)" "ep_closed (tp_conn s Target)"
  shows "n + pipeRank t \<le> pipeRank s \<and> ep_closed (tp_conn t Client) \<and> ep_closed (tp_conn t Target)"
  using assms
proof (induction n arbitrary: t)
  case (Suc n)
  then obtain u where u: "(copy_step timeout ^^ n) s u" "copy_step timeout u t" by auto
  with Suc show ?case using closed_step [OF u(2)] by fastforce
qed auto

lemma flow_prefix:
  assumes "flowOk header d s"
  shows "prefix (ep_out (tp_conn s (dstOf d))) (headerOf header d @ ep_sent (tp_conn s (srcOf d)))"
    and "tp_copier s d = Finished True \<Longrightarrow> ep_out (tp_conn s (dstOf d)) = headerOf header d @ ep_sent (tp_conn s (srcOf d))"
    and "int (tp_count s d) = int (length (ep_out (tp_conn s (dstOf d)))) - int (length (headerOf header d))"
  using assms unfolding flowOk_def by (auto simp: drained_def)

lemma handleConnection_hello:
  assumes "handleConnection C env conn p = (Some tn, q)"
  shows "ce_hello env (tn_stream tn) = Some (tn_hostname tn)"
  using assms by (auto simp: handleConnection_def connectTarget_def Let_def split: prod.splits option.splits if_splits sum.splits)

lemma extractSNI_stream: "extractSNI tls stream = Inr (name, peeked, unread) \<Longrightarrow> peeked @ unread = stream"
  by (auto simp: extractSNI_def peekClientHello_def readClientHello_def split: prod.splits sum.splits option.splits if_splits)

text \<open>
  C9: a tunnel is transparent.  From the connection's first byte on and in every interleaving of the
  two goroutines, arriving data, time and updates: the target receives the PROXY header and then a
  prefix of what the client sent, beginning with the ClientHello the proxy looked at; the client
  receives a prefix of what the target sent; a goroutine that ended with the end of its source has
  delivered all of it; and the buffers returned to the shared pool hold only zeros.
\<close>

theorem tunnel_transparent:
  assumes "handleConnection C env conn p = (Some tn, q)" "ce_hello env = sniOf tls"
    and "extractSNI tls (tn_stream tn) = Inr (name, peeked, unread)" "0 \<le> timeout"
    and "pipe timeout (freshPipe now (tn_header tn) peeked unread cc) = (Some s0, s1)" "(pipe_step timeout)\<^sup>*\<^sup>* s0 s"
  shows "name = tn_hostname tn \<and> prefix (tn_stream tn) (ep_sent (tp_conn s Client)) \<and>
      prefix (ep_out (tp_conn s Target)) (tn_header tn @ ep_sent (tp_conn s Client)) \<and>
      prefix (ep_out (tp_conn s Client)) (ep_sent (tp_conn s Target)) \<and>
      (tp_copier s Up = Finished True \<longrightarrow> ep_out (tp_conn s Target) = tn_header tn @ ep_sent (tp_conn s Client)) \<and>
      (tp_copier s Down = Finished True \<longrightarrow> ep_out (tp_conn s Client) = ep_sent (tp_conn s Target)) \<and>
      set (tp_pool s) \<subseteq> {zeros bufSize}"
proof -
  have "name = tn_hostname tn" using handleConnection_hello [OF assms(1)] assms(2,3) by (simp add: sniOf_def)
  moreover have "prefix (tn_stream tn) (ep_sent (tp_conn s Client))"
    using pipe_run_sent [OF assms(6), of Client] pipe_start_end(3) [OF assms(5)] extractSNI_stream [OF assms(3)] by simp
  moreover have inv: "pipe_inv timeout (tn_header tn) s" using pipe_sys.run_inv [OF assms(6)] pipe_start [OF assms(5,4)] .
  ultimately show ?thesis using flow_prefix [OF pipe_invD(1) [OF inv], of Up] flow_prefix [OF pipe_invD(1) [OF inv], of Down] pipe_invD(6) [OF inv]
    by (simp add: headerOf_def)
qed

text \<open>
  C20: when a goroutine of a tunnel is done, both connections are closed, the bytes it delivered are
  recorded, and the other goroutine ends too: it has at most four actions left, and as long as it is
  not done it can act, whatever the peers do.
\<close>

theorem tunnel_ends:
  assumes "pipe timeout (freshPipe now header peeked unread cc) = (Some s0, s1)" "0 \<le> timeout" "(pipe_step timeout)\<^sup>*\<^sup>* s0 s"
    and "isFinished (tp_copier s d)"
  shows "(\<forall>c. ep_closed (tp_conn s c)) \<and>
      RecordProxyBytesTransmitted (directionName d)
        (int (length (ep_out (tp_conn s (dstOf d)))) - int (length (headerOf header d))) \<in> set (tp_calls s) \<and>
      (\<forall>n t. (copy_step timeout ^^ n) s t \<longrightarrow>
         n \<le> 4 \<and> ((\<forall>u. \<not> copy_step timeout t u) \<longrightarrow> (\<forall>d. isFinished (tp_copier t d))))"
proof -
  have "end_inv s" using pipe_end.run_inv [OF assms(3)] pipe_start_end(1) [OF assms(1)] .
  moreover have "hasEnded (tp_copier s d)" using assms(4) by (auto simp: isFinished_def hasEnded_def split: copier.splits)
  ultimately have c: "ep_closed (tp_conn s Client)" "ep_closed (tp_conn s Target)"
      and r: "RecordProxyBytesTransmitted (directionName d) (int (tp_count s d)) \<in> set (tp_calls s)"
    using assms(4) by (auto simp: end_inv_def)
  have inv: "pipe_inv timeout header s" using pipe_sys.run_inv [OF assms(3)] pipe_start [OF assms(1,2)] .
  have "copierRank (tp_copier s d) = 0" using assms(4) by (auto simp: isFinished_def split: copier.splits)
  moreover have "copierRank p \<le> 4" for p by (cases p) auto
  ultimately have "pipeRank s \<le> 4" by (cases d) (auto simp: pipeRank_def)
  then have "n \<le> 4 \<and> ((\<forall>u. \<not> copy_step timeout t u) \<longrightarrow> (\<forall>d. isFinished (tp_copier t d)))" if "(copy_step timeout ^^ n) s t" for n t
    using closed_run [OF that c] closed_progress [of t _ timeout] by fastforce
  moreover have "ep_closed (tp_conn s c)" for c using c by (cases c) auto
  ultimately show ?thesis using r flow_prefix(3) [OF pipe_invD(1) [OF inv], of d] by simp
qed

text \<open>
  C27: the idle timeout is exact.  A read from an open connection fails because of the deadline if and
  only if nothing was read in either direction for the timeout; a chunk read while the connections
  are open makes the present moment the last activity of the whole tunnel.
\<close>

theorem tunnel_idle_exact:
  assumes "pipe timeout (freshPipe now header peeked unread cc) = (Some s0, s1)" "0 \<le> timeout" "(pipe_step timeout)\<^sup>*\<^sup>* s0 s"
    and "\<not> ep_closed (tp_conn s (srcOf d))" "d = Up \<longrightarrow> tp_replay s = []"
  shows "((\<exists>u. sourceRead d k s = Some (ReadFailed, u)) \<longleftrightarrow> tp_last s + timeout \<le> tp_now s) \<and>
      (\<forall>chunk t. copyRead timeout d k s = Some t \<and> tp_copier t d = Writing chunk False \<longrightarrow>
         tp_last t = tp_now s \<and> (\<forall>c. ep_deadline (tp_conn t c) = tp_now s + timeout))"
proof -
  have inv: "pipe_inv timeout header s" using pipe_sys.run_inv [OF assms(3)] pipe_start [OF assms(1,2)] .
  have "(\<exists>u. sourceRead d k s = Some (ReadFailed, u)) \<longleftrightarrow> tp_last s + timeout \<le> tp_now s"
    using assms(4,5) pipe_invD(3) [OF inv, of "srcOf d"] by (auto simp: sourceRead_def Let_def)
  moreover have "tp_last t = tp_now s \<and> (\<forall>c. ep_deadline (tp_conn t c) = tp_now s + timeout)"
    if t: "copyRead timeout d k s = Some t" "tp_copier t d = Writing chunk False" for chunk t
  proof -
    obtain s1 where r: "sourceRead d k s = Some (Got chunk, s1)"
      using t by (auto simp: copyRead_def setCopier_def Let_def split: option.splits prod.splits readResult.splits)
    define s2 where "s2 = s1\<lparr>tp_buf := (tp_buf s1)(d := chunk @ drop (length chunk) (tp_buf s1 d))\<rparr>"
    obtain s3 where f: "refresh timeout s2 = (True, s3)" "t = setCopier d (Writing chunk False) s3"
      using t r by (cases "refresh timeout s2") (auto simp: copyRead_def s2_def setCopier_def Let_def)
    have "tp_now s2 = tp_now s" using r by (auto simp: s2_def sourceRead_def upd_def Let_def split: if_splits)
    moreover have "\<And>c. ep_closed (tp_conn s2 c) = ep_closed (tp_conn s c)"
      using sourceRead_frame [OF r] by (simp add: s2_def pipe_frame_def)
    ultimately show ?thesis using refresh_cases [of s2 timeout] f pipe_invD(2) [OF inv]
      by (auto simp: setCopier_def split: if_splits)
  qed
  ultimately show ?thesis by blast
qed

subsection \<open>Concrete tunnels\<close>

lemma fresh_sel:
  "ep_closed (tp_conn (freshPipe now header peeked unread False) c) = False" "tp_now (freshPipe now header peeked unread cc) = now"
  "tp_last (freshPipe now header peeked unread cc) = now"
  by (cases c) (simp_all add: freshPipe_def)

lemma fresh_pipe:
  "pipe timeout (freshPipe now header peeked unread False) =
     (let s = (freshPipe now header peeked unread False)\<lparr>tp_conn := (\<lambda>c. (tp_conn (freshPipe now header peeked unread False) c)\<lparr>ep_deadline := now + timeout\<rparr>), tp_last := now\<rparr>
      in (Some s, s))"
  using refresh_cases [of "freshPipe now header peeked unread False" timeout] by (simp add: pipe_def fresh_sel Let_def)

lemma demo_pipe: "pipe 10 (freshPipe 0 ''H'' ''abc'' ''d'' False) = (Some demoRun, demoRun)"
proof -
  have "demoPipe\<lparr>tp_conn := (\<lambda>c. (tp_conn demoPipe c)\<lparr>ep_deadline := 0 + 10\<rparr>), tp_last := 0\<rparr> = demoRun"
    by (rule pipeState.equality) (simp_all add: demoRun_def demoPipe_def fresh_sel)
  then show ?thesis unfolding fresh_pipe by (simp add: Let_def demoPipe_def)
qed

lemma demoRun_sel:
  "tp_copier demoRun d = Reading" "tp_now demoRun = 0" "tp_conn demoRun Target = \<lparr>ep_in = [], ep_eof = False, ep_deadline = 10, ep_closed = False, ep_out = ''H'', ep_sent = []\<rparr>"
  by (simp_all add: demoRun_def demoPipe_def freshPipe_def)

theorem tunnel_transparent_witness:
  "\<exists>tn s0. fst (handleConnection demoCache demoConn 1 demoProxy) = Some tn \<and> tn_hostname tn = ''h'' \<and>
     fst (pipe 10 (freshPipe 0 (tn_header tn) (take 3 (tn_stream tn)) (drop 3 (tn_stream tn)) False)) = Some s0 \<and>
     ep_sent (tp_conn s0 Client) = tn_stream tn \<and> prefix (ep_out (tp_conn s0 Target)) (tn_header tn @ tn_stream tn)"
proof -
  have hello: "ce_hello demoConn = sniOf demoTLS"
    by (simp add: fun_eq_iff demoConn_def sniOf_def extractSNI_def peekClientHello_def readClientHello_def demoTLS_def)
  obtain tn q where h: "handleConnection demoCache demoConn 1 demoProxy = (Some tn, q)"
    using demo_allowed demo_addr
    by (simp add: handleConnection_def readProxyHeader_def demoConn_def demoProxy_def snilog_def exampleConn_def getRoute_def
        demoCache_def queryAPI_def demoRouteEnv_def routeOf_def connectTarget_def dialRoute_def Itoa_443 Let_def)
  have e: "extractSNI demoTLS (tn_stream tn) = Inr (''h'', take 3 (tn_stream tn), drop 3 (tn_stream tn))"
    by (simp add: extractSNI_def peekClientHello_def readClientHello_def demoTLS_def)
  let ?f = "freshPipe 0 (tn_header tn) (take 3 (tn_stream tn)) (drop 3 (tn_stream tn)) False"
  obtain s0 where p: "pipe 10 ?f = (Some s0, s0)" unfolding fresh_pipe Let_def by blast
  have sent: "ep_sent (tp_conn s0 Client) = tn_stream tn" using pipe_start_end(3) [OF p] by simp
  from tunnel_transparent [OF h hello e _ p rtranclp.rtrancl_refl] sent
  have "tn_hostname tn = ''h''" "prefix (ep_out (tp_conn s0 Target)) (tn_header tn @ tn_stream tn)" by simp_all
  then show ?thesis using h p sent by (intro exI [of _ tn] exI [of _ s0]) simp
qed

lemma demo_read: "copyRead 10 Down 0 (upd Target (\<lambda>e. e\<lparr>ep_eof := True\<rparr>) demoRun) = Some (setCopier Down (Ended True) (upd Target (\<lambda>e. e\<lparr>ep_eof := True\<rparr>) demoRun))"
  by (simp add: copyRead_def sourceRead_def demoRun_sel upd_def)

theorem tunnel_ends_witness:
  "let s = copyClose Down True (copyEnd Down True (setCopier Down (Ended True) (upd Target (\<lambda>e. e\<lparr>ep_eof := True\<rparr>) demoRun))) in
     (pipe_step 10)\<^sup>*\<^sup>* demoRun s \<and> ep_closed (tp_conn s Client) \<and> RecordProxyBytesTransmitted ''target_to_client'' 0 \<in> set (tp_calls s)"
proof -
  let ?s1 = "upd Target (\<lambda>e. e\<lparr>ep_eof := True\<rparr>) demoRun"
  let ?s2 = "setCopier Down (Ended True) ?s1"
  let ?s3 = "copyEnd Down True ?s2"
  let ?s = "copyClose Down True ?s3"
  have "copy_step 10 ?s1 ?s2" by (rule cp_read [OF _ demo_read]) (simp add: upd_def demoRun_sel)
  moreover have "copy_step 10 ?s2 ?s3" by (rule cp_end) (simp add: setCopier_def)
  moreover have "copy_step 10 ?s3 ?s" by (rule cp_close) (simp add: copyEnd_def setCopier_def Let_def)
  ultimately have run: "(pipe_step 10)\<^sup>*\<^sup>* demoRun ?s"
    using pi_eof [of 10 demoRun Target] by (meson pi_copy rtranclp.rtrancl_into_rtrancl rtranclp.rtrancl_refl)
  have f: "isFinished (tp_copier ?s Down)" "ep_out (tp_conn ?s Client) = []"
    by (simp_all add: copyClose_def isFinished_def setCopier_def closeConns_def upd_def copyEnd_def Let_def demoRun_def demoPipe_def freshPipe_def)
  from tunnel_ends [OF demo_pipe _ run f(1)] f(2) run show ?thesis by (simp add: headerOf_def Let_def)
qed

theorem tunnel_idle_exact_witness:
  "\<exists>u. sourceRead Down 0 (demoRun\<lparr>tp_now := 10\<rparr>) = Some (ReadFailed, u)"
proof -
  have "pipe_step 10 demoRun (demoRun\<lparr>tp_now := 10\<rparr>)" by (rule pi_time) (simp add: demoRun_sel)
  then have run: "(pipe_step 10)\<^sup>*\<^sup>* demoRun (demoRun\<lparr>tp_now := 10\<rparr>)" by blast
  have "tp_last demoRun = 0" by (simp add: demoRun_def demoPipe_def freshPipe_def)
  with tunnel_idle_exact [OF demo_pipe _ run, of Down 0] show ?thesis by (simp add: demoRun_sel)
qed

end
