(* ===== verification/Router_Trie.thy ===== *)
theory Router_Trie
  imports Go_IP_RoundTrip
begin

text \<open>
  The binary trie of the \<open>/router\<close> endpoint in \<open>main.go\<close>: \<open>routerCIDRNode\<close>, \<open>routerCIDRCovered\<close>,
  \<open>markRouterCIDRCover\<close>, and one round of the loop of \<open>unrestrictedRouterNetworks\<close>.

  A nil child is \<open>None\<close>; an index out of range or a nil dereference is the result \<open>None\<close> of the
  whole function.  \<open>entries\<close> abstracts a trie to the set of paths with the indexes stored there.
  Shown: a node is covered exactly when every word of the family has a stored path as a prefix
  (\<open>covered_iff\<close>), the marks of a covered node exist and are stored indexes (\<open>mark_covered\<close>), and a
  round that changes anything blocks a network that was not blocked (\<open>coverRound_grows\<close>).
\<close>

datatype routerCIDRNode =
  CNode (child0: "routerCIDRNode option") (child1: "routerCIDRNode option") (networkIndexes: "nat list")

definition emptyNode :: routerCIDRNode where
  "emptyNode = CNode None None []"

fun routerCIDRCovered :: "routerCIDRNode option \<Rightarrow> bool" where
  "routerCIDRCovered None = False"
| "routerCIDRCovered (Some (CNode l r ns)) = (ns \<noteq> [] \<or> (routerCIDRCovered l \<and> routerCIDRCovered r))"

fun markRouterCIDRCover :: "routerCIDRNode option \<Rightarrow> nat set option" where
  "markRouterCIDRCover None = None"
| "markRouterCIDRCover (Some (CNode l r ns)) =
     (if ns \<noteq> [] then Some (set ns)
      else case markRouterCIDRCover l of None \<Rightarrow> None
        | Some a \<Rightarrow> map_option (\<lambda>b. a \<union> b) (markRouterCIDRCover r))"

fun insertNetwork :: "bool list \<Rightarrow> nat \<Rightarrow> routerCIDRNode \<Rightarrow> routerCIDRNode" where
  "insertNetwork [] index (CNode l r ns) = CNode l r (ns @ [index])"
| "insertNetwork (b # bs) index (CNode l r ns) =
     (if b then CNode l (Some (insertNetwork bs index (case r of None \<Rightarrow> emptyNode | Some n \<Rightarrow> n))) ns
      else CNode (Some (insertNetwork bs index (case l of None \<Rightarrow> emptyNode | Some n \<Rightarrow> n))) r ns)"

datatype netPath = SkipNet | IndexPanic | Path4 "bool list" | Path6 "bool list"

definition networkPath :: "IPNet \<Rightarrow> netPath" where
  "networkPath network =
     (let (ones, bits) = MaskSize (n_Mask network) in
      if bits = 32 then
        (let ip = To4 (n_IP network) in if 8 * length ip < ones then IndexPanic else Path4 (take ones (ipBits ip)))
      else if bits = 128 then
        (let ip = To16 (n_IP network) in if 8 * length ip < ones then IndexPanic else Path6 (take ones (ipBits ip)))
      else SkipNet)"

fun addNetworks :: "nat \<Rightarrow> IPNet list \<Rightarrow> nat set \<Rightarrow> routerCIDRNode \<times> routerCIDRNode
    \<Rightarrow> (routerCIDRNode \<times> routerCIDRNode) option" where
  "addNetworks index [] blocked roots = Some roots"
| "addNetworks index (network # networks) blocked (t4, t6) =
     (if index \<in> blocked then addNetworks (Suc index) networks blocked (t4, t6)
      else case networkPath network of
        SkipNet \<Rightarrow> addNetworks (Suc index) networks blocked (t4, t6)
      | IndexPanic \<Rightarrow> None
      | Path4 p \<Rightarrow> addNetworks (Suc index) networks blocked (insertNetwork p index t4, t6)
      | Path6 p \<Rightarrow> addNetworks (Suc index) networks blocked (t4, insertNetwork p index t6))"

text \<open>The marks of one round: \<open>None\<close> for a panic, \<open>Some {}\<close> when no root is covered.\<close>

definition markRoot :: "routerCIDRNode \<Rightarrow> nat set option" where
  "markRoot node = (if routerCIDRCovered (Some node) then markRouterCIDRCover (Some node) else Some {})"

definition changedRoots :: "routerCIDRNode \<times> routerCIDRNode \<Rightarrow> bool" where
  "changedRoots roots \<longleftrightarrow> routerCIDRCovered (Some (fst roots)) \<or> routerCIDRCovered (Some (snd roots))"

definition coverRound :: "IPNet list \<Rightarrow> nat set \<Rightarrow> (bool \<times> nat set) option" where
  "coverRound networks blocked =
     (case addNetworks 0 networks blocked (emptyNode, emptyNode) of
        None \<Rightarrow> None
      | Some (t4, t6) \<Rightarrow>
          (case markRoot t4 of None \<Rightarrow> None
           | Some a \<Rightarrow> (case markRoot t6 of None \<Rightarrow> None
              | Some b \<Rightarrow> Some (changedRoots (t4, t6), blocked \<union> a \<union> b))))"

subsection \<open>What a trie holds\<close>

fun entriesO :: "routerCIDRNode option \<Rightarrow> (bool list \<times> nat) set" where
  "entriesO None = {}"
| "entriesO (Some (CNode l r ns)) = Pair [] ` set ns \<union> (\<lambda>(p, i). (False # p, i)) ` entriesO l \<union> (\<lambda>(p, i). (True # p, i)) ` entriesO r"

abbreviation entries :: "routerCIDRNode \<Rightarrow> (bool list \<times> nat) set" where
  "entries t \<equiv> entriesO (Some t)"

abbreviation keysO :: "routerCIDRNode option \<Rightarrow> bool list set" where
  "keysO t \<equiv> fst ` entriesO t"

definition coversAll :: "nat \<Rightarrow> bool list set \<Rightarrow> bool" where
  "coversAll n K \<longleftrightarrow> (\<forall>w. length w = n \<longrightarrow> (\<exists>p \<in> K. prefix p w))"

definition paths4 :: "IPNet list \<Rightarrow> nat set \<Rightarrow> nat \<Rightarrow> (bool list \<times> nat) set" where
  "paths4 networks blocked k = {(p, k + i) | p i. i < length networks \<and> k + i \<notin> blocked \<and> networkPath (networks ! i) = Path4 p}"

definition paths6 :: "IPNet list \<Rightarrow> nat set \<Rightarrow> nat \<Rightarrow> (bool list \<times> nat) set" where
  "paths6 networks blocked k = {(p, k + i) | p i. i < length networks \<and> k + i \<notin> blocked \<and> networkPath (networks ! i) = Path6 p}"

lemma entries_empty [simp]: "entries emptyNode = {}"
  by (simp add: emptyNode_def)

lemma entries_insert: "entries (insertNetwork p i t) = insert (p, i) (entries t)"
proof (induction p i t rule: insertNetwork.induct)
  case (2 b bs i l r ns)
  have c: "entries (case x of None \<Rightarrow> emptyNode | Some n \<Rightarrow> n) = entriesO x" for x
    by (cases x) simp_all
  show ?case using 2 by (auto simp: c)
qed auto

lemma keysO_simps: "keysO (Some (CNode l r ns)) = (if ns = [] then {} else {[]}) \<union> Cons False ` keysO l \<union> Cons True ` keysO r"
  by (cases ns) (auto simp: image_Un image_image split_beta)

lemma keysO_child:
  "p \<in> keysO l \<Longrightarrow> False # p \<in> keysO (Some (CNode l r ns))" "p \<in> keysO r \<Longrightarrow> True # p \<in> keysO (Some (CNode l r ns))"
  unfolding keysO_simps by (intro UnI1 UnI2 imageI, assumption)+

lemma covered_nonempty: "routerCIDRCovered t \<Longrightarrow> keysO t \<noteq> {}"
  by (induction t rule: routerCIDRCovered.induct) (auto simp: keysO_simps)

lemma all_words_Suc: "(\<forall>w. length w = Suc n \<longrightarrow> Q w) \<longleftrightarrow> (\<forall>w. length w = n \<longrightarrow> Q (False # w)) \<and> (\<forall>w. length w = n \<longrightarrow> Q (True # w))"
proof (intro iffI conjI allI impI)
  fix w :: "bool list"
  assume a: "(\<forall>w. length w = n \<longrightarrow> Q (False # w)) \<and> (\<forall>w. length w = n \<longrightarrow> Q (True # w))" and "length w = Suc n"
  then obtain b v where "w = b # v" "length v = n" by (cases w) auto
  with a show "Q w" by (cases b) auto
qed auto

lemma coversAll_split: "coversAll (Suc m) (Cons False ` A \<union> Cons True ` B) \<longleftrightarrow> coversAll m A \<and> coversAll m B"
proof -
  have "(\<exists>p \<in> Cons False ` A \<union> Cons True ` B. prefix p (c # w)) \<longleftrightarrow> (\<exists>p \<in> (if c then B else A). prefix p w)" for c w
    by (simp add: bex_Un)
  then show ?thesis unfolding coversAll_def all_words_Suc by simp
qed

lemma covered_iff:
  assumes "\<And>p. p \<in> keysO t \<Longrightarrow> length p \<le> n"
  shows "routerCIDRCovered t \<longleftrightarrow> coversAll n (keysO t)"
  using assms
proof (induction t arbitrary: n rule: routerCIDRCovered.induct)
  case 1
  then show ?case by (auto simp: coversAll_def intro: exI [of _ "replicate n False"])
next
  case (2 l r ns)
  show ?case
  proof (cases "ns = []")
    case False
    then show ?thesis by (auto simp: coversAll_def keysO_simps simp del: entriesO.simps)
  next
    case ns: True
    show ?thesis
    proof (cases n)
      case 0
      have "keysO l = {}" "keysO r = {}" using 2(3) [OF keysO_child(1)] 2(3) [OF keysO_child(2)] 0 by fastforce+
      then have "keysO (Some (CNode l r ns)) = {}" unfolding keysO_simps using ns by simp
      then show ?thesis using covered_nonempty [of "Some (CNode l r ns)"] 0 by (auto simp: coversAll_def simp del: entriesO.simps)
    next
      case (Suc m)
      have l: "\<And>p. p \<in> keysO l \<Longrightarrow> length p \<le> m" and r: "\<And>p. p \<in> keysO r \<Longrightarrow> length p \<le> m"
        using 2(3) [OF keysO_child(1)] 2(3) [OF keysO_child(2)] Suc by fastforce+
      have "routerCIDRCovered l = coversAll m (keysO l)" by (rule 2(1)) (use ns l in auto)
      moreover have "routerCIDRCovered r = coversAll m (keysO r)" by (rule 2(2)) (use ns r in auto)
      ultimately show ?thesis using ns Suc coversAll_split by (simp add: keysO_simps del: entriesO.simps)
    qed
  qed
qed

lemma mark_covered: "routerCIDRCovered t \<Longrightarrow> \<exists>S. markRouterCIDRCover t = Some S \<and> S \<noteq> {} \<and> S \<subseteq> snd ` entriesO t"
proof (induction t rule: routerCIDRCovered.induct)
  case (2 l r ns)
  show ?case
  proof (cases "ns = []")
    case True
    then obtain a b where "markRouterCIDRCover l = Some a" "a \<noteq> {}" "a \<subseteq> snd ` entriesO l"
        "markRouterCIDRCover r = Some b" "b \<subseteq> snd ` entriesO r" using 2 by auto
    then show ?thesis using True by (auto simp: image_Un image_image split_beta)
  qed (auto simp: image_Un image_image)
qed simp

subsection \<open>One round\<close>

lemma paths_Cons:
  "paths4 (n # ns) blocked k = {(p, k) | p. k \<notin> blocked \<and> networkPath n = Path4 p} \<union> paths4 ns blocked (Suc k)"
  "paths6 (n # ns) blocked k = {(p, k) | p. k \<notin> blocked \<and> networkPath n = Path6 p} \<union> paths6 ns blocked (Suc k)"
proof -
  have "(a, j) \<in> paths4 (n # ns) blocked k \<longleftrightarrow> (a, j) \<in> {(p, k) | p. k \<notin> blocked \<and> networkPath n = Path4 p} \<union> paths4 ns blocked (Suc k)" for a j
    unfolding paths4_def by (auto simp: less_Suc_eq_0_disj)
  then show "paths4 (n # ns) blocked k = {(p, k) | p. k \<notin> blocked \<and> networkPath n = Path4 p} \<union> paths4 ns blocked (Suc k)" by auto
  have "(a, j) \<in> paths6 (n # ns) blocked k \<longleftrightarrow> (a, j) \<in> {(p, k) | p. k \<notin> blocked \<and> networkPath n = Path6 p} \<union> paths6 ns blocked (Suc k)" for a j
    unfolding paths6_def by (auto simp: less_Suc_eq_0_disj)
  then show "paths6 (n # ns) blocked k = {(p, k) | p. k \<notin> blocked \<and> networkPath n = Path6 p} \<union> paths6 ns blocked (Suc k)" by auto
qed

lemma addNetworks_entries:
  "addNetworks k ns blocked (t4, t6) = Some (u4, u6) \<Longrightarrow>
     entries u4 = entries t4 \<union> paths4 ns blocked k \<and> entries u6 = entries t6 \<union> paths6 ns blocked k"
proof (induction ns arbitrary: k t4 t6)
  case Nil
  then show ?case by (simp add: paths4_def paths6_def)
next
  case (Cons n ns)
  then show ?case
    by (auto simp: paths_Cons entries_insert simp del: entriesO.simps split: netPath.splits if_splits)
qed

lemma addNetworks_total:
  "(\<And>n. n \<in> set ns \<Longrightarrow> networkPath n \<noteq> IndexPanic) \<Longrightarrow> \<exists>u4 u6. addNetworks k ns blocked (t4, t6) = Some (u4, u6)"
  by (induction ns arbitrary: k t4 t6) (auto split: netPath.splits)

lemma markRoot_total: "\<exists>S. markRoot t = Some S \<and> S \<subseteq> snd ` entries t \<and> (routerCIDRCovered (Some t) \<longrightarrow> S \<noteq> {})"
  using mark_covered [of "Some t"] by (auto simp: markRoot_def simp del: entriesO.simps)

lemma coverRound_grows:
  assumes "coverRound networks blocked = Some (changed, blocked')"
  shows "blocked \<subseteq> blocked'" "blocked' - blocked \<subseteq> {..<length networks}" "changed \<Longrightarrow> blocked' - blocked \<noteq> {}"
    "\<not> changed \<Longrightarrow> blocked' = blocked"
proof -
  obtain t4 t6 where t: "addNetworks 0 networks blocked (emptyNode, emptyNode) = Some (t4, t6)"
    using assms by (auto simp: coverRound_def split: option.splits)
  obtain a where a: "markRoot t4 = Some a" "a \<subseteq> snd ` entries t4" "routerCIDRCovered (Some t4) \<longrightarrow> a \<noteq> {}"
    using markRoot_total by blast
  obtain b where b: "markRoot t6 = Some b" "b \<subseteq> snd ` entries t6" "routerCIDRCovered (Some t6) \<longrightarrow> b \<noteq> {}"
    using markRoot_total by blast
  have r: "changed = changedRoots (t4, t6)" "blocked' = blocked \<union> a \<union> b"
    using assms t a(1) b(1) by (auto simp: coverRound_def)
  have "entries t4 = paths4 networks blocked 0" "entries t6 = paths6 networks blocked 0"
    using addNetworks_entries [OF t] by auto
  then have ab: "a \<subseteq> {..<length networks} - blocked" "b \<subseteq> {..<length networks} - blocked"
    using a(2) b(2) by (auto simp: paths4_def paths6_def)
  show "blocked \<subseteq> blocked'" "blocked' - blocked \<subseteq> {..<length networks}" using r ab by auto
  show "changed \<Longrightarrow> blocked' - blocked \<noteq> {}" using r a(3) b(3) ab by (auto simp: changedRoots_def)
  show "\<not> changed \<Longrightarrow> blocked' = blocked" using r a b by (auto simp: changedRoots_def markRoot_def)
qed

end
