(* ===== verification/Router_Networks.thy ===== *)
theory Router_Networks
  imports Router_Trie
begin

text \<open>
  Which destinations the \<open>/router\<close> endpoint of \<open>main.go\<close> may reach: the allowed networks of the
  WireGuard peers, less those that together make up the whole address space.

  \<open>unrestrictedRouterNetworks\<close> puts the networks not yet blocked into one trie per address family,
  blocks the networks of a cover when a root is covered, and starts again.  The loop is a
  \<open>function\<close>: every further round blocks a network that was not blocked before.

  Shown: the loop ends without a panic; the networks that stay never cover a family; and nothing is
  blocked when the networks do not cover a family in the first place.
\<close>

function unrestrictedLoop :: "IPNet list \<Rightarrow> nat set \<Rightarrow> nat set option" where
  "unrestrictedLoop networks blocked =
     (case coverRound networks blocked of
        None \<Rightarrow> None
      | Some (changed, blocked') \<Rightarrow> if changed then unrestrictedLoop networks blocked' else Some blocked')"
  by pat_completeness auto
termination
proof (relation "measure (\<lambda>(networks, blocked). card ({..<length networks} - blocked))", goal_cases)
  case (2 networks blocked cb changed blocked')
  then have c: "coverRound networks blocked = Some (True, blocked')" by simp
  have "{..<length networks} - blocked' \<subset> {..<length networks} - blocked"
    using coverRound_grows(1-3) [OF c] by blast
  then show ?case by (simp add: psubset_card_mono)
qed simp

declare unrestrictedLoop.simps [simp del]

definition unrestrictedRouterNetworks :: "IPNet list \<Rightarrow> nat set option" where
  "unrestrictedRouterNetworks networks = unrestrictedLoop networks {}"

definition routerIPAllowed :: "IP \<Rightarrow> IPNet list \<Rightarrow> bool option" where
  "routerIPAllowed ip networks =
     (if ip = [] \<or> \<not> IsGlobalUnicast ip then Some False
      else case unrestrictedRouterNetworks networks of
        None \<Rightarrow> None
      | Some blocked \<Rightarrow>
          Some (list_ex (\<lambda>index. index \<notin> blocked \<and> IPNet_Contains (networks ! index) ip) [0..<length networks]))"

text \<open>
  The networks WireGuard reports: an address of the family of its mask, and a mask that is a prefix
  length.  \<open>inNet\<close> is membership as such: the leading bits agree.
\<close>

definition net_ok :: "IPNet \<Rightarrow> bool" where
  "net_ok n \<longleftrightarrow> length (n_Mask n) = length (n_IP n) \<and> (length (n_IP n) = 4 \<or> length (n_IP n) = 16 \<and> To4 (n_IP n) = []) \<and>
     snd (MaskSize (n_Mask n)) = 8 * length (n_Mask n)"

definition inNet :: "IPNet \<Rightarrow> bytes \<Rightarrow> bool" where
  "inNet n ip \<longleftrightarrow> length ip = length (n_IP n) \<and>
     take (fst (MaskSize (n_Mask n))) (ipBits ip) = take (fst (MaskSize (n_Mask n))) (ipBits (n_IP n))"

definition uncovered :: "nat \<Rightarrow> IPNet list \<Rightarrow> nat set \<Rightarrow> bool" where
  "uncovered len networks blocked \<longleftrightarrow>
     (\<exists>ip. length ip = len \<and> (\<forall>i<length networks. i \<notin> blocked \<longrightarrow> \<not> inNet (networks ! i) ip))"

definition cidr4 :: "byte list \<Rightarrow> nat \<Rightarrow> IPNet" where
  "cidr4 ip n = \<lparr>n_IP = ip, n_Mask = CIDRMask n 4\<rparr>"

subsection \<open>Words and addresses\<close>

lemma byteBits_surj: "length v = 8 \<Longrightarrow> \<exists>b. byteBits b = v"
proof -
  assume l: "length v = 8"
  let ?b = "horner_sum of_bool 2 (rev v) :: byte"
  have "byteBits ?b ! i = v ! i" if "i < 8" for i
    using that l by (auto simp: byteBits_def bit_horner_sum_bit_word_iff rev_nth)
  then have "byteBits ?b = v" using l by (intro nth_equalityI) simp_all
  then show ?thesis ..
qed

lemma ipBits_surj: "length w = 8 * n \<Longrightarrow> \<exists>ip. length ip = n \<and> ipBits ip = w"
proof (induction n arbitrary: w)
  case 0
  then show ?case by (simp add: ipBits_def)
next
  case (Suc n)
  then obtain b where b: "byteBits b = take 8 w" using byteBits_surj [of "take 8 w"] by auto
  obtain ip where ip: "length ip = n" "ipBits ip = drop 8 w" using Suc.IH [of "drop 8 w"] Suc.prems by auto
  have "ipBits (b # ip) = w" by (simp add: ipBits_Cons b ip)
  then show ?case using ip(1) by (intro exI [of _ "b # ip"]) simp
qed

lemma prefix_take_iff: "length p \<le> length w \<Longrightarrow> prefix p w \<longleftrightarrow> take (length p) w = p"
  by (metis append_eq_conv_conj prefix_def take_is_prefix)

lemma MaskSize_le: "fst (MaskSize m) \<le> 8 * length m"
  using length_takeWhile_le [of id "ipBits m"] by (auto simp: MaskSize_def Let_def)

lemma networkPath_ok:
  assumes "net_ok n"
  shows "networkPath n = (if length (n_IP n) = 4 then Path4 else Path6) (take (fst (MaskSize (n_Mask n))) (ipBits (n_IP n)))"
proof -
  obtain k bits where m: "MaskSize (n_Mask n) = (k, bits)" by force
  then have "k \<le> 8 * length (n_Mask n)" "bits = 8 * length (n_Mask n)"
    using MaskSize_le [of "n_Mask n"] assms by (auto simp: net_ok_def)
  with m assms show ?thesis by (auto simp: networkPath_def net_ok_def To4_def To16_def)
qed

lemma inNet_prefix:
  assumes "net_ok n" "length ip = length (n_IP n)"
  shows "inNet n ip \<longleftrightarrow> prefix (take (fst (MaskSize (n_Mask n))) (ipBits (n_IP n))) (ipBits ip)"
  using assms MaskSize_le [of "n_Mask n"] by (subst prefix_take_iff) (auto simp: inNet_def net_ok_def)

subsection \<open>What a round decides\<close>

lemma coversAll_addresses: "coversAll (8 * len) K \<longleftrightarrow> (\<forall>ip. length ip = len \<longrightarrow> (\<exists>p \<in> K. prefix p (ipBits ip)))"
  unfolding coversAll_def
proof (intro iffI allI impI)
  fix w :: "bool list" assume a: "\<forall>ip. length ip = len \<longrightarrow> (\<exists>p \<in> K. prefix p (ipBits ip))" and "length w = 8 * len"
  then obtain ip where "length ip = len" "ipBits ip = w" using ipBits_surj by blast
  then show "\<exists>p \<in> K. prefix p w" using a by auto
qed simp

lemma keys_iff:
  assumes "list_all net_ok networks"
  shows "coversAll 32 (fst ` paths4 networks blocked 0) \<longleftrightarrow> \<not> uncovered 4 networks blocked"
    "coversAll 128 (fst ` paths6 networks blocked 0) \<longleftrightarrow> \<not> uncovered 16 networks blocked"
proof -
  have ok: "net_ok (networks ! i)" if "i < length networks" for i using assms that by (simp add: list_all_length)
  have 4: "(\<exists>p \<in> fst ` paths4 networks blocked 0. prefix p (ipBits ip)) \<longleftrightarrow>
      (\<exists>i<length networks. i \<notin> blocked \<and> inNet (networks ! i) ip)" if "length ip = 4" for ip
  proof -
    have "(\<exists>p. networkPath (networks ! i) = Path4 p \<and> prefix p (ipBits ip)) \<longleftrightarrow> inNet (networks ! i) ip" if i: "i < length networks" for i
      using inNet_prefix [OF ok [OF i], of ip] networkPath_ok [OF ok [OF i]] \<open>length ip = 4\<close> by (auto simp: inNet_def)
    then show ?thesis by (auto simp: paths4_def) blast+
  qed
  have 16: "(\<exists>p \<in> fst ` paths6 networks blocked 0. prefix p (ipBits ip)) \<longleftrightarrow>
      (\<exists>i<length networks. i \<notin> blocked \<and> inNet (networks ! i) ip)" if "length ip = 16" for ip
  proof -
    have "(\<exists>p. networkPath (networks ! i) = Path6 p \<and> prefix p (ipBits ip)) \<longleftrightarrow> inNet (networks ! i) ip" if i: "i < length networks" for i
      using inNet_prefix [OF ok [OF i], of ip] networkPath_ok [OF ok [OF i]] ok [OF i] \<open>length ip = 16\<close>
      by (auto simp: inNet_def net_ok_def)
    then show ?thesis by (auto simp: paths6_def) blast+
  qed
  show "coversAll 32 (fst ` paths4 networks blocked 0) \<longleftrightarrow> \<not> uncovered 4 networks blocked"
    using coversAll_addresses [of 4 "fst ` paths4 networks blocked 0"] 4 by (auto simp: uncovered_def)
  show "coversAll 128 (fst ` paths6 networks blocked 0) \<longleftrightarrow> \<not> uncovered 16 networks blocked"
    using coversAll_addresses [of 16 "fst ` paths6 networks blocked 0"] 16 by (auto simp: uncovered_def)
qed

lemma coverRound_total:
  assumes "list_all net_ok networks"
  shows "\<exists>blocked'. coverRound networks blocked =
     Some (\<not> (uncovered 4 networks blocked \<and> uncovered 16 networks blocked), blocked')"
proof -
  have "networkPath n \<noteq> IndexPanic" if "n \<in> set networks" for n
    using networkPath_ok [of n] assms that by (auto simp: list_all_iff)
  then obtain t4 t6 where t: "addNetworks 0 networks blocked (emptyNode, emptyNode) = Some (t4, t6)"
    using addNetworks_total by blast
  have e: "entries t4 = paths4 networks blocked 0" "entries t6 = paths6 networks blocked 0"
    using addNetworks_entries [OF t] by auto
  have ok: "net_ok (networks ! i)" if "i < length networks" for i using assms that by (simp add: list_all_length)
  have l4: "length p \<le> 32" if "p \<in> fst ` paths4 networks blocked 0" for p
    using that networkPath_ok [OF ok] by (force simp: paths4_def split: if_splits)
  have l6: "length p \<le> 128" if "p \<in> fst ` paths6 networks blocked 0" for p
    using that networkPath_ok [OF ok] ok by (force simp: paths6_def net_ok_def split: if_splits)
  have "routerCIDRCovered (Some t4) \<longleftrightarrow> \<not> uncovered 4 networks blocked"
    using covered_iff [of "Some t4" 32] l4 e keys_iff(1) [OF assms] by simp
  moreover have "routerCIDRCovered (Some t6) \<longleftrightarrow> \<not> uncovered 16 networks blocked"
    using covered_iff [of "Some t6" 128] l6 e keys_iff(2) [OF assms] by simp
  ultimately show ?thesis using t markRoot_total [of t4] markRoot_total [of t6]
    by (auto simp: coverRound_def changedRoots_def simp del: entriesO.simps)
qed

lemma unrestrictedLoop_total:
  assumes "list_all net_ok networks"
  shows "\<exists>b. unrestrictedLoop networks blocked = Some b \<and> blocked \<subseteq> b \<and> b - blocked \<subseteq> {..<length networks} \<and>
      uncovered 4 networks b \<and> uncovered 16 networks b"
  using assms
proof (induction networks blocked rule: unrestrictedLoop.induct)
  case (1 networks blocked)
  let ?c = "\<not> (uncovered 4 networks blocked \<and> uncovered 16 networks blocked)"
  obtain b' where r: "coverRound networks blocked = Some (?c, b')" using coverRound_total [OF 1(2)] by blast
  note g = coverRound_grows [OF r]
  show ?case
  proof (cases ?c)
    case True
    then obtain b where b: "unrestrictedLoop networks b' = Some b" "b' \<subseteq> b" "b - b' \<subseteq> {..<length networks}"
        "uncovered 4 networks b" "uncovered 16 networks b"
      using 1(1) [OF r refl] 1(2) by blast
    have "unrestrictedLoop networks blocked = Some b" using b(1) r True by (subst unrestrictedLoop.simps) simp
    then show ?thesis using b g(1,2) by blast
  next
    case False
    then have "unrestrictedLoop networks blocked = Some blocked" using r g(4) by (subst unrestrictedLoop.simps) auto
    then show ?thesis using False by auto
  qed
qed

lemma Contains_inNet:
  assumes "net_ok n"
  shows "IPNet_Contains n ip \<longleftrightarrow> inNet n (if To4 ip \<noteq> [] then To4 ip else ip)"
proof -
  obtain k where k: "MaskSize (n_Mask n) = (k, 8 * length (n_Mask n))" using assms by (metis net_ok_def prod.collapse)
  have nm: "networkNumberAndMask n = (n_IP n, n_Mask n)"
  proof (cases "length (n_IP n) = 4")
    case True
    then have "To4 (n_IP n) = n_IP n" "n_IP n \<noteq> []" "length (n_Mask n) = 4" using assms by (auto simp: To4_def net_ok_def)
    then show ?thesis using True by (simp add: networkNumberAndMask_def)
  next
    case False
    then have "To4 (n_IP n) = []" "length (n_IP n) = 16" "length (n_Mask n) = 16" using assms by (auto simp: net_ok_def)
    then show ?thesis by (simp add: networkNumberAndMask_def)
  qed
  have ne: "n_Mask n \<noteq> []" using assms by (auto simp: net_ok_def)
  let ?ip = "if To4 ip \<noteq> [] then To4 ip else ip"
  show ?thesis
  proof (cases "length ?ip = length (n_IP n)")
    case True
    have l: "length (n_IP n) = length (n_Mask n)" using assms by (simp add: net_ok_def)
    have "list_all (\<lambda>i. n_IP n ! i AND n_Mask n ! i = ?ip ! i AND n_Mask n ! i) [0..<length (n_Mask n)]
        \<longleftrightarrow> take k (ipBits (n_IP n)) = take k (ipBits ?ip)"
      by (rule masked_eq_iff [OF l _ k ne]) (use True l in simp)
    then show ?thesis using True l k nm by (auto simp: IPNet_Contains_def inNet_def Let_def)
  next
    case False
    then show ?thesis using nm by (auto simp: IPNet_Contains_def inNet_def)
  qed
qed

lemma halves_ok: "list_all net_ok [cidr4 [0, 0, 0, 0] 1, cidr4 [128, 0, 0, 0] 1]"
  by (simp add: net_ok_def cidr4_def CIDRMask_def MaskSize_def ipBits_def byteBits_def upt_rec mask_eq_exp_minus_1)

text \<open>
  C15: the computation of the unrestricted networks ends without a panic for every set of peer
  networks, and the networks it leaves never make up a whole address family: there is an IPv4 address
  and there are 128 bits that none of them contains.  In particular the router refuses some IPv4
  address whatever the peers announce.
\<close>

theorem router_networks_never_cover:
  assumes "list_all net_ok networks"
  shows "\<exists>blocked. unrestrictedRouterNetworks networks = Some blocked \<and> blocked \<subseteq> {..<length networks} \<and>
      uncovered 4 networks blocked \<and> uncovered 16 networks blocked \<and>
      (\<exists>ip. length ip = 4 \<and> routerIPAllowed ip networks = Some False)"
proof -
  obtain b where b: "unrestrictedRouterNetworks networks = Some b" "b \<subseteq> {..<length networks}"
      "uncovered 4 networks b" "uncovered 16 networks b"
    using unrestrictedLoop_total [OF assms, of "{}"] by (auto simp: unrestrictedRouterNetworks_def)
  then obtain ip where ip: "length ip = 4" "\<forall>i<length networks. i \<notin> b \<longrightarrow> \<not> inNet (networks ! i) ip"
    by (auto simp: uncovered_def)
  have "To4 ip = ip" using ip(1) by (simp add: To4_def)
  then have "\<not> IPNet_Contains (networks ! i) ip" if "i < length networks" "i \<notin> b" for i
    using that ip Contains_inNet [of "networks ! i" ip] assms by (auto simp: list_all_length)
  then have "routerIPAllowed ip networks = Some False"
    using b(1) by (auto simp: routerIPAllowed_def list_ex_iff)
  then show ?thesis using b ip(1) by blast
qed

theorem router_networks_never_cover_witness:
  "\<exists>ip. length ip = 4 \<and> routerIPAllowed ip [cidr4 [0, 0, 0, 0] 1, cidr4 [128, 0, 0, 0] 1] = Some False"
  using router_networks_never_cover [OF halves_ok] by blast

lemma router_allows_iff:
  assumes "list_all net_ok networks" "uncovered 4 networks {}" "uncovered 16 networks {}" "ip \<noteq> []"
  shows "unrestrictedRouterNetworks networks = Some {} \<and>
      routerIPAllowed ip networks =
        Some (IsGlobalUnicast ip \<and> (\<exists>n \<in> set networks. inNet n (if To4 ip \<noteq> [] then To4 ip else ip)))"
proof -
  obtain b' where r: "coverRound networks {} = Some (False, b')" using coverRound_total [OF assms(1), of "{}"] assms(2,3) by auto
  have u: "unrestrictedRouterNetworks networks = Some {}"
    unfolding unrestrictedRouterNetworks_def using r coverRound_grows(4) [OF r] by (subst unrestrictedLoop.simps) simp
  have c: "IPNet_Contains (networks ! i) ip \<longleftrightarrow> inNet (networks ! i) (if To4 ip \<noteq> [] then To4 ip else ip)" if "i < length networks" for i
    using Contains_inNet that assms(1) by (simp add: list_all_length)
  have "(\<exists>i<length networks. IPNet_Contains (networks ! i) ip) \<longleftrightarrow> (\<exists>n \<in> set networks. inNet n (if To4 ip \<noteq> [] then To4 ip else ip))"
    using c by (metis in_set_conv_nth)
  then show ?thesis using u assms(4) by (auto simp: routerIPAllowed_def list_ex_iff)
qed

lemma demo_net: "net_ok (cidr4 [10, 0, 0, 0] 8)" "fst (MaskSize (n_Mask (cidr4 [10, 0, 0, 0] 8))) = 8"
  by (simp_all add: net_ok_def cidr4_def CIDRMask_def MaskSize_def ipBits_def byteBits_def upt_rec)

lemma demo_uncovered: "uncovered 4 [cidr4 [10, 0, 0, 0] 8] {}" "uncovered 16 [cidr4 [10, 0, 0, 0] 8] {}"
proof -
  show "uncovered 4 [cidr4 [10, 0, 0, 0] 8] {}" unfolding uncovered_def
    by (rule exI [of _ "[11, 0, 0, 0]"]) (simp add: inNet_def demo_net(2), simp add: cidr4_def ipBits_def byteBits_def upt_rec)
  show "uncovered 16 [cidr4 [10, 0, 0, 0] 8] {}" unfolding uncovered_def
    by (rule exI [of _ "replicate 16 0"]) (simp add: inNet_def cidr4_def)
qed

lemma peer_net_allowed: "routerIPAllowed [10, 0, 0, 9] [cidr4 [10, 0, 0, 0] 8] = Some True"
proof -
  have "length ([10, 0, 0, 9] :: bytes) \<noteq> length (replicate 16 (0 :: byte))" by simp
  then have "[10, 0, 0, 9] \<noteq> replicate 16 (0 :: byte)" by metis
  then have "IsGlobalUnicast [10, 0, 0, 9]"
    by (simp add: IsGlobalUnicast_def IsUnspecified_def IsLoopback_def IsMulticast_def IsLinkLocalUnicast_def To4_def)
  moreover have "inNet (cidr4 [10, 0, 0, 0] 8) [10, 0, 0, 9]"
    by (simp add: inNet_def demo_net(2)) (simp add: cidr4_def ipBits_def byteBits_def)
  ultimately show ?thesis
    using router_allows_iff [OF _ demo_uncovered, of "[10, 0, 0, 9]"] demo_net(1) by (simp add: To4_def)
qed

text \<open>
  C18: nothing is blocked without need.  When neither address family is covered by the networks, the
  router allows exactly the global unicast addresses that lie in one of them.
\<close>

theorem router_allows_exactly_peers:
  assumes "list_all net_ok networks" "uncovered 4 networks {}" "uncovered 16 networks {}" "ip \<noteq> []"
  shows "unrestrictedRouterNetworks networks = Some {} \<and>
      routerIPAllowed ip networks =
        Some (IsGlobalUnicast ip \<and> (\<exists>n \<in> set networks. inNet n (if To4 ip \<noteq> [] then To4 ip else ip)))"
  using assms by (rule router_allows_iff)

theorem router_allows_exactly_peers_witness:
  "routerIPAllowed [10, 0, 0, 9] [cidr4 [10, 0, 0, 0] 8] = Some True \<and>
   unrestrictedRouterNetworks [cidr4 [10, 0, 0, 0] 8] = Some {}"
  using router_allows_exactly_peers [OF _ demo_uncovered, of "[10, 0, 0, 9]"] demo_net(1) peer_net_allowed by simp

end
