(* ===== verification/HTTP_Server.thy ===== *)
theory HTTP_Server
  imports Go_Strings Metrics
begin

text \<open>
  What the HTTP handlers of \<open>main.go\<close> use of \<open>net/http\<close>, and the metrics middleware around them.

  A header is a map from canonical keys to their values.  A \<open>responseWriter\<close> keeps the codes given to
  \<open>WriteHeader\<close>, the response header and the bytes written; \<open>wireStatus\<close> is the status the client
  receives: the first code that is not informational, or 200.  A handler of the program is always
  called through \<open>httpMetricsMiddleware\<close>, so it writes to a \<open>responseWriterWrapper\<close>, which
  remembers the last code.

  Shown: the status label the middleware records is the status on the wire for every handler that
  sends at most one final status, and one sample of each HTTP metric is recorded per request.
\<close>

type_synonym header = "(string, string list) gomap"

fun canonFrom :: "bool \<Rightarrow> string \<Rightarrow> string" where
  "canonFrom up [] = []"
| "canonFrom up (c # cs) = (if up then toUpperC c else toLowerC c) # canonFrom (c = CHR ''-'') cs"

definition CanonicalHeaderKey :: "string \<Rightarrow> string" where
  "CanonicalHeaderKey k = canonFrom True k"

definition Header_Get :: "header \<Rightarrow> string \<Rightarrow> string" where
  "Header_Get h k = (case Load h (CanonicalHeaderKey k) of Some (v # _) \<Rightarrow> v | _ \<Rightarrow> [])"

definition Header_Set :: "string \<Rightarrow> string \<Rightarrow> header \<Rightarrow> header" where
  "Header_Set k v h = Store (CanonicalHeaderKey k) [v] h"

definition Header_Del :: "string \<Rightarrow> header \<Rightarrow> header" where
  "Header_Del k h = Delete (CanonicalHeaderKey k) h"

record httpRequest =
  rq_Method :: string
  rq_Path :: string
  rq_RawPath :: string
  rq_Query :: "(string, string list) gomap"
  rq_Header :: header
  rq_Host :: string
  rq_ContentLength :: int
  rq_Body :: "bytes option"

text \<open>\<open>http.MaxBytesReader\<close>: the bytes that can be read and whether reading ends with an error.\<close>

definition MaxBytesReader :: "nat \<Rightarrow> bytes \<Rightarrow> bytes \<times> bool" where
  "MaxBytesReader n body = (take n body, n < length body)"

record responseWriter =
  rw_codes :: "nat list"
  rw_header :: header
  rw_body :: "string list"

definition finalCode :: "nat \<Rightarrow> bool" where
  "finalCode c \<longleftrightarrow> c = 101 \<or> 200 \<le> c"

definition wireStatus :: "responseWriter \<Rightarrow> nat" where
  "wireStatus w = (case filter finalCode (rw_codes w) of [] \<Rightarrow> 200 | c # _ \<Rightarrow> c)"

record responseWriterWrapper =
  ResponseWriter :: responseWriter
  statusCode :: nat

definition WriteHeader :: "nat \<Rightarrow> responseWriterWrapper \<Rightarrow> responseWriterWrapper" where
  "WriteHeader code w = w\<lparr>statusCode := code, ResponseWriter := (ResponseWriter w)\<lparr>rw_codes := rw_codes (ResponseWriter w) @ [code]\<rparr>\<rparr>"

definition Unwrap :: "responseWriterWrapper \<Rightarrow> responseWriter" where
  "Unwrap w = ResponseWriter w"

text \<open>
  \<open>Write\<close> is promoted from the embedded \<open>ResponseWriter\<close>: it sends the implicit 200 below the
  wrapper when no final code was written.
\<close>

definition rw_Write :: "string \<Rightarrow> responseWriter \<Rightarrow> responseWriter" where
  "rw_Write s w = w\<lparr>rw_codes := (if filter finalCode (rw_codes w) = [] then rw_codes w @ [200] else rw_codes w),
                    rw_body := rw_body w @ [s]\<rparr>"

definition ww_Write :: "string \<Rightarrow> responseWriterWrapper \<Rightarrow> responseWriterWrapper" where
  "ww_Write s w = w\<lparr>ResponseWriter := rw_Write s (ResponseWriter w)\<rparr>"

definition httpError :: "string \<Rightarrow> nat \<Rightarrow> responseWriterWrapper \<Rightarrow> responseWriterWrapper" where
  "httpError msg code w = ww_Write msg (WriteHeader code w)"

type_synonym 's handler = "httpRequest \<Rightarrow> 's \<Rightarrow> responseWriterWrapper \<Rightarrow> responseWriterWrapper \<times> 's"

definition httpMetricsMiddleware ::
  "string \<Rightarrow> 's handler \<Rightarrow> rat \<Rightarrow> httpRequest \<Rightarrow> 's \<Rightarrow> responseWriter \<Rightarrow> responseWriter \<times> 's \<times> call list" where
  "httpMetricsMiddleware endpoint handler duration r s w =
     (let ww = \<lparr>ResponseWriter = w, statusCode = 200\<rparr>;
          (ww', s') = handler r s ww
      in (ResponseWriter ww', s',
          [RecordHTTPRequest endpoint (rq_Method r) (itoaNat (statusCode ww')),
           RecordHTTPRequestDuration endpoint (rq_Method r) duration]))"

definition newWriter :: responseWriter where
  "newWriter = \<lparr>rw_codes = [], rw_header = [], rw_body = []\<rparr>"

text \<open>
  The invariant of a wrapper whose handler sends at most one final code: once a final code is
  written, it is the remembered one; before that the remembered code is the default, unless only
  informational codes were written.
\<close>

definition ww_ok :: "responseWriterWrapper \<Rightarrow> bool" where
  "ww_ok w \<longleftrightarrow> (rw_codes (ResponseWriter w) = [] \<and> statusCode w = 200)
      \<or> filter finalCode (rw_codes (ResponseWriter w)) = [statusCode w]"

subsection \<open>Headers\<close>

lemma Header_Get_Del: "Header_Get (Header_Del k h) k' = (if CanonicalHeaderKey k = CanonicalHeaderKey k' then [] else Header_Get h k')"
  by (auto simp: Header_Get_def Header_Del_def Load_Delete)

lemma Header_Del_key: "\<not> hasKey (Header_Del k h) (CanonicalHeaderKey k)"
  by (simp add: Header_Del_def)

lemma Header_Del_absent: "\<not> hasKey h k' \<Longrightarrow> \<not> hasKey (Header_Del k h) k'"
  by (simp add: Header_Del_def)

subsection \<open>The recorded status\<close>

lemma ww_ok_new: "rw_codes w = [] \<Longrightarrow> ww_ok \<lparr>ResponseWriter = w, statusCode = 200\<rparr>"
  by (simp add: ww_ok_def)

lemma ww_ok_status: "ww_ok w \<Longrightarrow> wireStatus (ResponseWriter w) = statusCode w"
  by (auto simp: ww_ok_def wireStatus_def split: list.splits)

lemma ww_ok_WriteHeader:
  "rw_codes (ResponseWriter w) = [] \<Longrightarrow> finalCode c \<Longrightarrow> ww_ok (WriteHeader c w)"
  by (simp add: ww_ok_def WriteHeader_def)

lemma ww_ok_Write: "ww_ok w \<Longrightarrow> ww_ok (ww_Write s w)"
  by (auto simp: ww_ok_def ww_Write_def rw_Write_def finalCode_def)

lemma statusCode_ww_Write [simp]: "statusCode (ww_Write s w) = statusCode w"
  by (simp add: ww_Write_def)

lemma statusCode_WriteHeader [simp]: "statusCode (WriteHeader c w) = c"
  by (simp add: WriteHeader_def)

lemma statusCode_httpError [simp]: "statusCode (httpError msg c w) = c"
  by (simp add: httpError_def)

lemma ww_ok_httpError:
  "rw_codes (ResponseWriter w) = [] \<Longrightarrow> finalCode c \<Longrightarrow> ww_ok (httpError msg c w)"
  by (simp add: httpError_def ww_ok_Write ww_ok_WriteHeader)

lemma finalCode_ge [simp, intro]: "200 \<le> c \<Longrightarrow> finalCode c"
  by (simp add: finalCode_def)

lemma middleware_status:
  assumes "\<And>w. rw_codes (ResponseWriter w) = [] \<Longrightarrow> statusCode w = 200 \<Longrightarrow> ww_ok (fst (handler r s w))" "rw_codes w = []"
  shows "case httpMetricsMiddleware endpoint handler d r s w of (w', _, calls) \<Rightarrow>
      calls = [RecordHTTPRequest endpoint (rq_Method r) (itoaNat (wireStatus w')), RecordHTTPRequestDuration endpoint (rq_Method r) d]"
  using ww_ok_status [OF assms(1)] assms(2)
  by (auto simp: httpMetricsMiddleware_def Let_def split: prod.splits) (metis fst_conv responseWriterWrapper.select_convs)

end
