(* ===== verification/Router.thy ===== *)
theory Router
  imports Router_Networks WG_Device HTTP_Server Go_IP_RoundTrip
begin

text \<open>
  The \<open>/router/\<close> endpoint of \<open>main.go\<close>: a reverse proxy to a destination named by a header of the
  request and reachable over the WireGuard interface only.

  \<open>routerEnv\<close> is what the endpoint sees of the outside: the WireGuard device, name resolution,
  dialling, the TLS handshake, the address \<open>http.Transport\<close> derives from the URL, an idle connection
  it may hold for that address, and the exchange with the destination.  Every dial attempted is
  recorded.  A panic is \<open>None\<close>.

  Shown: only addresses that the resolver returned, all of them allowed by the peers' networks, are
  dialled, as numbers; a request that fails validation reaches nothing; what is forwarded; the status
  recorded is the status sent.
\<close>

definition pangolinDestHeader :: string where "pangolinDestHeader = ''p-dest-header''"
definition pangolinHostHeader :: string where "pangolinHostHeader = ''p-dest-host-header''"
definition maxRouterRequestBodyBytes :: nat where "maxRouterRequestBodyBytes = 33554432"

definition splitDestHeader :: "string \<Rightarrow> string \<times> string" where
  "splitDestHeader dest = (case cut dest ''://'' of Some (s, rest) \<Rightarrow> (s, rest) | None \<Rightarrow> (''http'', dest))"

definition hostname :: "string \<Rightarrow> string" where
  "hostname hostport = (case SplitHostPort hostport of Some (h, _) \<Rightarrow> h | None \<Rightarrow> hostport)"

datatype routerError = UnsupportedScheme | InvalidDestAddress | InvalidDestPort
  | NoClient | ReadPeers | BadAddress | ResolveError | NoAddresses | Disallowed IP | DialErrors | HandshakeError

definition validateRouterDestination :: "string \<Rightarrow> routerError option" where
  "validateRouterDestination dest =
     (let (scheme, hostport) = splitDestHeader dest in
      if scheme \<noteq> ''http'' \<and> scheme \<noteq> ''https'' then Some UnsupportedScheme
      else case SplitHostPort hostport of
        None \<Rightarrow> Some InvalidDestAddress
      | Some (host, portString) \<Rightarrow>
          if host = [] then Some InvalidDestAddress
          else case Atoi portString of
            None \<Rightarrow> Some InvalidDestPort
          | Some port \<Rightarrow> if port < 1 \<or> port > 65535 then Some InvalidDestPort else None)"

definition routerAllowedNetworks :: "'w wgClient option \<Rightarrow> 'w \<Rightarrow> (routerError + IPNet list) \<times> 'w" where
  "routerAllowedNetworks wgClient w =
     (case wgClient of
        None \<Rightarrow> (Inl NoClient, w)
      | Some c \<Rightarrow> (case Device c w of
          (None, w') \<Rightarrow> (Inl ReadPeers, w')
        | (Some peers, w') \<Rightarrow> (Inr (concat (map wp_AllowedIPs peers)), w')))"

record IPAddr =
  ipa_IP :: IP
  ipa_Zone :: string

definition IPAddr_String :: "IPAddr \<Rightarrow> string" where
  "IPAddr_String a = (let ip = (if ipa_IP a = [] then [] else IP_String (ipa_IP a)) in
     if ipa_Zone a \<noteq> [] then ip @ ''%'' @ ipa_Zone a else ip)"

record outRequest =
  ou_Method :: string
  ou_Scheme :: string
  ou_URLHost :: string
  ou_Path :: string
  ou_RawPath :: string
  ou_Host :: string
  ou_Header :: header
  ou_SNI :: "string option"

datatype upstream = Failed | Upgraded | Responded "nat list" nat string

record ('w, 'c) routerEnv =
  re_wg :: "'w wgClient option"
  re_lookup :: "string \<Rightarrow> IPAddr list option"
  re_dial :: "string \<Rightarrow> 'c option"
  re_tls :: "'c \<Rightarrow> string \<Rightarrow> bool"
  re_addr :: "string \<Rightarrow> string \<Rightarrow> string"
  re_idle :: "string \<Rightarrow> string \<Rightarrow> 'c option"
  re_exchange :: "'c \<Rightarrow> outRequest \<Rightarrow> (bytes \<times> bool) option \<Rightarrow> upstream"

text \<open>The loop over the resolver's answers: the first disallowed one, if any.\<close>

fun checkResolved :: "IPNet list \<Rightarrow> IPAddr list \<Rightarrow> IPAddr option option" where
  "checkResolved networks [] = Some None"
| "checkResolved networks (c # cs) =
     (case routerIPAllowed (ipa_IP c) networks of
        None \<Rightarrow> None
      | Some ok \<Rightarrow> if ok then checkResolved networks cs else Some (Some c))"

definition dialRouterContext ::
  "('w, 'c) routerEnv \<Rightarrow> string \<Rightarrow> 'w \<Rightarrow> ((routerError + 'c) \<times> 'w \<times> string list) option" where
  "dialRouterContext env addr w =
     (case SplitHostPort addr of
        None \<Rightarrow> Some (Inl BadAddress, w, [])
      | Some (host, port) \<Rightarrow>
          (case re_lookup env host of
             None \<Rightarrow> Some (Inl ResolveError, w, [])
           | Some resolved \<Rightarrow>
               if resolved = [] then Some (Inl NoAddresses, w, [])
               else (case routerAllowedNetworks (re_wg env) w of
                   (Inl e, w') \<Rightarrow> Some (Inl e, w', [])
                 | (Inr allowedNetworks, w') \<Rightarrow>
                     (case checkResolved allowedNetworks resolved of
                        None \<Rightarrow> None
                      | Some (Some c) \<Rightarrow> Some (Inl (Disallowed (ipa_IP c)), w', [])
                      | Some None \<Rightarrow>
                          (case dialFirst (re_dial env) (map (\<lambda>c. JoinHostPort (IPAddr_String c) port) resolved) [] of
                             (Some conn, tried) \<Rightarrow> Some (Inr conn, w', tried)
                           | (None, tried) \<Rightarrow> Some (Inl DialErrors, w', tried))))))"

definition dialTLSContext ::
  "('w, 'c) routerEnv \<Rightarrow> string option \<Rightarrow> string \<Rightarrow> 'w \<Rightarrow> ((routerError + 'c) \<times> 'w \<times> string list) option" where
  "dialTLSContext env ctxSNI addr w =
     (let serverName = (case ctxSNI of Some sni \<Rightarrow> if sni \<noteq> [] then sni else hostname addr | None \<Rightarrow> hostname addr) in
      case dialRouterContext env addr w of
        None \<Rightarrow> None
      | Some (Inl e, w', tried) \<Rightarrow> Some (Inl e, w', tried)
      | Some (Inr conn, w', tried) \<Rightarrow>
          if re_tls env conn serverName then Some (Inr conn, w', tried) else Some (Inl HandshakeError, w', tried))"

text \<open>
  \<open>routerTransport.RoundTrip\<close>: an idle connection for the address is used again, otherwise one is
  dialled with the hook of the scheme.
\<close>

definition routerTransport ::
  "('w, 'c) routerEnv \<Rightarrow> outRequest \<Rightarrow> 'w \<Rightarrow> ((routerError + 'c) \<times> 'w \<times> string list) option" where
  "routerTransport env out w =
     (let addr = re_addr env (ou_Scheme out) (ou_URLHost out) in
      case re_idle env (ou_Scheme out) addr of
        Some conn \<Rightarrow> Some (Inr conn, w, [])
      | None \<Rightarrow> if ou_Scheme out = ''https'' then dialTLSContext env (ou_SNI out) addr w else dialRouterContext env addr w)"

subsection \<open>The reverse proxy\<close>

definition hopHeaders :: "string list" where
  "hopHeaders = [''Connection'', ''Proxy-Connection'', ''Keep-Alive'', ''Proxy-Authenticate'',
     ''Proxy-Authorization'', ''Te'', ''Trailer'', ''Transfer-Encoding'', ''Upgrade'']"

definition connectionTokens :: "header \<Rightarrow> string list" where
  "connectionTokens h = (case Load h ''Connection'' of
     None \<Rightarrow> [] | Some vs \<Rightarrow> filter (\<lambda>t. t \<noteq> []) (map trimSpace (concat (map (splitOn CHR '','') vs))))"

definition removeHopByHopHeaders :: "header \<Rightarrow> header" where
  "removeHopByHopHeaders h = fold Header_Del hopHeaders (fold Header_Del (connectionTokens h) h)"

definition upgradeType :: "header \<Rightarrow> string" where
  "upgradeType h = (if list_ex (\<lambda>t. equalFold t ''Upgrade'') (connectionTokens h) then Header_Get h ''Upgrade'' else [])"

definition acceptsTrailers :: "header \<Rightarrow> bool" where
  "acceptsTrailers h = (case Load h ''Te'' of
     None \<Rightarrow> False | Some vs \<Rightarrow> list_ex (\<lambda>t. equalFold (trimSpace t) ''trailers'') (concat (map (splitOn CHR '','') vs)))"

definition outHeader :: "header \<Rightarrow> header" where
  "outHeader h =
     (let h1 = removeHopByHopHeaders h;
          h2 = (if acceptsTrailers h then Header_Set ''Te'' ''trailers'' h1 else h1);
          h3 = (if upgradeType h \<noteq> [] then Header_Set ''Upgrade'' (upgradeType h) (Header_Set ''Connection'' ''Upgrade'' h2) else h2)
      in fold Header_Del [''Forwarded'', ''X-Forwarded-For'', ''X-Forwarded-Host'', ''X-Forwarded-Proto''] h3)"

definition isPrint :: "string \<Rightarrow> bool" where
  "isPrint s = list_all (\<lambda>c. 32 \<le> (of_char c :: nat) \<and> (of_char c :: nat) \<le> 126) s"

definition cloneRequest :: "httpRequest \<Rightarrow> outRequest" where
  "cloneRequest r = \<lparr>ou_Method = rq_Method r, ou_Scheme = [], ou_URLHost = [], ou_Path = rq_Path r, ou_RawPath = rq_RawPath r,
     ou_Host = rq_Host r, ou_Header = outHeader (rq_Header r), ou_SNI = None\<rparr>"

definition routerRewrite :: "httpRequest \<Rightarrow> outRequest \<Rightarrow> outRequest" where
  "routerRewrite rin out =
     (let (scheme, dest) = splitDestHeader (Header_Get (rq_Header rin) pangolinDestHeader);
          path = trimPrefix (rq_Path rin) ''/router'';
          out1 = out\<lparr>ou_Scheme := scheme, ou_URLHost := dest,
                     ou_Path := (if hasPrefix path ''/'' then path else ''/'' @ path), ou_RawPath := [], ou_Host := dest\<rparr>;
          hostOverride = Header_Get (rq_Header rin) pangolinHostHeader;
          out2 = (if hostOverride \<noteq> [] then out1\<lparr>ou_Host := hostOverride, ou_SNI := Some (hostname hostOverride)\<rparr> else out1)
      in out2\<lparr>ou_Header := Header_Del pangolinHostHeader (Header_Del pangolinDestHeader (ou_Header out2))\<rparr>)"

definition routerErrorHandler :: "responseWriterWrapper \<Rightarrow> responseWriterWrapper" where
  "routerErrorHandler w = httpError ''Bad gateway'' 502 w"

definition routerProxy_ServeHTTP ::
  "('w, 'c) routerEnv \<Rightarrow> httpRequest \<Rightarrow> (bytes \<times> bool) option \<Rightarrow> 'w \<Rightarrow> responseWriterWrapper
     \<Rightarrow> (responseWriterWrapper \<times> 'w \<times> string list) option" where
  "routerProxy_ServeHTTP env r body w rw =
     (if \<not> isPrint (upgradeType (rq_Header r)) then Some (routerErrorHandler rw, w, [])
      else let out = routerRewrite r (cloneRequest r) in
        case routerTransport env out w of
          None \<Rightarrow> None
        | Some (Inl e, w', tried) \<Rightarrow> Some (routerErrorHandler rw, w', tried)
        | Some (Inr conn, w', tried) \<Rightarrow>
            (case re_exchange env conn out (if rq_ContentLength r = 0 then None else body) of
               Failed \<Rightarrow> Some (routerErrorHandler rw, w', tried)
             | Upgraded \<Rightarrow> Some (rw, w', tried)
             | Responded infos code resp \<Rightarrow>
                 Some (ww_Write resp (WriteHeader code (fold WriteHeader infos rw)), w', tried)))"

definition handleRouter ::
  "('w, 'c) routerEnv \<Rightarrow> httpRequest \<Rightarrow> 'w \<Rightarrow> responseWriterWrapper \<Rightarrow> (responseWriterWrapper \<times> 'w \<times> string list) option" where
  "handleRouter env r w rw =
     (let dest = Header_Get (rq_Header r) pangolinDestHeader in
      if dest = [] then Some (httpError (''Missing '' @ pangolinDestHeader @ '' header'') 400 rw, w, [])
      else if validateRouterDestination dest \<noteq> None then Some (httpError ''Invalid destination'' 400 rw, w, [])
      else if rq_ContentLength r > int maxRouterRequestBodyBytes then Some (httpError ''Request body too large'' 413 rw, w, [])
      else routerProxy_ServeHTTP env r (map_option (MaxBytesReader maxRouterRequestBodyBytes) (rq_Body r)) w rw)"

text \<open>A router whose single peer owns 10.0.0.0/8 and a resolver that knows one name in it.\<close>

definition demoRouterPeer :: wgPeer where
  "demoRouterPeer = \<lparr>wp_PublicKey = [1], wp_AllowedIPs = [cidr4 [10, 0, 0, 0] 8], wp_ReceiveBytes = 0, wp_TransmitBytes = 0\<rparr>"

definition demoRouterEnv :: "(wgPeer list, string) routerEnv" where
  "demoRouterEnv = \<lparr>re_wg = Some tableDevice,
     re_lookup = (\<lambda>h. if h = ''ai'' then Some [\<lparr>ipa_IP = [10, 0, 0, 9], ipa_Zone = []\<rparr>] else None),
     re_dial = Some, re_tls = (\<lambda>_ _. True), re_addr = (\<lambda>_ h. h), re_idle = (\<lambda>_ _. None),
     re_exchange = (\<lambda>_ _ _. Responded [] 200 ''ok'')\<rparr>"

definition demoRouterRequest :: httpRequest where
  "demoRouterRequest = \<lparr>rq_Method = ''POST'', rq_Path = ''/router/v1'', rq_RawPath = [], rq_Query = [],
     rq_Header = [(''P-Dest-Header'', [''http://ai:80''])], rq_Host = ''gerbil'', rq_ContentLength = 2, rq_Body = Some [1, 2]\<rparr>"

text \<open>
  An exchange in which the destination sends informational codes and then one final status; the
  switch to another protocol is written by the proxy on the hijacked connection and is left out here.
\<close>

definition finalExchange :: "upstream \<Rightarrow> bool" where
  "finalExchange u = (case u of Failed \<Rightarrow> True | Upgraded \<Rightarrow> False
     | Responded infos code _ \<Rightarrow> list_all (\<lambda>i. \<not> finalCode i) infos \<and> finalCode code)"

text \<open>
  \<open>dialAllowed\<close>: an address that is dialled is one of the answers of a single resolution, and every
  answer of it is a global unicast address inside a network of some peer.
\<close>

definition inPeerNetwork :: "wgPeer list \<Rightarrow> IP \<Rightarrow> bool" where
  "inPeerNetwork peers ip \<longleftrightarrow>
     IsGlobalUnicast ip \<and> (\<exists>p \<in> set peers. \<exists>n \<in> set (wp_AllowedIPs p). inNet n (if To4 ip \<noteq> [] then To4 ip else ip))"

definition dialAllowed :: "('w, 'c) routerEnv \<Rightarrow> wgPeer list \<Rightarrow> string \<Rightarrow> bool" where
  "dialAllowed env peers a \<longleftrightarrow>
     (\<exists>host port resolved c. re_lookup env host = Some resolved \<and> c \<in> set resolved \<and> a = JoinHostPort (IPAddr_String c) port \<and>
        (\<forall>c \<in> set resolved. inPeerNetwork peers (ipa_IP c)) \<and>
        (ipa_Zone c = [] \<longrightarrow> ip_ok (ipa_IP c) \<longrightarrow> ParseIP (hostname a) = To16 (ipa_IP c)))"

definition peers_ok :: "wgPeer list \<Rightarrow> bool" where
  "peers_ok peers \<longleftrightarrow> list_all (\<lambda>p. list_all net_ok (wp_AllowedIPs p)) peers"

subsection \<open>Host and port\<close>

lemma lastIndex_SomeD:
  assumes "lastIndex c s = Some i"
  shows "i < length s \<and> s ! i = c \<and> c \<notin> set (drop (Suc i) s)"
proof -
  let ?f = "filter (\<lambda>i. s ! i = c) [0..<length s]"
  obtain xs where r: "rev ?f = i # xs" using assms by (auto simp: lastIndex_def rev_filter split: list.splits)
  then have f: "?f = rev xs @ [i]" using arg_cong [OF r, of rev] by simp
  have mem: "i \<in> set ?f" unfolding f by simp
  have "sorted ?f" by (rule sorted_wrt_filter) simp
  then have le: "j \<le> i" if "j \<in> set ?f" for j using that unfolding f by (auto simp: sorted_append)
  have "c \<notin> set (drop (Suc i) s)"
  proof
    assume "c \<in> set (drop (Suc i) s)"
    then obtain k where k: "k < length s - Suc i" "s ! (Suc i + k) = c" by (auto simp: in_set_conv_nth)
    then have "Suc i + k \<in> set ?f" by simp
    from le [OF this] show False by simp
  qed
  with mem show ?thesis by simp
qed

lemma SplitHostPort_port:
  assumes "SplitHostPort hp = Some (h, p)"
  shows "CHR '':'' \<notin> set p" "CHR ''['' \<notin> set p" "CHR '']'' \<notin> set p"
proof -
  obtain i where i: "lastIndex CHR '':'' hp = Some i" "p = drop (Suc i) hp"
    using assms by (auto simp: SplitHostPort_def Let_def split: option.splits if_splits)
  show "CHR '':'' \<notin> set p" using lastIndex_SomeD [OF i(1)] i(2) by simp
  have sub: "set p \<subseteq> set (drop k hp)" if "k \<le> Suc i" for k using i(2) that by (simp add: set_drop_subset_set_drop)
  have "CHR ''['' \<notin> set (drop 1 hp) \<and> (\<exists>k \<le> Suc i. CHR '']'' \<notin> set (drop k hp)) \<or> CHR ''['' \<notin> set hp \<and> CHR '']'' \<notin> set hp"
    using assms i(1) by (auto simp: SplitHostPort_def Let_def split: option.splits if_splits intro!: exI [of _ i])
  moreover have "set p \<subseteq> set (drop 1 hp)" "set p \<subseteq> set hp" using sub [of 1] sub [of 0] by simp_all
  ultimately show "CHR ''['' \<notin> set p" "CHR '']'' \<notin> set p" using sub by blast+
qed

lemma IP_String_chars:
  assumes "ip_ok ip" "c \<in> set (IP_String ip)"
  shows "isDigit c \<or> isHex c \<or> c = CHR ''.'' \<or> c = CHR '':''"
proof (cases "To4 ip = []")
  case True
  then have "IP_String ip = ip6String ip" using assms(1) by (auto simp: IP_String_def ip_ok_def To4_def)
  then show ?thesis using ip6String_chars assms(2) by auto
next
  case False
  then have "IP_String ip = ip4String (To4 ip)" using assms(1) by (auto simp: IP_String_def ip_ok_def)
  then show ?thesis using ip4String_chars assms(2) by auto
qed

lemma IP_String_brackets: "ip_ok ip \<Longrightarrow> CHR ''['' \<notin> set (IP_String ip) \<and> CHR '']'' \<notin> set (IP_String ip)"
  using IP_String_chars [of ip "CHR ''[''"] IP_String_chars [of ip "CHR '']''"] by auto

lemma hostname_dialled:
  assumes "SplitHostPort addr = Some (host, port)" "ip_ok ip"
  shows "ParseIP (hostname (JoinHostPort (IPAddr_String \<lparr>ipa_IP = ip, ipa_Zone = []\<rparr>) port)) = To16 ip"
proof -
  have "ip \<noteq> []" using assms(2) by (auto simp: ip_ok_def)
  then have "SplitHostPort (JoinHostPort (IP_String ip) port) = Some (IP_String ip, port)"
    using SplitHostPort_JoinHostPort SplitHostPort_port [OF assms(1)] IP_String_brackets [OF assms(2)] by blast
  with \<open>ip \<noteq> []\<close> show ?thesis using ParseIP_IP_String [OF assms(2)] by (simp add: hostname_def IPAddr_String_def)
qed

subsection \<open>Dialling\<close>

lemma peers_ok_networks: "peers_ok peers \<longleftrightarrow> list_all net_ok (concat (map wp_AllowedIPs peers))"
  by (auto simp: peers_ok_def list_all_iff)

lemma routerIPAllowed_total: "list_all net_ok nets \<Longrightarrow> routerIPAllowed ip nets \<noteq> None"
  using unrestrictedLoop_total [of nets "{}"] by (auto simp: routerIPAllowed_def unrestrictedRouterNetworks_def)

lemma routerIPAllowed_inNet:
  assumes "list_all net_ok nets" "routerIPAllowed ip nets = Some True"
  shows "IsGlobalUnicast ip \<and> (\<exists>n \<in> set nets. inNet n (if To4 ip \<noteq> [] then To4 ip else ip))"
proof -
  from assms(2) have g: "IsGlobalUnicast ip" by (auto simp: routerIPAllowed_def split: if_splits)
  obtain i where "i < length nets" "IPNet_Contains (nets ! i) ip"
    using assms(2) by (auto simp: routerIPAllowed_def list_ex_iff split: if_splits option.splits)
  with g show ?thesis using Contains_inNet [of "nets ! i" ip] assms(1) by (auto simp: list_all_length)
qed

lemma checkResolved_total: "list_all net_ok nets \<Longrightarrow> checkResolved nets cs \<noteq> None"
  by (induction cs) (use routerIPAllowed_total in \<open>auto split: option.splits\<close>)

lemma checkResolved_all:
  "checkResolved nets cs = Some None \<Longrightarrow> \<forall>c \<in> set cs. routerIPAllowed (ipa_IP c) nets = Some True"
  by (induction cs) (auto split: option.splits if_splits)

lemma dialRouterContext_allowed:
  assumes "re_wg env = Some wg" "fst (Device wg w) = Some peers" "peers_ok peers"
  shows "\<exists>res w' tried. dialRouterContext env addr w = Some (res, w', tried) \<and> (\<forall>a \<in> set tried. dialAllowed env peers a)"
proof (cases "SplitHostPort addr")
  case None
  then show ?thesis by (simp add: dialRouterContext_def)
next
  case (Some hp)
  obtain host port where hp: "SplitHostPort addr = Some (host, port)" using Some by (cases hp) auto
  let ?nets = "concat (map wp_AllowedIPs peers)"
  have n: "routerAllowedNetworks (re_wg env) w = (Inr ?nets, snd (Device wg w))"
    using assms(1,2) by (cases "Device wg w") (simp add: routerAllowedNetworks_def)
  have ok: "list_all net_ok ?nets" using assms(3) by (simp add: peers_ok_networks)
  show ?thesis
  proof (cases "\<exists>resolved. re_lookup env host = Some resolved \<and> resolved \<noteq> [] \<and> checkResolved ?nets resolved = Some None")
    case True
    then obtain resolved where r: "re_lookup env host = Some resolved" "resolved \<noteq> []" "checkResolved ?nets resolved = Some None" by blast
    have peer: "\<forall>c \<in> set resolved. inPeerNetwork peers (ipa_IP c)"
      using checkResolved_all [OF r(3)] routerIPAllowed_inNet [OF ok] by (fastforce simp: inPeerNetwork_def)
    let ?addrs = "map (\<lambda>c. JoinHostPort (IPAddr_String c) port) resolved"
    have "dialAllowed env peers a" if a: "a \<in> set ?addrs" for a
    proof -
      from a obtain c where c: "c \<in> set resolved" "a = JoinHostPort (IPAddr_String c) port" by auto
      have "ParseIP (hostname a) = To16 (ipa_IP c)" if "ipa_Zone c = []" "ip_ok (ipa_IP c)"
        using hostname_dialled [OF hp that(2)] that(1) c(2) by (cases c) simp
      then show ?thesis using r(1) c peer unfolding dialAllowed_def by blast
    qed
    then have "\<forall>a \<in> set (snd (dialFirst (re_dial env) ?addrs [])). dialAllowed env peers a"
      using dialFirst_subset [of "re_dial env" ?addrs] by blast
    then show ?thesis using hp r n
      by (cases "dialFirst (re_dial env) ?addrs []") (auto simp: dialRouterContext_def split: option.splits)
  next
    case False
    have "checkResolved ?nets resolved \<noteq> None" for resolved by (rule checkResolved_total [OF ok])
    then show ?thesis using hp n False
      by (auto simp: dialRouterContext_def split: option.splits) (metis option.distinct(1))
  qed
qed

lemma dialTLSContext_allowed:
  assumes "re_wg env = Some wg" "fst (Device wg w) = Some peers" "peers_ok peers"
  shows "\<exists>res w' tried. dialTLSContext env sni addr w = Some (res, w', tried) \<and> (\<forall>a \<in> set tried. dialAllowed env peers a)"
  using dialRouterContext_allowed [OF assms, of addr] unfolding dialTLSContext_def Let_def
  by (auto split: sum.split)

lemma routerTransport_allowed:
  assumes "re_wg env = Some wg" "fst (Device wg w) = Some peers" "peers_ok peers"
  shows "\<exists>res w' tried. routerTransport env out w = Some (res, w', tried) \<and> (\<forall>a \<in> set tried. dialAllowed env peers a)"
  using dialRouterContext_allowed [OF assms] dialTLSContext_allowed [OF assms]
  by (auto simp: routerTransport_def Let_def split: option.split)

text \<open>
  C4: whatever a request asks for, the router ends without a panic and every address it dials is one
  of the answers of a single name resolution whose answers are all global unicast addresses inside
  the allowed networks of a WireGuard peer; the address is dialled as a number, so nothing is resolved
  again after the check.  A request is only forwarded when its destination header passed validation
  and its declared body is at most 32 MiB.
\<close>

theorem router_request_confined:
  assumes "re_wg env = Some wg" "fst (Device wg w) = Some peers" "peers_ok peers"
  shows "\<exists>rw' w' tried. handleRouter env r w rw = Some (rw', w', tried) \<and>
      (\<forall>a \<in> set tried. dialAllowed env peers a) \<and>
      (tried \<noteq> [] \<longrightarrow> validateRouterDestination (Header_Get (rq_Header r) pangolinDestHeader) = None \<and>
         rq_ContentLength r \<le> int maxRouterRequestBodyBytes)"
proof -
  obtain res w' tried where t: "routerTransport env (routerRewrite r (cloneRequest r)) w = Some (res, w', tried)"
      "\<forall>a \<in> set tried. dialAllowed env peers a"
    using routerTransport_allowed [OF assms] by blast
  show ?thesis
    by (auto simp: handleRouter_def Let_def routerProxy_ServeHTTP_def t split: sum.split upstream.split)
qed

lemma canon_headers [simp]:
  "CanonicalHeaderKey pangolinDestHeader = ''P-Dest-Header''" "CanonicalHeaderKey pangolinHostHeader = ''P-Dest-Host-Header''"
  by (simp_all add: CanonicalHeaderKey_def pangolinDestHeader_def pangolinHostHeader_def toUpperC_def toLowerC_def char_of_def bit_0)

lemma demo_split: "SplitHostPort ''ai:80'' = Some (''ai'', ''80'')"
  by (simp add: SplitHostPort_def lastIndex_def upt_rec)

lemma demo_dest: "splitDestHeader ''http://ai:80'' = (''http'', ''ai:80'')"
  by (simp add: splitDestHeader_def)

lemma router_demo_dial:
  "dialRouterContext demoRouterEnv ''ai:80'' [demoRouterPeer] = Some (Inr ''10.0.0.9:80'', [demoRouterPeer], [''10.0.0.9:80''])"
proof -
  have "JoinHostPort (IPAddr_String \<lparr>ipa_IP = [10, 0, 0, 9], ipa_Zone = []\<rparr>) ''80'' = ''10.0.0.9:80''"
    by (simp add: JoinHostPort_def IPAddr_String_def IP_String_def To4_def ip4String_def itoaNat.simps)
  then show ?thesis
    by (simp add: dialRouterContext_def demo_split demoRouterEnv_def routerAllowedNetworks_def tableDevice_def demoRouterPeer_def peer_net_allowed)
qed

lemma demo_validate: "validateRouterDestination ''http://ai:80'' = None"
  by (simp add: validateRouterDestination_def demo_dest demo_split Atoi_def parseUint_def isDigit_def digitVal_def int64_ok_def)

lemma demo_header: "Header_Get (rq_Header demoRouterRequest) pangolinDestHeader = ''http://ai:80''"
  by (simp add: Header_Get_def demoRouterRequest_def)

lemma demo_rewrite:
  "ou_Scheme (routerRewrite demoRouterRequest (cloneRequest demoRouterRequest)) = ''http''"
  "ou_URLHost (routerRewrite demoRouterRequest (cloneRequest demoRouterRequest)) = ''ai:80''"
  by (simp_all add: routerRewrite_def demo_header demo_dest Let_def)

lemma demo_env [simp]: "re_addr demoRouterEnv = (\<lambda>_ h. h)" "re_idle demoRouterEnv = (\<lambda>_ _. None)" "re_wg demoRouterEnv = Some tableDevice"
  "re_exchange demoRouterEnv = (\<lambda>_ _ _. Responded [] 200 ''ok'')"
  by (simp_all add: demoRouterEnv_def)

lemma demo_transport:
  "routerTransport demoRouterEnv (routerRewrite demoRouterRequest (cloneRequest demoRouterRequest)) [demoRouterPeer] =
     Some (Inr ''10.0.0.9:80'', [demoRouterPeer], [''10.0.0.9:80''])"
  by (simp add: routerTransport_def demo_rewrite router_demo_dial)

lemma demo_router_dials:
  "\<exists>rw w'. handleRouter demoRouterEnv demoRouterRequest [demoRouterPeer] \<lparr>ResponseWriter = newWriter, statusCode = 200\<rparr>
     = Some (rw, w', [''10.0.0.9:80''])"
proof -
  have "upgradeType (rq_Header demoRouterRequest) = []"
    by (simp add: upgradeType_def connectionTokens_def demoRouterRequest_def)
  then show ?thesis
    by (simp add: handleRouter_def demo_header demo_validate routerProxy_ServeHTTP_def demo_transport isPrint_def)
      (simp add: demoRouterRequest_def maxRouterRequestBodyBytes_def)
qed

theorem router_request_confined_witness:
  "dialAllowed demoRouterEnv [demoRouterPeer] ''10.0.0.9:80''"
proof -
  have "fst (Device tableDevice [demoRouterPeer]) = Some [demoRouterPeer]" by (simp add: tableDevice_def)
  moreover have "peers_ok [demoRouterPeer]" by (simp add: peers_ok_def demoRouterPeer_def demo_net)
  ultimately obtain rw w' tried where
      "handleRouter demoRouterEnv demoRouterRequest [demoRouterPeer] \<lparr>ResponseWriter = newWriter, statusCode = 200\<rparr> = Some (rw, w', tried)"
      "\<forall>a \<in> set tried. dialAllowed demoRouterEnv [demoRouterPeer] a"
    using router_request_confined [of demoRouterEnv tableDevice "[demoRouterPeer]" "[demoRouterPeer]" demoRouterRequest] by fastforce
  then show ?thesis using demo_router_dials by auto
qed

subsection \<open>Validation and rewriting\<close>

lemma splitDestHeader_scheme:
  "splitDestHeader (''http://'' @ x) = (''http'', x)" "splitDestHeader (''https://'' @ x) = (''https'', x)"
  by (simp_all add: splitDestHeader_def)

lemma itoaNat_no_brackets: "CHR '':'' \<notin> set (itoaNat n)" "CHR ''['' \<notin> set (itoaNat n)" "CHR '']'' \<notin> set (itoaNat n)"
  using itoaNat_isDigit not_isDigit_signs by blast+



lemma absent_Del: "\<not> hasKey (fold Header_Del ks h) k" if "k \<in> CanonicalHeaderKey ` set ks \<or> \<not> hasKey h k"
  using that by (induction ks arbitrary: h) (auto simp: Header_Del_key Header_Del_absent)

lemma canon_hop [simp]: "map CanonicalHeaderKey hopHeaders = hopHeaders"
  by (simp add: hopHeaders_def CanonicalHeaderKey_def toUpperC_def toLowerC_def char_of_def bit_0)

lemma canon_forwarded [simp]:
  "map CanonicalHeaderKey [''Forwarded'', ''X-Forwarded-For'', ''X-Forwarded-Host'', ''X-Forwarded-Proto''] =
     [''Forwarded'', ''X-Forwarded-For'', ''X-Forwarded-Host'', ''X-Forwarded-Proto'']"
  by (simp add: CanonicalHeaderKey_def toUpperC_def toLowerC_def char_of_def bit_0)

lemma canon_upgrade [simp]: "CanonicalHeaderKey ''Te'' = ''Te''" "CanonicalHeaderKey ''Upgrade'' = ''Upgrade''" "CanonicalHeaderKey ''Connection'' = ''Connection''"
  by (simp_all add: CanonicalHeaderKey_def toUpperC_def toLowerC_def char_of_def bit_0)

lemma hop_absent:
  assumes "k \<in> set hopHeaders" "k \<notin> {''Te'', ''Upgrade'', ''Connection''}"
  shows "\<not> hasKey (outHeader h) k"
proof -
  have "k \<in> CanonicalHeaderKey ` set hopHeaders" using assms(1) canon_hop by (metis set_map)
  then have "\<not> hasKey (removeHopByHopHeaders h) k" unfolding removeHopByHopHeaders_def by (rule absent_Del [OF disjI1])
  then show ?thesis using assms(2) unfolding outHeader_def Let_def
    by (intro absent_Del disjI2) (simp add: Header_Set_def)
qed

lemma forwarded_absent:
  assumes "k \<in> {''Forwarded'', ''X-Forwarded-For'', ''X-Forwarded-Host'', ''X-Forwarded-Proto''}"
  shows "\<not> hasKey (outHeader h) k"
proof -
  have "k \<in> CanonicalHeaderKey ` set [''Forwarded'', ''X-Forwarded-For'', ''X-Forwarded-Host'', ''X-Forwarded-Proto'']"
    using assms canon_forwarded by (metis list.simps(15) set_map empty_set)
  then show ?thesis unfolding outHeader_def Let_def by (rule absent_Del [OF disjI1])
qed

text \<open>
  What the destination sees.  The two routing headers, the caller's forwarding headers and its
  proxy credentials are gone, the path is the request's path without \<open>/router\<close> and always starts with
  a slash, and the Host (with the TLS server name) is the override when there is one and the
  destination otherwise.
\<close>

theorem router_forwards_clean:
  "let out = routerRewrite r (cloneRequest r) in
     list_all (\<lambda>k. \<not> hasKey (ou_Header out) k)
       [''P-Dest-Header'', ''P-Dest-Host-Header'', ''Forwarded'', ''X-Forwarded-For'', ''X-Forwarded-Host'', ''X-Forwarded-Proto'',
        ''Proxy-Authorization'', ''Proxy-Authenticate'', ''Proxy-Connection'', ''Keep-Alive'', ''Trailer'', ''Transfer-Encoding''] \<and>
     hasPrefix (ou_Path out) ''/'' \<and> ou_RawPath out = [] \<and>
     (ou_Host out, ou_SNI out) =
       (let ho = Header_Get (rq_Header r) pangolinHostHeader in
        if ho = [] then (ou_URLHost out, None) else (ho, Some (hostname ho)))"
proof -
  have h: "ou_Header (routerRewrite r (cloneRequest r)) =
      Header_Del pangolinHostHeader (Header_Del pangolinDestHeader (outHeader (rq_Header r)))"
    by (simp add: routerRewrite_def Let_def cloneRequest_def split: prod.split)
  have k: "\<not> hasKey (ou_Header (routerRewrite r (cloneRequest r))) k"
    if "k \<in> {''P-Dest-Header'', ''P-Dest-Host-Header''} \<or> \<not> hasKey (outHeader (rq_Header r)) k" for k
    using that unfolding h by (auto simp: Header_Del_def)
  have hop: "\<not> hasKey (ou_Header (routerRewrite r (cloneRequest r))) k"
    if "k \<in> set hopHeaders" "k \<notin> {''Te'', ''Upgrade'', ''Connection''}" for k
    using k hop_absent [OF that] by blast
  have fwd: "\<not> hasKey (ou_Header (routerRewrite r (cloneRequest r))) k"
    if "k \<in> {''Forwarded'', ''X-Forwarded-For'', ''X-Forwarded-Host'', ''X-Forwarded-Proto''}" for k
    using k forwarded_absent [OF that] by blast
  have hd: "\<not> hasKey (ou_Header (routerRewrite r (cloneRequest r))) ''P-Dest-Header''" "\<not> hasKey (ou_Header (routerRewrite r (cloneRequest r))) ''P-Dest-Host-Header''"
    by (rule k, simp)+
  have f: "list_all (\<lambda>k. \<not> hasKey (ou_Header (routerRewrite r (cloneRequest r))) k)
       [''Forwarded'', ''X-Forwarded-For'', ''X-Forwarded-Host'', ''X-Forwarded-Proto'']"
    unfolding list_all_iff by (intro ballI fwd) simp
  have p: "list_all (\<lambda>k. \<not> hasKey (ou_Header (routerRewrite r (cloneRequest r))) k)
       [''Proxy-Authorization'', ''Proxy-Authenticate'', ''Proxy-Connection'', ''Keep-Alive'', ''Trailer'', ''Transfer-Encoding'']"
    unfolding list_all_iff by (intro ballI hop) (auto simp: hopHeaders_def)
  have keys: "list_all (\<lambda>k. \<not> hasKey (ou_Header (routerRewrite r (cloneRequest r))) k)
       [''P-Dest-Header'', ''P-Dest-Host-Header'', ''Forwarded'', ''X-Forwarded-For'', ''X-Forwarded-Host'', ''X-Forwarded-Proto'',
        ''Proxy-Authorization'', ''Proxy-Authenticate'', ''Proxy-Connection'', ''Keep-Alive'', ''Trailer'', ''Transfer-Encoding'']"
    using hd f p unfolding list.pred_inject by blast
  show ?thesis unfolding Let_def
    by (intro conjI keys) (simp_all add: routerRewrite_def Let_def cloneRequest_def split: prod.split)
qed

subsection \<open>The recorded status\<close>

lemma infos_codes: "rw_codes (ResponseWriter (fold WriteHeader infos w)) = rw_codes (ResponseWriter w) @ infos"
  by (induction infos arbitrary: w) (simp_all add: WriteHeader_def)

lemma responded_ok:
  "rw_codes (ResponseWriter w) = [] \<Longrightarrow> list_all (\<lambda>i. \<not> finalCode i) infos \<Longrightarrow> finalCode code \<Longrightarrow>
     ww_ok (ww_Write resp (WriteHeader code (fold WriteHeader infos w)))"
  by (rule ww_ok_Write) (simp add: ww_ok_def WriteHeader_def [of code] infos_codes list_all_iff filter_empty_conv)

lemma routerProxy_status:
  assumes ex: "\<And>c out body. finalExchange (re_exchange env c out body)" and n: "rw_codes (ResponseWriter rw0) = []"
    and p: "routerProxy_ServeHTTP env r body w rw0 = Some (rw, w', tried)"
  shows "ww_ok rw"
proof -
  have g: "ww_ok (routerErrorHandler rw0)" unfolding routerErrorHandler_def by (rule ww_ok_httpError [OF n]) simp
  show ?thesis
  proof (cases "isPrint (upgradeType (rq_Header r))")
    case False
    then show ?thesis using p g by (simp add: routerProxy_ServeHTTP_def)
  next
    case True
    let ?out = "routerRewrite r (cloneRequest r)" and ?b = "if rq_ContentLength r = 0 then None else body"
    obtain res w1 t1 where t: "routerTransport env ?out w = Some (res, w1, t1)"
      using p True by (auto simp: routerProxy_ServeHTTP_def Let_def split: option.splits)
    show ?thesis
    proof (cases res)
      case (Inl e)
      then show ?thesis using p g t True by (simp add: routerProxy_ServeHTTP_def)
    next
      case (Inr conn)
      show ?thesis
        using ex [of conn ?out ?b] p g t True Inr responded_ok [OF n]
        by (cases "re_exchange env conn ?out ?b") (simp_all add: routerProxy_ServeHTTP_def finalExchange_def Let_def, blast)
    qed
  qed
qed

text \<open>
  The status the router records is the status the caller receives, on every path: rejected,
  refused by the destination check, failed exchange, or the destination's own answer after any
  number of informational responses.
\<close>

theorem router_status_recorded:
  assumes "handleRouter env r w \<lparr>ResponseWriter = newWriter, statusCode = 200\<rparr> = Some (rw, w', tried)"
    and "\<And>c out body. finalExchange (re_exchange env c out body)"
  shows "wireStatus (ResponseWriter rw) = statusCode rw"
proof -
  let ?w = "\<lparr>ResponseWriter = newWriter, statusCode = 200\<rparr>"
  have n: "rw_codes (ResponseWriter ?w) = []" by (simp add: newWriter_def)
  have e: "ww_ok (httpError msg c ?w)" if "200 \<le> c" for msg c using ww_ok_httpError [OF n] that by blast
  have g: "ww_ok (routerErrorHandler ?w)" unfolding routerErrorHandler_def by (rule e) simp
  have "ww_ok rw"
  proof (cases "routerProxy_ServeHTTP env r (map_option (MaxBytesReader maxRouterRequestBodyBytes) (rq_Body r)) w ?w = Some (rw, w', tried)")
    case True
    then show ?thesis using routerProxy_status [OF assms(2) n] by blast
  next
    case False
    then show ?thesis using assms(1) e by (auto simp: handleRouter_def Let_def split: if_splits)
  qed
  then show ?thesis by (rule ww_ok_status)
qed

theorem router_status_recorded_witness:
  "\<exists>rw w' tried. handleRouter demoRouterEnv demoRouterRequest [demoRouterPeer] \<lparr>ResponseWriter = newWriter, statusCode = 200\<rparr> = Some (rw, w', tried)
     \<and> wireStatus (ResponseWriter rw) = statusCode rw"
  using demo_router_dials router_status_recorded [of demoRouterEnv demoRouterRequest "[demoRouterPeer]"]
  by (fastforce simp: finalExchange_def)

end
