(* ===== verification/Control_API.thy ===== *)
theory Control_API
  imports Peers Relay_Mappings SNI_Routing Router
begin

text \<open>
  The control API of \<open>main.go\<close>: bearer authentication, the handlers for peers, proxy mappings,
  destinations and local SNIs, the health check, and the table of routes that composes them with the
  metrics middleware and the router.

  \<open>apiState\<close> is what the handlers change: the node (device, traffic control, relay, metrics) and the
  SNI proxy, and the notifications started.  \<open>apiEnv\<close> holds the fixed configuration and the outside:
  the clock and name resolution the relay sees, the JSON decoders of the request bodies and SHA-256,
  which are parameters.  The response bodies that print an error value or a JSON document are
  represented by a fixed text.  The paths of the routes are the cleaned ones \<open>http.ServeMux\<close> matches.

  Shown: who is let through; that without the token no state changes on any route; what each update
  requires and does; that the recorded status is the status sent.
\<close>

record ProxyMappingUpdate =
  pu_OldDestination :: PeerDestination
  pu_NewDestination :: PeerDestination

record UpdateDestinationsRequest =
  ud_SourceIP :: string
  ud_SourcePort :: int
  ud_Destinations :: "PeerDestination list"

record ('w, 'k, 'c) apiState =
  as_node :: "('w, 'k) node"
  as_sni :: "'c SNIProxy"
  as_notified :: "(string \<times> string) list"

record ('w, 'k, 'c, 'd) apiEnv =
  ae_cfg :: "('w, 'k) nodeCfg"
  ae_env :: env
  ae_cache :: "'c cacheOps"
  ae_router :: "('w, 'd) routerEnv"
  ae_token :: string
  ae_sha256 :: "string \<Rightarrow> bytes"
  ae_notifyURL :: string
  ae_metricsPath :: "string option"
  ae_decodePeer :: "bytes \<times> bool \<Rightarrow> Peer option"
  ae_decodeMapping :: "bytes \<times> bool \<Rightarrow> ProxyMappingUpdate option"
  ae_decodeDestinations :: "bytes \<times> bool \<Rightarrow> UpdateDestinationsRequest option"
  ae_decodeSNIs :: "bytes \<times> bool \<Rightarrow> string list option"

definition maxControlRequestBodyBytes :: nat where "maxControlRequestBodyBytes = 1048576"

definition limitedBody :: "httpRequest \<Rightarrow> bytes \<times> bool" where
  "limitedBody r = MaxBytesReader maxControlRequestBodyBytes (case rq_Body r of Some b \<Rightarrow> b | None \<Rightarrow> [])"

definition record_call :: "call \<Rightarrow> ('w, 'k, 'c) apiState \<Rightarrow> ('w, 'k, 'c) apiState" where
  "record_call c s = s\<lparr>as_node := (as_node s)\<lparr>nd_calls := nd_calls (as_node s) @ [c]\<rparr>\<rparr>"

text \<open>The goroutine of \<open>notifyPeerChange\<close>: one request when a URL is configured.\<close>

definition notifyPeerChange :: "('w, 'k, 'c, 'd) apiEnv \<Rightarrow> string \<Rightarrow> string \<Rightarrow> ('w, 'k, 'c) apiState \<Rightarrow> ('w, 'k, 'c) apiState" where
  "notifyPeerChange E action publicKey s =
     (if ae_notifyURL E = [] then s else s\<lparr>as_notified := as_notified s @ [(action, publicKey)]\<rparr>)"

definition handleAddPeer :: "('w, 'k, 'c, 'd) apiEnv \<Rightarrow> ('w, 'k, 'c) apiState handler" where
  "handleAddPeer E r s w =
     (case ae_decodePeer E (limitedBody r) of
        None \<Rightarrow> (httpError ''decode'' 400 w, record_call (RecordPeerOperation ''add'' ''error'') s)
      | Some peer \<Rightarrow>
          (case addPeer (ae_cfg E) peer (as_node s) of
             (Some e, n) \<Rightarrow> (httpError ''add'' 500 w, record_call (RecordPeerOperation ''add'' ''error'') (s\<lparr>as_node := n\<rparr>))
           | (None, n) \<Rightarrow>
               (ww_Write ''Peer added successfully'' (WriteHeader 201 w),
                notifyPeerChange E ''add'' (pe_PublicKey peer) (record_call (RecordPeerOperation ''add'' ''success'') (s\<lparr>as_node := n\<rparr>)))))"

definition handleRemovePeer :: "('w, 'k, 'c, 'd) apiEnv \<Rightarrow> ('w, 'k, 'c) apiState handler" where
  "handleRemovePeer E r s w =
     (let publicKey = (case Load (rq_Query r) ''public_key'' of Some (v # _) \<Rightarrow> v | _ \<Rightarrow> []) in
      if publicKey = [] then (httpError ''Missing public_key query parameter'' 400 w, record_call (RecordPeerOperation ''remove'' ''error'') s)
      else case removePeer (ae_cfg E) publicKey (as_node s) of
        (Some e, n) \<Rightarrow> (httpError ''remove'' 500 w, record_call (RecordPeerOperation ''remove'' ''error'') (s\<lparr>as_node := n\<rparr>))
      | (None, n) \<Rightarrow>
          (ww_Write ''Peer removed successfully'' (WriteHeader 200 w),
           notifyPeerChange E ''remove'' publicKey (record_call (RecordPeerOperation ''remove'' ''success'') (s\<lparr>as_node := n\<rparr>))))"

definition handlePeer :: "('w, 'k, 'c, 'd) apiEnv \<Rightarrow> ('w, 'k, 'c) apiState handler" where
  "handlePeer E r s w =
     (if rq_Method r = ''POST'' then handleAddPeer E r s w
      else if rq_Method r = ''DELETE'' then handleRemovePeer E r s w
      else (httpError ''Method not allowed'' 405 w, s))"

definition validateMappingUpdate :: "ProxyMappingUpdate \<Rightarrow> string option" where
  "validateMappingUpdate u =
     (if DestinationIP (pu_OldDestination u) = [] \<or> DestinationIP (pu_NewDestination u) = []
      then Some ''Both old and new destination IP addresses are required''
      else if DestinationPort (pu_OldDestination u) \<le> 0 \<or> DestinationPort (pu_NewDestination u) \<le> 0
      then Some ''Both old and new destination ports must be positive integers''
      else None)"

definition setRelay :: "server \<Rightarrow> ('w, 'k, 'c) apiState \<Rightarrow> ('w, 'k, 'c) apiState" where
  "setRelay relay s = s\<lparr>as_node := (as_node s)\<lparr>nd_relay := Some relay\<rparr>\<rparr>"

definition handleUpdateProxyMapping :: "('w, 'k, 'c, 'd) apiEnv \<Rightarrow> ('w, 'k, 'c) apiState handler" where
  "handleUpdateProxyMapping E r s w =
     (if rq_Method r \<noteq> ''POST'' then (httpError ''Method not allowed'' 405 w, s)
      else case ae_decodeMapping E (limitedBody r) of
        None \<Rightarrow> (httpError ''Failed to decode request body'' 400 w, s)
      | Some update \<Rightarrow>
          (case validateMappingUpdate update of
             Some msg \<Rightarrow> (httpError msg 400 w, s)
           | None \<Rightarrow> (case nd_relay (as_node s) of
              None \<Rightarrow> (httpError ''Proxy server is not available'' 500 w, record_call (RecordProxyMappingUpdateRequest ''error'') s)
            | Some relay \<Rightarrow>
                (case UpdateDestinationInMappings (ae_env E) (pu_OldDestination update) (pu_NewDestination update) relay of
                   (updatedCount, relay') \<Rightarrow>
                     (ww_Write (Itoa updatedCount) (WriteHeader 200 w),
                      record_call (RecordProxyMappingUpdateRequest ''success'') (setRelay relay' s))))))"

fun validateEach :: "nat \<Rightarrow> PeerDestination list \<Rightarrow> string option" where
  "validateEach i [] = None"
| "validateEach i (dest # dests) =
     (if DestinationIP dest = [] then Some (''Destination IP is required for destination '' @ itoaNat i)
      else if DestinationPort dest \<le> 0 then Some (''Destination port must be a positive integer for destination '' @ itoaNat i)
      else validateEach (Suc i) dests)"

definition validateDestinations :: "UpdateDestinationsRequest \<Rightarrow> string option" where
  "validateDestinations request =
     (if ud_SourceIP request = [] then Some ''Source IP address is required''
      else if ud_SourcePort request \<le> 0 then Some ''Source port must be a positive integer''
      else if ud_Destinations request = [] then Some ''At least one destination is required''
      else validateEach 0 (ud_Destinations request))"

definition handleUpdateDestinations :: "('w, 'k, 'c, 'd) apiEnv \<Rightarrow> ('w, 'k, 'c) apiState handler" where
  "handleUpdateDestinations E r s w =
     (if rq_Method r \<noteq> ''POST'' then (httpError ''Method not allowed'' 405 w, s)
      else case ae_decodeDestinations E (limitedBody r) of
        None \<Rightarrow> (httpError ''Failed to decode request body'' 400 w, s)
      | Some request \<Rightarrow>
          (case validateDestinations request of
             Some msg \<Rightarrow> (httpError msg 400 w, s)
           | None \<Rightarrow> (case nd_relay (as_node s) of
              None \<Rightarrow> (httpError ''Proxy server is not available'' 500 w, record_call (RecordDestinationsUpdateRequest ''error'') s)
            | Some relay \<Rightarrow>
                (ww_Write ''Destinations updated successfully'' (WriteHeader 200 w),
                 record_call (RecordDestinationsUpdateRequest ''success'')
                   (setRelay (UpdateProxyMapping (ae_env E) (ud_SourceIP request) (ud_SourcePort request) (ud_Destinations request) relay) s)))))"

definition handleUpdateLocalSNIs :: "('w, 'k, 'c, 'd) apiEnv \<Rightarrow> ('w, 'k, 'c) apiState handler" where
  "handleUpdateLocalSNIs E r s w =
     (if rq_Method r \<noteq> ''POST'' then (httpError ''Method not allowed'' 405 w, s)
      else case ae_decodeSNIs E (limitedBody r) of
        None \<Rightarrow> (httpError ''Invalid JSON payload'' 400 w, s)
      | Some fullDomains \<Rightarrow>
          (ww_Write ''Local SNIs updated successfully'' (WriteHeader 200 w),
           s\<lparr>as_sni := UpdateLocalSNIs (ae_cache E) fullDomains (as_sni s)\<rparr>))"

definition handleHealthz :: "('w, 'k, 'c) apiState handler" where
  "handleHealthz r s w =
     (if rq_Method r \<noteq> ''GET'' then (httpError ''Method not allowed'' 405 w, s)
      else (ww_Write ''ok'' (WriteHeader 200 w), s))"

subsection \<open>Authentication and routes\<close>

text \<open>What sits behind a route: it takes the plain writer and may panic.\<close>

type_synonym ('w, 'k, 'c) route = "httpRequest \<Rightarrow> ('w, 'k, 'c) apiState \<Rightarrow> responseWriter \<Rightarrow> (responseWriter \<times> ('w, 'k, 'c) apiState) option"

definition maxTokenLen :: nat where "maxTokenLen = 1024"

definition authorized :: "('w, 'k, 'c, 'd) apiEnv \<Rightarrow> httpRequest \<Rightarrow> bool" where
  "authorized E r =
     (case cut (Header_Get (rq_Header r) ''Authorization'') '' '' of
        None \<Rightarrow> False
      | Some (scheme, token) \<Rightarrow>
          let token' = (if length token > maxTokenLen then take maxTokenLen token else token) in
          equalFold scheme ''Bearer'' \<and> token' \<noteq> [] \<and> ae_sha256 E token' = ae_sha256 E (ae_token E))"

definition requireControlAuth :: "('w, 'k, 'c, 'd) apiEnv \<Rightarrow> ('w, 'k, 'c) route \<Rightarrow> ('w, 'k, 'c) route" where
  "requireControlAuth E nxt r s w =
     (if \<not> authorized E r
      then Some (rw_Write ''Unauthorized'' (w\<lparr>rw_header := Header_Set ''WWW-Authenticate'' ''Bearer'' (rw_header w), rw_codes := rw_codes w @ [401]\<rparr>), s)
      else nxt r s w)"

definition measured :: "string \<Rightarrow> rat \<Rightarrow> ('w, 'k, 'c) apiState handler \<Rightarrow> ('w, 'k, 'c) route" where
  "measured endpoint d h r s w =
     (case httpMetricsMiddleware endpoint h d r s w of (w', s', calls) \<Rightarrow> Some (w', fold record_call calls s'))"

definition routerRoute :: "('w, 'k, 'c, 'd) apiEnv \<Rightarrow> rat \<Rightarrow> ('w, 'k, 'c) route" where
  "routerRoute E d r s w =
     (case handleRouter (ae_router E) r (nd_wg (as_node s)) \<lparr>ResponseWriter = w, statusCode = 200\<rparr> of
        None \<Rightarrow> None
      | Some (ww, wg', _) \<Rightarrow>
          measured ''router'' d (\<lambda>_ s' _. (ww, s'\<lparr>as_node := (as_node s')\<lparr>nd_wg := wg'\<rparr>\<rparr>)) r s w)"

definition metricsHandler :: "('w, 'k, 'c) route" where
  "metricsHandler r s w = Some (rw_Write ''metrics'' w, s)"

definition apiMux :: "('w, 'k, 'c, 'd) apiEnv \<Rightarrow> rat \<Rightarrow> ('w, 'k, 'c) route" where
  "apiMux E d r s w =
     (if rq_Path r = ''/peer'' then requireControlAuth E (measured ''peer'' d (handlePeer E)) r s w
      else if rq_Path r = ''/update-proxy-mapping'' then requireControlAuth E (measured ''update_proxy_mapping'' d (handleUpdateProxyMapping E)) r s w
      else if rq_Path r = ''/update-destinations'' then requireControlAuth E (measured ''update_destinations'' d (handleUpdateDestinations E)) r s w
      else if rq_Path r = ''/update-local-snis'' then requireControlAuth E (measured ''update_local_snis'' d (handleUpdateLocalSNIs E)) r s w
      else if rq_Path r = ''/healthz'' then measured ''healthz'' d handleHealthz r s w
      else if ae_metricsPath E = Some (rq_Path r) then requireControlAuth E metricsHandler r s w
      else if hasPrefix (rq_Path r) ''/router/'' then routerRoute E d r s w
      else Some (rw_Write ''404 page not found'' (w\<lparr>rw_codes := rw_codes w @ [404]\<rparr>), s))"

text \<open>The paths that need the token, and what must not change without it.\<close>

definition protectedPaths :: "string list" where
  "protectedPaths = [''/peer'', ''/update-proxy-mapping'', ''/update-destinations'', ''/update-local-snis'']"

definition destinationsOk :: "UpdateDestinationsRequest \<Rightarrow> bool" where
  "destinationsOk u \<longleftrightarrow> ud_SourceIP u \<noteq> [] \<and> ud_SourcePort u > 0 \<and> ud_Destinations u \<noteq> [] \<and>
     list_all (\<lambda>d. DestinationIP d \<noteq> [] \<and> DestinationPort d > 0) (ud_Destinations u)"

definition untouched :: "('w \<Rightarrow> Key set) \<Rightarrow> ('w, 'k, 'c) apiState \<Rightarrow> ('w, 'k, 'c) apiState \<Rightarrow> bool" where
  "untouched peers s s' \<longleftrightarrow> as_sni s' = as_sni s \<and> as_notified s' = as_notified s \<and>
     nd_relay (as_node s') = nd_relay (as_node s) \<and> nd_world (as_node s') = nd_world (as_node s) \<and>
     peers (nd_wg (as_node s')) = peers (nd_wg (as_node s))"

definition demoSha :: "string \<Rightarrow> bytes" where
  "demoSha s = map (\<lambda>c. of_nat (of_char c)) s"

definition demoApi :: "string \<Rightarrow> (wgPeer list, nat, (string, RouteRecord option \<times> time) gomap, string) apiEnv" where
  "demoApi token = \<lparr>ae_cfg = demoCfg, ae_env = wEnv 1, ae_cache = demoCache, ae_router = demoRouterEnv, ae_token = token,
     ae_sha256 = demoSha, ae_notifyURL = [], ae_metricsPath = None, ae_decodePeer = (\<lambda>_. None), ae_decodeMapping = (\<lambda>_. None),
     ae_decodeDestinations = (\<lambda>_. None), ae_decodeSNIs = (\<lambda>_. Some [''own''])\<rparr>"

definition demoState :: "(wgPeer list, nat, (string, RouteRecord option \<times> time) gomap) apiState" where
  "demoState = \<lparr>as_node = demoNode [] None, as_sni = demoProxy, as_notified = []\<rparr>"

definition demoCall :: "string \<Rightarrow> httpRequest" where
  "demoCall auth = \<lparr>rq_Method = ''POST'', rq_Path = ''/update-local-snis'', rq_RawPath = [], rq_Query = [],
     rq_Header = [(''Authorization'', [auth])], rq_Host = ''gerbil'', rq_ContentLength = 0, rq_Body = Some []\<rparr>"

subsection \<open>Authentication\<close>

lemma cut_space: "cut s '' '' = Some (a, b) \<longleftrightarrow> s = a @ '' '' @ b \<and> CHR '' '' \<notin> set a"
proof
  assume c: "cut s '' '' = Some (a, b)"
  then have "s = a @ '' '' @ b" by (rule cut_Some)
  moreover have "CHR '' '' \<notin> set a" using c by (induction s arbitrary: a) (auto split: if_splits)
  ultimately show "s = a @ '' '' @ b \<and> CHR '' '' \<notin> set a" ..
next
  assume "s = a @ '' '' @ b \<and> CHR '' '' \<notin> set a"
  then show "cut s '' '' = Some (a, b)" using cut_char [of "CHR '' ''" a b] by simp
qed

lemma token_take: "(if length t > maxTokenLen then take maxTokenLen t else t) = take maxTokenLen t"
  by simp

lemma authorized_iff:
  "authorized E r \<longleftrightarrow> (\<exists>scheme token. Header_Get (rq_Header r) ''Authorization'' = scheme @ '' '' @ token \<and> CHR '' '' \<notin> set scheme \<and>
      equalFold scheme ''Bearer'' \<and> take maxTokenLen token \<noteq> [] \<and> ae_sha256 E (take maxTokenLen token) = ae_sha256 E (ae_token E))"
proof -
  let ?h = "Header_Get (rq_Header r) ''Authorization''"
  have "authorized E r \<longleftrightarrow> (\<exists>scheme token. cut ?h '' '' = Some (scheme, token) \<and> equalFold scheme ''Bearer'' \<and>
      take maxTokenLen token \<noteq> [] \<and> ae_sha256 E (take maxTokenLen token) = ae_sha256 E (ae_token E))"
    unfolding authorized_def token_take Let_def by (cases "cut ?h '' ''") (simp_all split: prod.split)
  then show ?thesis unfolding cut_space by blast
qed

text \<open>
  C35: a request passes the bearer check exactly when its \<open>Authorization\<close> header is the scheme Bearer in
  any case, one space, and a token whose first 1024 bytes are the configured token, provided SHA-256
  has no collision with the configured token.  Consequently a configured token of more than 1024
  bytes can never be presented.
\<close>

theorem control_auth_exact:
  assumes "\<And>t. ae_sha256 E t = ae_sha256 E (ae_token E) \<Longrightarrow> t = ae_token E"
  shows "(authorized E r \<longleftrightarrow>
      (\<exists>scheme token. Header_Get (rq_Header r) ''Authorization'' = scheme @ '' '' @ token \<and> CHR '' '' \<notin> set scheme \<and>
         equalFold scheme ''Bearer'' \<and> take maxTokenLen token = ae_token E \<and> ae_token E \<noteq> [])) \<and>
    (length (ae_token E) > maxTokenLen \<longrightarrow> \<not> authorized E r)"
proof -
  have e: "ae_sha256 E t = ae_sha256 E (ae_token E) \<longleftrightarrow> t = ae_token E" for t using assms by blast
  have "authorized E r \<longleftrightarrow>
      (\<exists>scheme token. Header_Get (rq_Header r) ''Authorization'' = scheme @ '' '' @ token \<and> CHR '' '' \<notin> set scheme \<and>
         equalFold scheme ''Bearer'' \<and> take maxTokenLen token = ae_token E \<and> ae_token E \<noteq> [])"
    unfolding authorized_iff e by metis
  then show ?thesis by (metis length_take min.cobounded2 not_le)
qed

subsection \<open>Without the token\<close>

lemma requireControlAuth_refuses:
  "\<not> authorized E r \<Longrightarrow> rw_codes w = [] \<Longrightarrow> requireControlAuth E nxt r s w = Some (w', s') \<Longrightarrow> s' = s \<and> wireStatus w' = 401"
  by (auto simp: requireControlAuth_def wireStatus_def rw_Write_def finalCode_def)

lemma dialRouter_device:
  "dialRouterContext env addr w = Some (res, w', tried) \<Longrightarrow> w' = w \<or> (\<exists>c. re_wg env = Some c \<and> w' = snd (Device c w))"
  by (auto simp: dialRouterContext_def routerAllowedNetworks_def split: option.splits prod.splits sum.splits if_splits)

lemma dialTLS_device:
  "dialTLSContext env sni addr w = Some (res, w', tried) \<Longrightarrow> w' = w \<or> (\<exists>c. re_wg env = Some c \<and> w' = snd (Device c w))"
  unfolding dialTLSContext_def Let_def
  by (auto split: option.splits prod.splits sum.splits if_splits dest!: dialRouter_device)

lemma routerTransport_device:
  "routerTransport env out w = Some (res, w', tried) \<Longrightarrow> w' = w \<or> (\<exists>c. re_wg env = Some c \<and> w' = snd (Device c w))"
  unfolding routerTransport_def Let_def
  by (auto split: option.splits if_splits dest!: dialRouter_device dialTLS_device)

lemma handleRouter_device:
  assumes "handleRouter env r w rw = Some (rw', w', tried)"
  shows "w' = w \<or> (\<exists>c. re_wg env = Some c \<and> w' = snd (Device c w))"
  using assms unfolding handleRouter_def routerProxy_ServeHTTP_def Let_def
  by (auto split: if_splits option.splits prod.splits sum.splits upstream.splits dest!: routerTransport_device)

lemma record_call_untouched [simp]: "untouched peers s (record_call c s') \<longleftrightarrow> untouched peers s s'"
  by (simp add: untouched_def record_call_def)

lemma record_calls_untouched [simp]: "untouched peers s (fold record_call cs s') \<longleftrightarrow> untouched peers s s'"
  by (induction cs arbitrary: s') simp_all

lemma untouched_refl [simp]: "untouched peers s s"
  by (simp add: untouched_def)

lemma measured_untouched:
  "measured ep d h r s w = Some (w', s') \<Longrightarrow> (\<And>ww. untouched peers s (snd (h r s ww))) \<Longrightarrow> untouched peers s s'"
  by (auto simp: measured_def httpMetricsMiddleware_def Let_def split: prod.splits) (metis snd_conv)

lemma mux_untouched:
  assumes "wg_laws (nc_wg (ae_cfg E)) peers" "re_wg (ae_router E) = Some (nc_wg (ae_cfg E))" "rw_codes w = []"
    and "\<not> authorized E r \<or> rq_Path r \<notin> set protectedPaths" "apiMux E d r s w = Some (w', s')"
  shows "untouched peers s s'"
proof -
  have h: "untouched peers s s'" if "measured ''healthz'' d handleHealthz r s w = Some (w', s')"
    by (rule measured_untouched [OF that]) (simp add: handleHealthz_def)
  have rt: "untouched peers s s'" if rr: "routerRoute E d r s w = Some (w', s')"
  proof -
    obtain ww wg' tried where hr: "handleRouter (ae_router E) r (nd_wg (as_node s)) \<lparr>ResponseWriter = w, statusCode = 200\<rparr> = Some (ww, wg', tried)"
      using rr by (cases "handleRouter (ae_router E) r (nd_wg (as_node s)) \<lparr>ResponseWriter = w, statusCode = 200\<rparr>") (auto simp: routerRoute_def)
    have pw: "peers wg' = peers (nd_wg (as_node s))"
      using handleRouter_device [OF hr] assms(2) wg_lawsD(1) [OF assms(1)] by auto
    have "measured ''router'' d (\<lambda>_ s' _. (ww, s'\<lparr>as_node := (as_node s')\<lparr>nd_wg := wg'\<rparr>\<rparr>)) r s w = Some (w', s')"
      using rr hr by (simp add: routerRoute_def)
    then show ?thesis by (rule measured_untouched) (simp add: untouched_def pw)
  qed
  show ?thesis using assms(4)
  proof
    assume "\<not> authorized E r"
    note refuse = requireControlAuth_refuses [OF this assms(3)]
    have "s' = s \<or> measured ''healthz'' d handleHealthz r s w = Some (w', s') \<or> routerRoute E d r s w = Some (w', s')"
      using assms(5) refuse by (auto simp: apiMux_def split: if_splits)
    then show ?thesis using h rt by auto
  next
    assume "rq_Path r \<notin> set protectedPaths"
    then have "untouched peers s s' \<or> measured ''healthz'' d handleHealthz r s w = Some (w', s') \<or> routerRoute E d r s w = Some (w', s')"
      using assms(5) by (auto simp: protectedPaths_def apiMux_def requireControlAuth_def metricsHandler_def split: if_splits)
    then show ?thesis using h rt by blast
  qed
qed

text \<open>
  C5: nothing is changed without the token.  Whatever the path, the method and the body are, a
  request that does not present the token leaves the peers, the traffic limits, the relay, the SNI
  proxy and the notifications as they were; on the control paths it is answered with 401.
\<close>

theorem control_state_protected:
  assumes "wg_laws (nc_wg (ae_cfg E)) peers" "re_wg (ae_router E) = Some (nc_wg (ae_cfg E))" "rw_codes w = []"
    and "\<not> authorized E r" "apiMux E d r s w = Some (w', s')"
  shows "untouched peers s s' \<and> (rq_Path r \<in> set protectedPaths \<longrightarrow> wireStatus w' = 401)"
proof -
  have "s' = s \<and> wireStatus w' = 401" if "rq_Path r \<in> set protectedPaths"
    using that assms(5) requireControlAuth_refuses [OF assms(4,3)] by (auto simp: protectedPaths_def apiMux_def)
  then show ?thesis using mux_untouched [OF assms(1-3) _ assms(5)] assms(4) by blast
qed

subsection \<open>Updates and statuses\<close>

lemma validateEach_ok: "validateEach i ds = None \<longleftrightarrow> list_all (\<lambda>d. DestinationIP d \<noteq> [] \<and> DestinationPort d > 0) ds"
  by (induction i ds rule: validateEach.induct) auto

lemma validateDestinations_ok: "validateDestinations u = None \<longleftrightarrow> destinationsOk u"
  by (auto simp: validateDestinations_def destinationsOk_def validateEach_ok)

lemma record_call_relay [simp]: "nd_relay (as_node (record_call c s)) = nd_relay (as_node s)"
  by (simp add: record_call_def)

lemma setRelay_relay [simp]: "nd_relay (as_node (setRelay relay s)) = Some relay"
  by (simp add: setRelay_def)

text \<open>
  The destinations of a client are replaced exactly by a POST whose body decodes to a request with
  a source, at least one destination and only complete destinations with positive ports, while a
  relay runs; it is answered with 200 and the client's mapping then holds the requested list.  Every
  other request is answered with 405, 400 or 500 and leaves the relay as it was.
\<close>

theorem update_destinations_exact:
  "case handleUpdateDestinations E r s w of (w', s') \<Rightarrow>
     (if rq_Method r = ''POST'' \<and> (\<exists>req. ae_decodeDestinations E (limitedBody r) = Some req \<and> destinationsOk req) \<and> nd_relay (as_node s) \<noteq> None
      then statusCode w' = 200 \<and>
        (\<exists>req relay'. ae_decodeDestinations E (limitedBody r) = Some req \<and> nd_relay (as_node s') = Some relay' \<and>
           Load (s_proxyMappings relay') (fmtHostPort (ud_SourceIP req) (ud_SourcePort req)) =
             Some \<lparr>pm_Destinations = ud_Destinations req, pm_LastUsed = e_now (ae_env E)\<rparr>)
      else statusCode w' \<in> {405, 400, 500} \<and> nd_relay (as_node s') = nd_relay (as_node s))"
proof (cases "rq_Method r = ''POST''")
  case False
  then show ?thesis by (simp add: handleUpdateDestinations_def)
next
  case post: True
  show ?thesis
  proof (cases "ae_decodeDestinations E (limitedBody r)")
    case None
    then show ?thesis using post by (simp add: handleUpdateDestinations_def)
  next
    case (Some req)
    then show ?thesis using post validateDestinations_ok [of req]
      by (cases "validateDestinations req"; cases "nd_relay (as_node s)")
        (simp_all add: handleUpdateDestinations_def UpdateProxyMapping_def putMapping_def Load_Store Let_def)
  qed
qed

lemma fresh_codes [simp]: "rw_codes (ResponseWriter \<lparr>ResponseWriter = w, statusCode = 200\<rparr>) = rw_codes w"
  by simp

lemma responses_ok [simp]:
  "rw_codes (ResponseWriter w) = [] \<Longrightarrow> 200 \<le> c \<Longrightarrow> ww_ok (httpError msg c w)"
  "rw_codes (ResponseWriter w) = [] \<Longrightarrow> 200 \<le> c \<Longrightarrow> ww_ok (ww_Write msg (WriteHeader c w))"
  by (auto intro: ww_ok_httpError ww_ok_Write ww_ok_WriteHeader)

lemma handlers_ok:
  assumes "rw_codes (ResponseWriter w) = []"
  shows "ww_ok (fst (handlePeer E r s w))" "ww_ok (fst (handleUpdateProxyMapping E r s w))" "ww_ok (fst (handleUpdateDestinations E r s w))"
    "ww_ok (fst (handleUpdateLocalSNIs E r s w))" "ww_ok (fst (handleHealthz r s w))"
  using assms
  by (auto simp: handlePeer_def handleAddPeer_def handleRemovePeer_def handleUpdateProxyMapping_def handleUpdateDestinations_def
      handleUpdateLocalSNIs_def handleHealthz_def Let_def split: option.split prod.split)

lemma record_calls: "nd_calls (as_node (fold record_call cs s)) = nd_calls (as_node s) @ cs"
  by (induction cs arbitrary: s) (simp_all add: record_call_def)

lemma measured_status:
  assumes "measured ep d h r s w = Some (w', s')" "rw_codes w = []" "\<And>ww. rw_codes (ResponseWriter ww) = [] \<Longrightarrow> ww_ok (fst (h r s ww))"
  shows "\<exists>pre. nd_calls (as_node s') = pre @ [RecordHTTPRequest ep (rq_Method r) (itoaNat (wireStatus w')), RecordHTTPRequestDuration ep (rq_Method r) d]"
proof -
  obtain w1 s1 calls where m: "httpMetricsMiddleware ep h d r s w = (w1, s1, calls)" by (metis prod_cases3)
  have "calls = [RecordHTTPRequest ep (rq_Method r) (itoaNat (wireStatus w1)), RecordHTTPRequestDuration ep (rq_Method r) d]"
    using middleware_status [of h r s w ep d] assms(2,3) m by simp
  moreover have "w' = w1" "s' = fold record_call calls s1" using assms(1) m by (simp_all add: measured_def)
  ultimately show ?thesis by (simp only: record_calls) blast
qed

text \<open>
  On the control paths and the health check, an authorised request leaves as its last two
  samples one request count and one duration, labelled with its method and with the very status the
  client receives.
\<close>

theorem api_status_recorded:
  assumes "rw_codes w = []" "authorized E r" "rq_Path r \<in> set (''/healthz'' # protectedPaths)" "apiMux E d r s w = Some (w', s')"
  shows "\<exists>pre ep. nd_calls (as_node s') =
      pre @ [RecordHTTPRequest ep (rq_Method r) (itoaNat (wireStatus w')), RecordHTTPRequestDuration ep (rq_Method r) d]"
proof -
  from assms(3) consider "rq_Path r = ''/healthz''" | "rq_Path r = ''/peer''" | "rq_Path r = ''/update-proxy-mapping''"
      | "rq_Path r = ''/update-destinations''" | "rq_Path r = ''/update-local-snis''" by (auto simp: protectedPaths_def)
  then show ?thesis
  proof cases
    case 1
    then have "measured ''healthz'' d handleHealthz r s w = Some (w', s')" using assms(2,4) by (simp add: apiMux_def requireControlAuth_def)
    from measured_status [OF this assms(1) handlers_ok(5)] show ?thesis by blast
  next
    case 2
    then have "measured ''peer'' d (handlePeer E) r s w = Some (w', s')" using assms(2,4) by (simp add: apiMux_def requireControlAuth_def)
    from measured_status [OF this assms(1) handlers_ok(1)] show ?thesis by blast
  next
    case 3
    then have "measured ''update_proxy_mapping'' d (handleUpdateProxyMapping E) r s w = Some (w', s')" using assms(2,4) by (simp add: apiMux_def requireControlAuth_def)
    from measured_status [OF this assms(1) handlers_ok(2)] show ?thesis by blast
  next
    case 4
    then have "measured ''update_destinations'' d (handleUpdateDestinations E) r s w = Some (w', s')" using assms(2,4) by (simp add: apiMux_def requireControlAuth_def)
    from measured_status [OF this assms(1) handlers_ok(3)] show ?thesis by blast
  next
    case 5
    then have "measured ''update_local_snis'' d (handleUpdateLocalSNIs E) r s w = Some (w', s')" using assms(2,4) by (simp add: apiMux_def requireControlAuth_def)
    from measured_status [OF this assms(1) handlers_ok(4)] show ?thesis by blast
  qed
qed

subsection \<open>A concrete control plane\<close>

lemma demoSha_inj: "demoSha s = demoSha t \<longleftrightarrow> s = t"
proof -
  have "(of_nat (of_char c) :: byte) = of_nat (of_char d) \<longleftrightarrow> c = d" for c d :: char
    by (simp add: word_of_nat_eq_iff take_bit_nat_eq_self)
  then have "inj (\<lambda>c :: char. of_nat (of_char c) :: byte)" by (simp add: inj_def)
  then show ?thesis unfolding demoSha_def by (rule inj_map_eq_map)
qed

lemma demo_header_auth: "Header_Get (rq_Header (demoCall auth)) ''Authorization'' = auth"
  by (simp add: Header_Get_def demoCall_def CanonicalHeaderKey_def toUpperC_def toLowerC_def char_of_def bit_0)

lemma demoApi_sel [simp]: "ae_sha256 (demoApi t) = demoSha" "ae_token (demoApi t) = t" "ae_cfg (demoApi t) = demoCfg" "ae_router (demoApi t) = demoRouterEnv"
  by (simp_all add: demoApi_def)

theorem control_auth_exact_witness:
  "authorized (demoApi ''0123456789abcdef0123456789abcdef'') (demoCall ''bEaReR 0123456789abcdef0123456789abcdef'')"
proof -
  have "Header_Get (rq_Header (demoCall ''bEaReR 0123456789abcdef0123456789abcdef'')) ''Authorization'' = ''bEaReR'' @ '' '' @ ''0123456789abcdef0123456789abcdef''"
    by (simp add: demo_header_auth)
  moreover have "equalFold ''bEaReR'' ''Bearer''" by (simp add: equalFold_def toLower_def toLowerC_def char_of_def bit_0)
  moreover have "take maxTokenLen ''0123456789abcdef0123456789abcdef'' = ''0123456789abcdef0123456789abcdef''" by (simp add: maxTokenLen_def)
  ultimately show ?thesis
    using control_auth_exact [of "demoApi ''0123456789abcdef0123456789abcdef''" "demoCall ''bEaReR 0123456789abcdef0123456789abcdef''"] demoSha_inj
    by fastforce
qed

lemma demo_unauthorized: "\<not> authorized (demoApi ''0123456789abcdef0123456789abcdef'') (demoCall ''Basic x'')"
  by (simp add: authorized_def demo_header_auth equalFold_def toLower_def toLowerC_def char_of_def bit_0)

theorem control_state_protected_witness:
  "case apiMux (demoApi ''0123456789abcdef0123456789abcdef'') 0 (demoCall ''Basic x'') demoState newWriter of
     None \<Rightarrow> False
   | Some (w', s') \<Rightarrow> wireStatus w' = 401 \<and> untouched (\<lambda>ps. set (map wp_PublicKey ps)) demoState s'"
proof -
  have m: "\<exists>w' s'. apiMux (demoApi ''0123456789abcdef0123456789abcdef'') 0 (demoCall ''Basic x'') demoState newWriter = Some (w', s')"
    using demo_unauthorized by (simp add: apiMux_def demoCall_def requireControlAuth_def)
  then obtain w' s' where w: "apiMux (demoApi ''0123456789abcdef0123456789abcdef'') 0 (demoCall ''Basic x'') demoState newWriter = Some (w', s')" by blast
  have laws: "wg_laws (nc_wg (ae_cfg (demoApi ''0123456789abcdef0123456789abcdef''))) (\<lambda>ps. set (map wp_PublicKey ps))"
    using tableDevice_laws by simp
  have rt: "re_wg (ae_router (demoApi ''0123456789abcdef0123456789abcdef'')) = Some (nc_wg (ae_cfg (demoApi ''0123456789abcdef0123456789abcdef'')))"
    by simp
  have "rq_Path (demoCall ''Basic x'') \<in> set protectedPaths" by (simp add: demoCall_def protectedPaths_def)
  then show ?thesis using control_state_protected [OF laws rt _ demo_unauthorized w] w by (simp add: newWriter_def)
qed

theorem api_status_recorded_witness:
  "\<exists>w' s' pre ep. apiMux (demoApi ''t'') 0 (demoCall ''Bearer t'') demoState newWriter = Some (w', s') \<and>
     nd_calls (as_node s') = pre @ [RecordHTTPRequest ep ''POST'' (itoaNat (wireStatus w')), RecordHTTPRequestDuration ep ''POST'' 0]"
proof -
  have a: "authorized (demoApi ''t'') (demoCall ''Bearer t'')"
    by (simp add: authorized_def demo_header_auth equalFold_def maxTokenLen_def)
  obtain w' s' where w: "apiMux (demoApi ''t'') 0 (demoCall ''Bearer t'') demoState newWriter = Some (w', s')"
  proof -
    have "measured ''update_local_snis'' 0 (handleUpdateLocalSNIs (demoApi ''t'')) (demoCall ''Bearer t'') demoState newWriter \<noteq> None"
      by (simp add: measured_def split: prod.split)
    then have "apiMux (demoApi ''t'') 0 (demoCall ''Bearer t'') demoState newWriter \<noteq> None"
      using a by (simp add: apiMux_def demoCall_def requireControlAuth_def)
    then show thesis using that by auto
  qed
  have p: "rq_Path (demoCall ''Bearer t'') \<in> set (''/healthz'' # protectedPaths)" "rq_Method (demoCall ''Bearer t'') = ''POST''"
    by (simp_all add: demoCall_def protectedPaths_def)
  from api_status_recorded [OF _ a p(1) w] p(2) w show ?thesis by (auto simp: newWriter_def)
qed

end
