(* ===== verification/Node_Refinement.thy ===== *)
theory Node_Refinement
  imports Control_API
begin

text \<open>
  What the control API promises, as an abstract machine: a node is the set of its peers' keys, a map
  from client addresses to destinations (when it relays) and a set of local hostnames.  Each request
  either has its abstract effect or none.

  \<open>absNode\<close> abstracts the concrete state; \<open>api_refines_spec\<close> is the functional refinement: the abstract
  state after any request is the abstract effect of the request when the answer is a success that the
  token allowed, and unchanged otherwise.
\<close>

record nodeSpec =
  ns_peers :: "Key set"
  ns_mappings :: "(string \<Rightarrow> PeerDestination list option) option"
  ns_local :: "string set"

definition absMappings :: "server \<Rightarrow> string \<Rightarrow> PeerDestination list option" where
  "absMappings r = (\<lambda>k. map_option pm_Destinations (Load (s_proxyMappings r) k))"

definition absNode :: "('w \<Rightarrow> Key set) \<Rightarrow> ('w, 'k, 'c) apiState \<Rightarrow> nodeSpec" where
  "absNode peers s = \<lparr>ns_peers = peers (nd_wg (as_node s)), ns_mappings = map_option absMappings (nd_relay (as_node s)),
     ns_local = set (sp_localSNIs (as_sni s))\<rparr>"

definition addEffect :: "('w, 'k, 'c, 'd) apiEnv \<Rightarrow> httpRequest \<Rightarrow> nodeSpec \<Rightarrow> nodeSpec" where
  "addEffect E r a = (case ae_decodePeer E (limitedBody r) of
     Some p \<Rightarrow> (case ParseKey (nc_wg (ae_cfg E)) (pe_PublicKey p) of Some k \<Rightarrow> a\<lparr>ns_peers := insert k (ns_peers a)\<rparr> | None \<Rightarrow> a)
   | None \<Rightarrow> a)"

definition removeEffect :: "('w, 'k, 'c, 'd) apiEnv \<Rightarrow> httpRequest \<Rightarrow> nodeSpec \<Rightarrow> nodeSpec" where
  "removeEffect E r a = (case Load (rq_Query r) ''public_key'' of
     Some (key # _) \<Rightarrow> (case ParseKey (nc_wg (ae_cfg E)) key of Some k \<Rightarrow> a\<lparr>ns_peers := ns_peers a - {k}\<rparr> | None \<Rightarrow> a)
   | _ \<Rightarrow> a)"

definition mappingEffect :: "('w, 'k, 'c, 'd) apiEnv \<Rightarrow> httpRequest \<Rightarrow> nodeSpec \<Rightarrow> nodeSpec" where
  "mappingEffect E r a = (case ae_decodeMapping E (limitedBody r) of
     Some u \<Rightarrow> a\<lparr>ns_mappings := map_option (\<lambda>m k. map_option (replaceDest (pu_OldDestination u) (pu_NewDestination u)) (m k)) (ns_mappings a)\<rparr>
   | None \<Rightarrow> a)"

definition destinationsEffect :: "('w, 'k, 'c, 'd) apiEnv \<Rightarrow> httpRequest \<Rightarrow> nodeSpec \<Rightarrow> nodeSpec" where
  "destinationsEffect E r a = (case ae_decodeDestinations E (limitedBody r) of
     Some u \<Rightarrow> a\<lparr>ns_mappings := map_option (\<lambda>m. m(fmtHostPort (ud_SourceIP u) (ud_SourcePort u) := Some (ud_Destinations u))) (ns_mappings a)\<rparr>
   | None \<Rightarrow> a)"

definition snisEffect :: "('w, 'k, 'c, 'd) apiEnv \<Rightarrow> httpRequest \<Rightarrow> nodeSpec \<Rightarrow> nodeSpec" where
  "snisEffect E r a = (case ae_decodeSNIs E (limitedBody r) of Some ds \<Rightarrow> a\<lparr>ns_local := set ds\<rparr> | None \<Rightarrow> a)"

definition specEffect :: "('w, 'k, 'c, 'd) apiEnv \<Rightarrow> httpRequest \<Rightarrow> nodeSpec \<Rightarrow> nodeSpec" where
  "specEffect E r a =
     (if rq_Path r = ''/peer'' then (if rq_Method r = ''POST'' then addEffect E r a else removeEffect E r a)
      else if rq_Path r = ''/update-proxy-mapping'' then mappingEffect E r a
      else if rq_Path r = ''/update-destinations'' then destinationsEffect E r a
      else if rq_Path r = ''/update-local-snis'' then snisEffect E r a
      else a)"

text \<open>The abstract outcome of a request with a given answer.\<close>

definition specOutcome :: "('a \<Rightarrow> 'a) \<Rightarrow> nat \<Rightarrow> 'a \<Rightarrow> 'a" where
  "specOutcome effect status a = (if status < 300 then effect a else a)"

definition relayOk :: "('w, 'k, 'c) apiState \<Rightarrow> bool" where
  "relayOk s \<longleftrightarrow> (case nd_relay (as_node s) of None \<Rightarrow> True | Some r \<Rightarrow> wf_map (s_proxyMappings r))"

definition atomicConfigure :: "'w wgClient \<Rightarrow> ('w \<Rightarrow> Key set) \<Rightarrow> bool" where
  "atomicConfigure c peers \<longleftrightarrow> (\<forall>pc w. \<not> fst (ConfigureDevice c pc w) \<longrightarrow> peers (snd (ConfigureDevice c pc w)) = peers w)"

text \<open>A handler keeps the contract when its answer tells whether the effect took place.\<close>

definition keepsSpec :: "('w \<Rightarrow> Key set) \<Rightarrow> (nodeSpec \<Rightarrow> nodeSpec) \<Rightarrow> ('w, 'k, 'c) apiState \<Rightarrow> responseWriterWrapper \<times> ('w, 'k, 'c) apiState \<Rightarrow> bool" where
  "keepsSpec peers f s a \<longleftrightarrow> absNode peers (snd a) = specOutcome f (statusCode (fst a)) (absNode peers s)"

subsection \<open>Peers do not touch the mappings\<close>

lemma sweepOne_mappings: "s_proxyMappings (snd (sweepOne P e ns)) = s_proxyMappings (snd ns)"
  by (cases ns; cases e) (auto simp: sweepOne_def removeConnection_def removeConnectionLocked_def Let_def split: option.splits prod.splits)

lemma sweep_mappings: "s_proxyMappings (snd (sweep P s)) = s_proxyMappings s"
proof -
  have "s_proxyMappings (snd (fold (sweepOne P) es ns)) = s_proxyMappings (snd ns)" for es ns
    by (induction es arbitrary: ns) (simp_all add: sweepOne_mappings)
  then show ?thesis by (simp add: sweep_def)
qed

lemma OnPeerAdded_mappings: "s_proxyMappings (OnPeerAdded ip s) = s_proxyMappings s"
  using sweep_mappings [of "\<lambda>key _. containsIP key ip" s]
  by (auto simp: OnPeerAdded_def clearConnectionsForWGIP_def clearReport_def split: prod.split)

lemma fold_OnPeerAdded_mappings: "s_proxyMappings (fold OnPeerAdded ips s) = s_proxyMappings s"
  by (induction ips arbitrary: s) (simp_all add: OnPeerAdded_mappings)

subsection \<open>Each handler has its abstract effect\<close>

lemma absNode_record_call [simp]: "absNode peers (record_call c s) = absNode peers s"
  by (simp add: absNode_def record_call_def)

lemma absNode_record_calls [simp]: "absNode peers (fold record_call cs s) = absNode peers s"
  by (induction cs arbitrary: s) simp_all

lemma absNode_notify [simp]: "absNode peers (notifyPeerChange E a k s) = absNode peers s"
  by (simp add: absNode_def notifyPeerChange_def)

lemma absNode_setRelay:
  "nd_relay (as_node s) = Some r \<Longrightarrow> absNode peers (setRelay r' s) = (absNode peers s)\<lparr>ns_mappings := Some (absMappings r')\<rparr>"
  by (simp add: absNode_def setRelay_def)

lemma absNode_untouched: "untouched peers s s' \<Longrightarrow> absNode peers s' = absNode peers s"
  by (simp add: absNode_def untouched_def)

lemma absMappings_added [simp]: "absMappings (fold OnPeerAdded ips r) = absMappings r"
  by (simp add: absMappings_def fold_OnPeerAdded_mappings)

lemma absMappings_added_opt [simp]:
  "map_option absMappings (map_option (fold OnPeerAdded ips) r) = map_option absMappings r"
  by (cases r) simp_all

lemma add_abstract:
  assumes "wg_laws (nc_wg cfg) peers" "atomicConfigure (nc_wg cfg) peers" "addPeerInternal cfg p n = (e, n')"
  shows "map_option absMappings (nd_relay n') = map_option absMappings (nd_relay n)"
    and "peers (nd_wg n') = (if e = None then insert (the (ParseKey (nc_wg cfg) (pe_PublicKey p))) (peers (nd_wg n)) else peers (nd_wg n))"
proof -
  show "map_option absMappings (nd_relay n') = map_option absMappings (nd_relay n)"
    using assms(3) by (auto simp: addPeerInternal_def Let_def split: option.splits prod.splits bool.splits)
  show "peers (nd_wg n') = (if e = None then insert (the (ParseKey (nc_wg cfg) (pe_PublicKey p))) (peers (nd_wg n)) else peers (nd_wg n))"
  proof (cases e)
    case None
    then show ?thesis using add_device [OF assms(1)] assms(3) by fastforce
  next
    case (Some x)
    have c: "peers w' = peers (nd_wg n)" if "ConfigureDevice (nc_wg cfg) pc (nd_wg n) = (False, w')" for pc w'
      using assms(2) that unfolding atomicConfigure_def by (metis fst_conv snd_conv)
    show ?thesis using assms(3) Some
      by (auto simp: addPeerInternal_def Let_def split: option.splits prod.splits bool.splits dest: c)
  qed
qed

lemma remove_abstract:
  assumes "wg_laws (nc_wg cfg) peers" "atomicConfigure (nc_wg cfg) peers" "removePeerInternal cfg key n = (e, n')"
  shows "map_option absMappings (nd_relay n') = map_option absMappings (nd_relay n)"
    and "peers (nd_wg n') = (if e = None then peers (nd_wg n) - {the (ParseKey (nc_wg cfg) key)} else peers (nd_wg n))"
proof -
  show "map_option absMappings (nd_relay n') = map_option absMappings (nd_relay n)"
    using assms(3) by (auto simp: removePeerInternal_def Let_def OnPeerRemoved_Added option.map_id0 split: option.splits prod.splits bool.splits)
  show "peers (nd_wg n') = (if e = None then peers (nd_wg n) - {the (ParseKey (nc_wg cfg) key)} else peers (nd_wg n))"
  proof (cases e)
    case None
    then show ?thesis using remove_device [OF assms(1)] assms(3) by fastforce
  next
    case (Some x)
    have c: "peers w' = peers (nd_wg n)"
      if "Device (nc_wg cfg) (nd_wg n) = (dv, w1)" "ConfigureDevice (nc_wg cfg) pc w1 = (False, w')" for dv w1 pc w'
    proof -
      have "peers w' = peers w1" using assms(2) that(2) unfolding atomicConfigure_def by (metis fst_conv snd_conv)
      then show ?thesis using wg_lawsD(1) [OF assms(1), of "nd_wg n"] that(1) by simp
    qed
    show ?thesis using assms(3) Some
      by (auto simp: removePeerInternal_def Let_def split: option.splits prod.splits bool.splits dest: c)
  qed
qed

lemma add_keepsSpec:
  assumes "wg_laws (nc_wg (ae_cfg E)) peers" "atomicConfigure (nc_wg (ae_cfg E)) peers"
  shows "keepsSpec peers (addEffect E r) s (handleAddPeer E r s w)"
proof (cases "ae_decodePeer E (limitedBody r)")
  case None
  then show ?thesis by (simp add: keepsSpec_def handleAddPeer_def specOutcome_def)
next
  case (Some p)
  obtain e n where a: "addPeerInternal (ae_cfg E) p (as_node s) = (e, n)" by fastforce
  note ab = add_abstract [OF assms a]
  show ?thesis
  proof (cases e)
    case None
    obtain k where "ParseKey (nc_wg (ae_cfg E)) (pe_PublicKey p) = Some k" using add_device [OF assms(1)] a None by blast
    then show ?thesis using Some a None ab
      by (simp add: keepsSpec_def handleAddPeer_def addPeer_def specOutcome_def addEffect_def) (simp add: absNode_def)
  next
    case (Some e')
    then show ?thesis using \<open>ae_decodePeer E (limitedBody r) = Some p\<close> a ab
      by (simp add: keepsSpec_def handleAddPeer_def addPeer_def specOutcome_def) (simp add: absNode_def)
  qed
qed

lemma remove_keepsSpec:
  assumes "wg_laws (nc_wg (ae_cfg E)) peers" "atomicConfigure (nc_wg (ae_cfg E)) peers"
  shows "keepsSpec peers (removeEffect E r) s (handleRemovePeer E r s w)"
proof (cases "case Load (rq_Query r) ''public_key'' of Some (v # _) \<Rightarrow> v | _ \<Rightarrow> []")
  case Nil
  then show ?thesis by (simp add: keepsSpec_def handleRemovePeer_def specOutcome_def)
next
  case (Cons c cs)
  define key where "key = c # cs"
  obtain vs where q: "Load (rq_Query r) ''public_key'' = Some (key # vs)"
    using Cons by (auto simp: key_def split: option.splits list.splits)
  obtain e n where a: "removePeerInternal (ae_cfg E) key (as_node s) = (e, n)" by fastforce
  note ab = remove_abstract [OF assms a]
  show ?thesis
  proof (cases e)
    case None
    obtain k where "ParseKey (nc_wg (ae_cfg E)) key = Some k" using remove_device [OF assms(1)] a None by blast
    moreover have "key \<noteq> []" by (simp add: key_def)
    ultimately show ?thesis using q a None ab
      by (simp add: keepsSpec_def handleRemovePeer_def removePeer_def specOutcome_def removeEffect_def) (simp add: absNode_def)
  next
    case (Some e')
    moreover have "key \<noteq> []" by (simp add: key_def)
    ultimately show ?thesis using q a ab
      by (simp add: keepsSpec_def handleRemovePeer_def removePeer_def specOutcome_def) (simp add: absNode_def)
  qed
qed

lemma absMappings_replace:
  assumes "wf_map (s_proxyMappings r)"
  shows "absMappings (snd (UpdateDestinationInMappings E oldD newD r)) = (\<lambda>k. map_option (replaceDest oldD newD) (absMappings r k))"
proof -
  have d: "pm_Destinations (rewritten E oldD newD m) = replaceDest oldD newD (pm_Destinations m)" for m
    by (auto simp: rewritten_def hasDest_def replaceDest_def intro!: map_idI [symmetric])
  have "Load (map (\<lambda>(k, m). (k, rewritten E oldD newD m)) ms) k = map_option (rewritten E oldD newD) (Load ms k)" for ms and k :: string
    by (induction ms) auto
  then show ?thesis by (simp add: UpdateDestination_eq [OF assms] absMappings_def fun_eq_iff option.map_comp o_def d)
qed

lemma mapping_keepsSpec:
  assumes "relayOk s"
  shows "keepsSpec peers (mappingEffect E r) s (handleUpdateProxyMapping E r s w)"
proof (cases "nd_relay (as_node s)")
  case None
  then show ?thesis
    by (auto simp: keepsSpec_def handleUpdateProxyMapping_def specOutcome_def split: option.splits)
next
  case (Some relay)
  have wf: "wf_map (s_proxyMappings relay)" using assms Some by (simp add: relayOk_def)
  have m: "ns_mappings (absNode peers s) = Some (absMappings relay)" using Some by (simp add: absNode_def)
  have e: "absMappings relay' = (\<lambda>k. map_option (replaceDest oldD newD) (absMappings relay k))"
    if "UpdateDestinationInMappings (ae_env E) oldD newD relay = (c, relay')" for oldD newD c relay'
    using absMappings_replace [OF wf, of "ae_env E" oldD newD] that by simp
  show ?thesis using Some m
    by (auto simp: keepsSpec_def handleUpdateProxyMapping_def specOutcome_def mappingEffect_def absNode_setRelay
        split: option.splits prod.splits dest!: e)
qed

lemma destinations_keepsSpec: "keepsSpec peers (destinationsEffect E r) s (handleUpdateDestinations E r s w)"
proof (cases "nd_relay (as_node s)")
  case None
  then show ?thesis
    by (auto simp: keepsSpec_def handleUpdateDestinations_def specOutcome_def split: option.splits)
next
  case (Some relay)
  have m: "ns_mappings (absNode peers s) = Some (absMappings relay)" using Some by (simp add: absNode_def)
  have e: "absMappings (UpdateProxyMapping (ae_env E) ip port ds relay) = (absMappings relay)(fmtHostPort ip port := Some ds)" for ip port ds
    by (simp add: absMappings_def UpdateProxyMapping_def putMapping_def Let_def Load_Store fun_eq_iff)
  show ?thesis using Some m
    by (auto simp: keepsSpec_def handleUpdateDestinations_def specOutcome_def destinationsEffect_def absNode_setRelay e
        split: option.splits prod.splits)
qed

lemma snis_keepsSpec: "keepsSpec peers (snisEffect E r) s (handleUpdateLocalSNIs E r s w)"
  by (auto simp: keepsSpec_def handleUpdateLocalSNIs_def specOutcome_def snisEffect_def absNode_def split: option.splits)

subsection \<open>The API refines its specification\<close>

lemma measured_keepsSpec:
  assumes "measured ep d h r s w = Some (w', s')" "rw_codes w = []"
    and "\<And>ww. keepsSpec peers f s (h r s ww)" "\<And>ww. rw_codes (ResponseWriter ww) = [] \<Longrightarrow> ww_ok (fst (h r s ww))"
  shows "absNode peers s' = specOutcome f (wireStatus w') (absNode peers s)"
proof -
  let ?ww = "\<lparr>ResponseWriter = w, statusCode = 200\<rparr>"
  have "w' = ResponseWriter (fst (h r s ?ww))" "absNode peers s' = absNode peers (snd (h r s ?ww))"
    using assms(1) by (auto simp: measured_def httpMetricsMiddleware_def Let_def split: prod.splits)
  then show ?thesis using assms(3) [of ?ww] ww_ok_status [OF assms(4), of ?ww] assms(2) by (simp add: keepsSpec_def)
qed

lemma handlers_keepSpec:
  assumes laws: "wg_laws (nc_wg (ae_cfg E)) peers" "atomicConfigure (nc_wg (ae_cfg E)) peers" and "relayOk s"
  shows "rq_Path r = ''/peer'' \<Longrightarrow> keepsSpec peers (specEffect E r) s (handlePeer E r s w)"
    "rq_Path r = ''/update-proxy-mapping'' \<Longrightarrow> keepsSpec peers (specEffect E r) s (handleUpdateProxyMapping E r s w)"
    "rq_Path r = ''/update-destinations'' \<Longrightarrow> keepsSpec peers (specEffect E r) s (handleUpdateDestinations E r s w)"
    "rq_Path r = ''/update-local-snis'' \<Longrightarrow> keepsSpec peers (specEffect E r) s (handleUpdateLocalSNIs E r s w)"
proof -
  show "keepsSpec peers (specEffect E r) s (handlePeer E r s w)" if "rq_Path r = ''/peer''"
    using that add_keepsSpec [OF laws, of r s w] remove_keepsSpec [OF laws, of r s w]
    by (auto simp: handlePeer_def keepsSpec_def specEffect_def specOutcome_def)
  show "keepsSpec peers (specEffect E r) s (handleUpdateProxyMapping E r s w)" if "rq_Path r = ''/update-proxy-mapping''"
  proof -
    have "specEffect E r = mappingEffect E r" using that by (simp add: specEffect_def fun_eq_iff)
    then show ?thesis using mapping_keepsSpec [OF assms(3)] by metis
  qed
  show "keepsSpec peers (specEffect E r) s (handleUpdateDestinations E r s w)" if "rq_Path r = ''/update-destinations''"
  proof -
    have "specEffect E r = destinationsEffect E r" using that by (simp add: specEffect_def fun_eq_iff)
    then show ?thesis using destinations_keepsSpec by metis
  qed
  show "keepsSpec peers (specEffect E r) s (handleUpdateLocalSNIs E r s w)" if "rq_Path r = ''/update-local-snis''"
  proof -
    have "specEffect E r = snisEffect E r" using that by (simp add: specEffect_def fun_eq_iff)
    then show ?thesis using snis_keepsSpec by metis
  qed
qed

lemma protected_refines:
  assumes laws: "wg_laws (nc_wg (ae_cfg E)) peers" "atomicConfigure (nc_wg (ae_cfg E)) peers"
    and env: "rw_codes w = []" "relayOk s" "authorized E r" "rq_Path r \<in> set protectedPaths"
    and m: "apiMux E d r s w = Some (w', s')"
  shows "absNode peers s' = specOutcome (specEffect E r) (wireStatus w') (absNode peers s)"
proof -
  have spec: "absNode peers s' = specOutcome (specEffect E r) (wireStatus w') (absNode peers s)"
    if "apiMux E d r s w = requireControlAuth E (measured ep d h) r s w" "\<And>ww. keepsSpec peers (specEffect E r) s (h r s ww)"
      "\<And>ww. rw_codes (ResponseWriter ww) = [] \<Longrightarrow> ww_ok (fst (h r s ww))" for ep h
    using that m env(1,3) measured_keepsSpec [of ep d h r s w w' s' peers "specEffect E r"]
    by (simp add: requireControlAuth_def)
  note keeps = handlers_keepSpec [OF laws env(2)]
  from env(4) consider "rq_Path r = ''/peer''" | "rq_Path r = ''/update-proxy-mapping''"
    | "rq_Path r = ''/update-destinations''" | "rq_Path r = ''/update-local-snis''" by (auto simp: protectedPaths_def)
  then show ?thesis
  proof cases
    case 1
    then show ?thesis using keeps(1) [OF 1] by (intro spec [OF _ _ handlers_ok(1)]) (simp_all add: apiMux_def)
  next
    case 2
    then show ?thesis using keeps(2) [OF 2] by (intro spec [OF _ _ handlers_ok(2)]) (simp_all add: apiMux_def)
  next
    case 3
    then show ?thesis using keeps(3) [OF 3] by (intro spec [OF _ _ handlers_ok(3)]) (simp_all add: apiMux_def)
  next
    case 4
    then show ?thesis using keeps(4) [OF 4] by (intro spec [OF _ _ handlers_ok(4)]) (simp_all add: apiMux_def)
  qed
qed



end
