(* ===== verification/Boot.thy ===== *)
theory Boot
  imports Startup WG_Interface Relay_Lifecycle SNI_Tunnel Node_Refinement
begin

text \<open>
  \<open>main\<close> of \<open>main.go\<close> after its checks: the bring-up of the components in their order, and the
  shutdown.

  \<open>boot\<close> composes the components' own functions: key, configuration, device and interface, shaping,
  peers, relay, SNI proxy, control listener.  Every \<open>logger.Fatal\<close> is a \<open>BootFatal\<close>; the device
  and the host are returned as they are then, since nothing is undone.  \<open>rn_peerError\<close> keeps the result
  of \<open>ensureWireguardPeers\<close>, which \<open>main\<close> discards.

  \<open>shutdown\<close> lists what happens after the group's context is done: the shutdown goroutine, then the
  deferred calls of \<open>main\<close> in reverse order.

  Shown: what holds of every node that came up; that its abstract state is the initial one of the
  specification of the control API; that an error of the peers is ignored; that shutdown takes at most
  40 seconds, and that it ends in a panic exactly when the node relays.
\<close>

record ('w, 'k, 'c) bootEnv =
  be_start :: startEnv
  be_keyIO :: keyIO
  be_remote :: remoteEnv
  be_unmarshal :: "bytes \<Rightarrow> WgConfig \<times> bool"
  be_read :: "string \<Rightarrow> bytes option"
  be_newClient :: bool
  be_net :: "('k, 'w) netlink"
  be_shell :: "'k shell"
  be_wg :: "'w wgClient"
  be_public :: "Key \<Rightarrow> string"
  be_hostname :: string
  be_numCPU :: nat
  be_resolveUDP :: "string \<Rightarrow> bool"
  be_listenUDP :: "string \<Rightarrow> bool"
  be_lookupIP :: "string \<Rightarrow> IP list option"
  be_cache :: 'c
  be_listenTCP :: "int \<Rightarrow> bool"

datatype bootError = CheckFailed fatal | KeyFailed keyError | ConfigFailed | ClientFailed | InterfaceFailed ifError | IFBFailed tcError
  | RelayURLFailed urlError | RelayFailed startError | ProxyFailed newError | ProxyListenFailed int

datatype 'r bootResult = BootFatal bootError | BootCancelled | BootWaiting | BootRunning 'r

record ('w, 'k, 'c) running =
  rn_checks :: checks
  rn_key :: Key
  rn_config :: WgConfig
  rn_peerError :: "peerError option"
  rn_relay :: "life option"
  rn_reports :: bool
  rn_api :: "('w, 'k, 'c) apiState"
  rn_listener :: IP

subsection \<open>The stages\<close>

definition bootKey :: "('w, 'k, 'c) bootEnv \<Rightarrow> checks \<Rightarrow> fileSys \<Rightarrow> (keyError + Key) \<times> fileSys" where
  "bootKey E c fs =
     (let path = st_generateAndSaveKeyTo (pl_settings c) in
      if path \<noteq> [] then loadOrGeneratePrivateKey (be_keyIO E) path fs
      else (case io_generate (be_keyIO E) of None \<Rightarrow> (Inl GenerateError, fs) | Some key \<Rightarrow> (Inr key, fs)))"

definition bootConfig :: "('w, 'k, 'c) bootEnv \<Rightarrow> checks \<Rightarrow> Key \<Rightarrow> ((configRequest \<Rightarrow> httpResponse option) \<times> bool) list
     \<Rightarrow> WgConfig bootResult" where
  "bootConfig E c key attempts =
     (let st = pl_settings c; private = KeyString (be_wg E) key in
      if st_configFile st \<noteq> [] then
        (case loadConfig (be_unmarshal E) (be_read E) (st_configFile st) of
           None \<Rightarrow> BootFatal ConfigFailed
         | Some wgconfig \<Rightarrow> BootRunning (if wc_PrivateKey wgconfig = [] then wgconfig\<lparr>wc_PrivateKey := private\<rparr> else wgconfig))
      else
        (case fetchLoop (be_remote E) (pl_remoteConfigURL c) private (be_public E key) (st_reachableAt st)
                (case pl_signingKey c of Some k \<Rightarrow> k | None \<Rightarrow> []) emptyConfig attempts of
           Configured wgconfig \<Rightarrow> BootRunning wgconfig
         | Cancelled \<Rightarrow> BootCancelled
         | Waiting \<Rightarrow> BootWaiting))"

definition ifCfgOf :: "('w, 'k, 'c) bootEnv \<Rightarrow> checks \<Rightarrow> ('w, 'k) ifCfg" where
  "ifCfgOf E c = \<lparr>ic_net = be_net E, ic_shell = be_shell E, ic_wg = be_wg E, ic_name = st_interfaceName (pl_settings c),
     ic_mtu = pl_mtuInt c, ic_disableFirewall = st_disableFirewall (pl_settings c), ic_hostname = be_hostname E\<rparr>"

definition nodeCfgOf :: "('w, 'k, 'c) bootEnv \<Rightarrow> checks \<Rightarrow> ('w, 'k) nodeCfg" where
  "nodeCfgOf E c = \<lparr>nc_wg = be_wg E, nc_shell = be_shell E,
     nc_shaping = \<lparr>interfaceName = st_interfaceName (pl_settings c), ifbName = pl_ifbName c, bandwidthLimit = st_bandwidthLimit (pl_settings c)\<rparr>,
     nc_doTrafficShaping = st_doTrafficShaping (pl_settings c)\<rparr>"

definition bootIFB :: "('w, 'k, 'c) bootEnv \<Rightarrow> checks \<Rightarrow> 'k world \<Rightarrow> tcError option \<times> 'k world" where
  "bootIFB E c kw =
     (if st_doTrafficShaping (pl_settings c) then run_state (ensureIFBDevice (be_shell E) (nc_shaping (nodeCfgOf E c))) kw else (None, kw))"

text \<open>From the WireGuard client to the peers; the second component is the discarded error.\<close>

definition bootDevice :: "('w, 'k, 'c) bootEnv \<Rightarrow> checks \<Rightarrow> WgConfig \<Rightarrow> ('w, 'k) node
     \<Rightarrow> (bootError + peerError option) \<times> ('w, 'k) node" where
  "bootDevice E c wgconfig n =
     (if \<not> be_newClient E then (Inl ClientFailed, n)
      else case ensureWireguardInterface (ifCfgOf E c) wgconfig (nd_wg n) (nd_world n) of
        (res, w, kw, calls) \<Rightarrow>
          (let n1 = n\<lparr>nd_wg := w, nd_world := kw, nd_calls := nd_calls n @ calls\<rparr> in
           case res of
             IfError e \<Rightarrow> (Inl (InterfaceFailed e), n1)
           | IfFatal e \<Rightarrow> (Inl (InterfaceFailed e), n1)
           | IfOk \<Rightarrow>
               (case bootIFB E c kw of
                  (Some e, kw') \<Rightarrow> (Inl (IFBFailed e), n1\<lparr>nd_world := kw'\<rparr>)
                | (None, kw') \<Rightarrow>
                    (case ensureWireguardPeers (nodeCfgOf E c) (wc_Peers wgconfig) (n1\<lparr>nd_world := kw'\<rparr>) of
                       (err, n2) \<Rightarrow> (Inr err, n2)))))"

definition bootRelay :: "('w, 'k, 'c) bootEnv \<Rightarrow> checks \<Rightarrow> WgConfig \<Rightarrow> bootError + life option" where
  "bootRelay E c wgconfig =
     (let url = pl_remoteConfigURL c; addr = '':'' @ Itoa (relayPortOf wgconfig) in
      if url = [] then Inr None
      else case relay_ValidateRemoteConfigURL (se_parseURL (be_start E)) url of
        Some e \<Rightarrow> Inl (RelayURLFailed e)
      | None \<Rightarrow>
          (case Start (be_numCPU E) (be_resolveUDP E addr) (be_listenUDP E addr) (newServer url (st_reachableAt (pl_settings c))) of
             Inl e \<Rightarrow> Inl (RelayFailed e)
           | Inr l \<Rightarrow> Inr (Some l)))"

text \<open>\<open>Start\<close> of the SNI proxy; the port it could not listen on.\<close>

definition startProxy :: "(int \<Rightarrow> bool) \<Rightarrow> 'c SNIProxy \<Rightarrow> int option" where
  "startProxy listen p = (if listen (sp_port p) then None else Some (sp_port p))"

definition bootSNI :: "('w, 'k, 'c) bootEnv \<Rightarrow> environ \<Rightarrow> checks \<Rightarrow> Key \<Rightarrow> bootError + 'c SNIProxy" where
  "bootSNI E env c key =
     (let st = pl_settings c in
      case NewSNIProxy (se_parseURL (be_start E)) (be_lookupIP E) (be_cache E)
             (loadSNITunnelIdleTimeout (vp_Duration (se_values (be_start E))) env)
             (st_sniProxyPort st) (pl_remoteConfigURL c) (be_public E key) (st_localProxyAddr st) (st_localProxyPort st)
             (splitList (st_localOverridesStr st)) (st_proxyProtocol st) (splitList (st_trustedUpstreamsStr st))
             (splitList (st_proxyAllowedCIDRsStr st)) of
        Inl e \<Rightarrow> Inl (ProxyFailed e)
      | Inr p \<Rightarrow> (case startProxy (be_listenTCP E) p of None \<Rightarrow> Inr p | Some port \<Rightarrow> Inl (ProxyListenFailed port)))"

text \<open>The services: relay, SNI proxy, control listener.\<close>

definition bootServices :: "('w, 'k, 'c) bootEnv \<Rightarrow> environ \<Rightarrow> checks \<Rightarrow> Key \<Rightarrow> WgConfig \<Rightarrow> peerError option \<Rightarrow> ('w, 'k) node
     \<Rightarrow> ('w, 'k, 'c) running bootResult" where
  "bootServices E env c key wgconfig err n =
     (case bootRelay E c wgconfig of
        Inl e \<Rightarrow> BootFatal e
      | Inr relay \<Rightarrow>
          (case bootSNI E env c key of
             Inl e \<Rightarrow> BootFatal e
           | Inr p \<Rightarrow>
               (case openListener (be_start E) (pl_listenAddr c) of
                  Inl e \<Rightarrow> BootFatal (CheckFailed e)
                | Inr ip \<Rightarrow> BootRunning \<lparr>rn_checks = c, rn_key = key, rn_config = wgconfig, rn_peerError = err, rn_relay = relay,
                    rn_reports = (pl_remoteConfigURL c \<noteq> []),
                    rn_api = \<lparr>as_node = n\<lparr>nd_relay := map_option lf_server relay\<rparr>, as_sni = p, as_notified = []\<rparr>,
                    rn_listener = ip\<rparr>)))"

definition boot :: "('w, 'k, 'c) bootEnv \<Rightarrow> environ \<Rightarrow> args \<Rightarrow> ((configRequest \<Rightarrow> httpResponse option) \<times> bool) list
     \<Rightarrow> fileSys \<Rightarrow> ('w, 'k) node \<Rightarrow> ('w, 'k, 'c) running bootResult \<times> ('w, 'k) node" where
  "boot E env args attempts fs n =
     (case startChecks (be_start E) env args of
        Inl e \<Rightarrow> (BootFatal (CheckFailed e), n)
      | Inr c \<Rightarrow>
          (case bootKey E c fs of
             (Inl e, _) \<Rightarrow> (BootFatal (KeyFailed e), n)
           | (Inr key, _) \<Rightarrow>
               (case bootConfig E c key attempts of
                  BootFatal e \<Rightarrow> (BootFatal e, n)
                | BootCancelled \<Rightarrow> (BootCancelled, n)
                | BootWaiting \<Rightarrow> (BootWaiting, n)
                | BootRunning wgconfig \<Rightarrow>
                    (case bootDevice E c wgconfig n of
                       (Inl e, n1) \<Rightarrow> (BootFatal e, n1)
                     | (Inr err, n1) \<Rightarrow> (bootServices E env c key wgconfig err n1, n1)))))"

subsection \<open>Shutdown\<close>

datatype exitEvent = HTTPStopped | PprofStopped | SNIStopped | RelayStopped | RelayPanic | ClientClosed | SignalsReleased | MetricsFlushed

text \<open>
  The argument is the relay as the shutdown finds it.  A panic in the goroutine ends the process at
  once; a panic in a deferred call of \<open>main\<close> still runs the deferred calls registered before it.
\<close>

definition deferred :: "server option \<Rightarrow> exitEvent list" where
  "deferred relay =
     (case relay of None \<Rightarrow> [] | Some s \<Rightarrow> (case Stop s of None \<Rightarrow> [RelayPanic] | Some _ \<Rightarrow> [RelayStopped]))
       @ [ClientClosed, SignalsReleased, MetricsFlushed]"

definition shutdown :: "server option \<Rightarrow> exitEvent list" where
  "shutdown relay = [HTTPStopped, PprofStopped, SNIStopped] @
     (case relay of
        None \<Rightarrow> deferred None
      | Some s \<Rightarrow> (case Stop s of None \<Rightarrow> [RelayPanic] | Some t \<Rightarrow> RelayStopped # deferred (Some t)))"

text \<open>
  How long it takes, when each call takes as long as given or (\<open>None\<close>) would never return: the HTTP
  servers share a context of five seconds, \<open>proxySNI.Stop\<close> waits for its connections for at most thirty,
  and the deferred flush of the metrics has five.
\<close>

definition cutOff :: "duration \<Rightarrow> duration option \<Rightarrow> duration" where
  "cutOff limit d = (case d of Some d \<Rightarrow> min d limit | None \<Rightarrow> limit)"

definition sniStopWait :: "duration option \<Rightarrow> duration" where
  "sniStopWait quiet_after = cutOff (30 * second) quiet_after"

definition shutdownTime :: "duration option \<Rightarrow> duration option \<Rightarrow> duration option \<Rightarrow> duration" where
  "shutdownTime http quiet_after flush = cutOff (5 * second) http + sniStopWait quiet_after + cutOff (5 * second) flush"

subsection \<open>Concrete outsides\<close>

text \<open>A host whose interface exists already, an empty device, and a remote configuration without or with a bad peer.\<close>

definition demoBoot :: "(wgPeer list, string list, (string, RouteRecord option \<times> time) gomap) bootEnv" where
  "demoBoot = \<lparr>be_start = demoStart, be_keyIO = goodIO, be_remote = demoRemote, be_unmarshal = (\<lambda>_. (emptyConfig, True)), be_read = (\<lambda>_. None),
     be_newClient = True, be_net = ic_net demoIf, be_shell = brokenTables, be_wg = tableDevice, be_public = (\<lambda>_. ''p''), be_hostname = ''h'',
     be_numCPU = 1, be_resolveUDP = (\<lambda>_. True), be_listenUDP = (\<lambda>_. True), be_lookupIP = (\<lambda>_. None), be_cache = [], be_listenTCP = (\<lambda>_. True)\<rparr>"

definition badPeerConfig :: WgConfig where
  "badPeerConfig = emptyConfig\<lparr>wc_Peers := [\<lparr>pe_PublicKey = ''?'', pe_AllowedIPs = []\<rparr>]\<rparr>"

definition demoBadPeer :: "(wgPeer list, string list, (string, RouteRecord option \<times> time) gomap) bootEnv" where
  "demoBadPeer = demoBoot\<lparr>be_remote := demoRemote\<lparr>rv_unmarshal := (\<lambda>_. (badPeerConfig, True))\<rparr>\<rparr>"

definition demoHost :: "(wgPeer list, string list) node" where
  "demoHost = \<lparr>nd_wg = [], nd_world = ([''wg0''], []), nd_relay = None, nd_calls = []\<rparr>"

subsection \<open>What a node that came up went through\<close>

lemma services_running:
  assumes "bootServices E env c key wgconfig err n = BootRunning r"
  shows "bootRelay E c wgconfig = Inr (rn_relay r)" "bootSNI E env c key = Inr (as_sni (rn_api r))"
    "openListener (be_start E) (pl_listenAddr c) = Inr (rn_listener r)" "rn_checks r = c" "rn_key r = key" "rn_config r = wgconfig"
    "rn_peerError r = err" "as_node (rn_api r) = n\<lparr>nd_relay := map_option lf_server (rn_relay r)\<rparr>"
  using assms by (auto simp: bootServices_def split: sum.splits)

lemma boot_running:
  assumes "boot E env args attempts fs n = (BootRunning r, n')"
  shows "startChecks (be_start E) env args = Inr (rn_checks r)" "fst (bootKey E (rn_checks r) fs) = Inr (rn_key r)"
    "bootConfig E (rn_checks r) (rn_key r) attempts = BootRunning (rn_config r)"
    "bootDevice E (rn_checks r) (rn_config r) n = (Inr (rn_peerError r), n')"
    "bootServices E env (rn_checks r) (rn_key r) (rn_config r) (rn_peerError r) n' = BootRunning r"
proof -
  obtain c where c: "startChecks (be_start E) env args = Inr c" using assms by (auto simp: boot_def split: sum.splits)
  obtain key fs' where k: "bootKey E c fs = (Inr key, fs')" using assms by (auto simp: boot_def c split: prod.splits sum.splits)
  obtain w where w: "bootConfig E c key attempts = BootRunning w"
    using assms by (auto simp: boot_def c k split: prod.splits sum.splits bootResult.splits)
  obtain err where d: "bootDevice E c w n = (Inr err, n')" and s: "bootServices E env c key w err n' = BootRunning r"
    using assms by (auto simp: boot_def c k w split: prod.splits sum.splits bootResult.splits)
  note eqs = services_running(4-7) [OF s]
  show "startChecks (be_start E) env args = Inr (rn_checks r)" "fst (bootKey E (rn_checks r) fs) = Inr (rn_key r)"
    "bootConfig E (rn_checks r) (rn_key r) attempts = BootRunning (rn_config r)"
    "bootDevice E (rn_checks r) (rn_config r) n = (Inr (rn_peerError r), n')"
    "bootServices E env (rn_checks r) (rn_key r) (rn_config r) (rn_peerError r) n' = BootRunning r"
    using c k w d s by (simp_all add: eqs)
qed

lemma relay_running:
  assumes "bootRelay E c wgconfig = Inr (Some l)"
  shows "Start (be_numCPU E) True True (newServer (pl_remoteConfigURL c) (st_reachableAt (pl_settings c))) = Inr l"
  using assms by (auto simp: bootRelay_def Start_def Let_def split: if_splits option.splits)

lemma relay_iff: "bootRelay E c wgconfig = Inr r \<Longrightarrow> r \<noteq> None \<longleftrightarrow> pl_remoteConfigURL c \<noteq> []"
  by (auto simp: bootRelay_def Let_def split: if_splits option.splits sum.splits)

lemma started_server: "Start numCPU a b s = Inr l \<Longrightarrow> lf_server l = s"
  by (auto simp: Start_def split: if_splits)

lemma device_peers:
  assumes "bootDevice E c wgconfig n = (Inr None, n')" "wg_laws (be_wg E) peers"
  shows "peers (nd_wg n') = configuredKeys (nodeCfgOf E c) (wc_Peers wgconfig)"
proof -
  obtain m where "ensureWireguardPeers (nodeCfgOf E c) (wc_Peers wgconfig) m = (None, n')"
    using assms(1) by (auto simp: bootDevice_def Let_def split: if_splits prod.splits ifResult.splits option.splits)
  from ensure_device [OF _ this, of peers] assms(2) show ?thesis by (simp add: nodeCfgOf_def)
qed

lemma sni_running:
  assumes "bootSNI E env c key = Inr p"
  shows "parseNetworks (splitList (st_proxyAllowedCIDRsStr (pl_settings c))) = Inr (sp_allowedNetworks p)" "sp_localSNIs p = []"
    "sp_localOverrides p = set (filter (\<lambda>d. d \<noteq> []) (splitList (st_localOverridesStr (pl_settings c))))"
  using assms by (auto simp: bootSNI_def NewSNIProxy_def Let_def split: sum.splits if_splits option.splits)

lemma config_signed:
  assumes "bootConfig E c key attempts = BootRunning wgconfig" "st_configFile (pl_settings c) = []" "KeyString (be_wg E) key \<noteq> []"
    "pl_signingKey c = Some sk"
  shows "\<exists>Do b. (Do, b) \<in> set attempts \<and>
    fromSigned (be_remote E) (pl_remoteConfigURL c) (KeyString (be_wg E) key) (be_public E key) (st_reachableAt (pl_settings c)) sk Do wgconfig"
proof -
  have l: "fetchLoop (be_remote E) (pl_remoteConfigURL c) (KeyString (be_wg E) key) (be_public E key) (st_reachableAt (pl_settings c)) sk
      emptyConfig attempts = Configured wgconfig"
    using assms by (auto simp: bootConfig_def Let_def split: fetchOutcome.splits)
  have "wgconfig \<noteq> emptyConfig" using fetchLoop_key [OF l] by (auto simp: emptyConfig_def)
  then show ?thesis using fetchLoop_signed [OF l assms(3)] by blast
qed

lemma Stop_once: "\<not> s_packetChanClosed s \<Longrightarrow> \<exists>t. Stop s = Some t \<and> Stop t = None"
  by (simp add: Stop_def Let_def)

subsection \<open>Properties\<close>

text \<open>
  C13: a node that came up is safe as a whole.  Its token has at least 32 bytes and its control
  listener is private; it has one source of configuration, and a remote one was signed with the
  configured key; its proxy dials the configured networks only and starts with no local hostnames;
  it relays exactly when it is configured remotely, and then every state its relay reaches satisfies the
  invariants of buffers and workers, from tables that satisfy the relay's invariant.
\<close>

theorem booted_node_safe:
  assumes "boot E env args attempts fs n = (BootRunning r, n')" "KeyString (be_wg E) (rn_key r) \<noteq> []"
  shows "32 \<le> length (st_controlAPIToken (pl_settings (rn_checks r))) \<and> (IsLoopback (rn_listener r) \<or> IsPrivate (rn_listener r))
    \<and> ((st_configFile (pl_settings (rn_checks r)) = []) \<noteq> (st_remoteConfigURL (pl_settings (rn_checks r)) = []))
    \<and> (st_configFile (pl_settings (rn_checks r)) = [] \<longrightarrow>
        (\<exists>sk Do b. pl_signingKey (rn_checks r) = Some sk \<and> (Do, b) \<in> set attempts
          \<and> fromSigned (be_remote E) (pl_remoteConfigURL (rn_checks r)) (KeyString (be_wg E) (rn_key r)) (be_public E (rn_key r))
              (st_reachableAt (pl_settings (rn_checks r))) sk Do (rn_config r)))
    \<and> parseNetworks (splitList (st_proxyAllowedCIDRsStr (pl_settings (rn_checks r)))) = Inr (sp_allowedNetworks (as_sni (rn_api r)))
    \<and> (rn_relay r \<noteq> None \<longleftrightarrow> pl_remoteConfigURL (rn_checks r) \<noteq> [])
    \<and> (\<forall>l0 l. rn_relay r = Some l0 \<and> life_step\<^sup>*\<^sup>* l0 l \<longrightarrow> relay_inv (lf_server l0) \<and> life_inv (workerCount (be_numCPU E)) l)"
proof -
  note b = boot_running [OF assms(1)] note s = services_running [OF b(5)]
  note c = startChecks_ok [OF b(1)]
  have "relay_inv (lf_server l0) \<and> life_inv (workerCount (be_numCPU E)) l" if "rn_relay r = Some l0" "life_step\<^sup>*\<^sup>* l0 l" for l0 l
    using relay_running [of E "rn_checks r" "rn_config r" l0] s(1) that started_inv [OF _ that(2)] started_server newServer_inv by metis
  moreover have "\<exists>sk Do b. pl_signingKey (rn_checks r) = Some sk \<and> (Do, b) \<in> set attempts
          \<and> fromSigned (be_remote E) (pl_remoteConfigURL (rn_checks r)) (KeyString (be_wg E) (rn_key r)) (be_public E (rn_key r))
              (st_reachableAt (pl_settings (rn_checks r))) sk Do (rn_config r)" if remote: "st_configFile (pl_settings (rn_checks r)) = []"
  proof -
    obtain sk where sk: "pl_signingKey (rn_checks r) = Some sk" using c remote by blast
    from config_signed [OF b(3) remote assms(2) sk] sk show ?thesis by blast
  qed
  ultimately show ?thesis using c relay_iff [OF s(1)] openListener_ok [OF s(3)] sni_running(1) [OF s(2)] by blast
qed



subsection \<open>Witnesses\<close>

lemma demo_key: "bootKey demoBoot demoChecks fs = (Inr [7], fs)" "bootKey demoBadPeer demoChecks fs = (Inr [7], fs)"
  by (simp_all add: bootKey_def demoChecks_def demo_settings goodIO_def demoBoot_def demoBadPeer_def)

lemma demo_parts:
  "bootRelay demoBoot demoChecks c = Inr (Some l) \<longleftrightarrow> Start 1 True True (newServer ''https://a/x'' []) = Inr l"
  "\<exists>p. bootSNI demoBoot demoEnviron demoChecks [7] = Inr p"
proof -
  have u: "relay_ValidateRemoteConfigURL demoParse ''https://a/x'' = None" "proxy_ValidateRemoteConfigURL demoParse ''https://a/x''"
    by (simp_all add: relay_ValidateRemoteConfigURL_def proxy_ValidateRemoteConfigURL_def demoParse_def)
  have p: "se_parseURL demoStart = demoParse" by (simp add: demoStart_def)
  show "bootRelay demoBoot demoChecks c = Inr (Some l) \<longleftrightarrow> Start 1 True True (newServer ''https://a/x'' []) = Inr l"
    by (simp add: bootRelay_def demoBoot_def demoChecks_def demo_settings u p split: sum.split)
  have n: "st_proxyAllowedCIDRsStr demoSettings = []"
    by (simp add: demoSettings_def readSettings_def strSetting_def flagStr_def demoEnviron_def)
  show "\<exists>p. bootSNI demoBoot demoEnviron demoChecks [7] = Inr p"
    by (simp add: bootSNI_def startProxy_def NewSNIProxy_def demoBoot_def demoChecks_def u p n splitList_def)
qed

lemma demo_same_services:
  "bootServices demoBadPeer demoEnviron demoChecks [7] c err n = bootServices demoBoot demoEnviron demoChecks [7] c err n"
proof -
  have sel: "be_start demoBadPeer = be_start demoBoot" "be_numCPU demoBadPeer = be_numCPU demoBoot" "be_resolveUDP demoBadPeer = be_resolveUDP demoBoot"
    "be_listenUDP demoBadPeer = be_listenUDP demoBoot" "be_lookupIP demoBadPeer = be_lookupIP demoBoot" "be_cache demoBadPeer = be_cache demoBoot"
    "be_public demoBadPeer = be_public demoBoot" "be_listenTCP demoBadPeer = be_listenTCP demoBoot"
    by (simp_all add: demoBadPeer_def)
  show ?thesis unfolding bootServices_def bootRelay_def bootSNI_def sel by (rule refl)
qed

lemma demo_services:
  "\<exists>r. bootServices demoBoot demoEnviron demoChecks [7] c err n = BootRunning r"
proof -
  obtain l where "Start 1 True True (newServer ''https://a/x'' []) = Inr l" by (simp add: Start_def)
  then have l: "bootRelay demoBoot demoChecks c = Inr (Some l)" by (simp add: demo_parts)
  obtain p where p: "bootSNI demoBoot demoEnviron demoChecks [7] = Inr p" using demo_parts(2) by blast
  have "openListener (be_start demoBoot) a = Inr [127, 0, 0, 1]" for a by (simp add: demoBoot_def demo_listener)
  then show ?thesis by (simp add: bootServices_def l p)
qed

lemma demo_config:
  "bootConfig demoBoot demoChecks [7] [(answer [1], False)] = BootRunning (emptyConfig\<lparr>wc_ListenPort := 51820, wc_PrivateKey := KeyString tableDevice [7]\<rparr>)"
  "bootConfig demoBadPeer demoChecks [7] [(answer [1], False)] = BootRunning (badPeerConfig\<lparr>wc_PrivateKey := KeyString tableDevice [7]\<rparr>)"
proof -
  have k: "KeyString tableDevice [7] \<noteq> []" by (simp add: tableDevice_def)
  have bad: "loadRemoteConfig (demoRemote\<lparr>rv_unmarshal := (\<lambda>_. (badPeerConfig, True))\<rparr>) (answer [1]) u pk [] (replicate 32 0) =
      (None, badPeerConfig, [RecordRemoteConfigFetch ''success''])" for u pk
    by (simp add: loadRemoteConfig_def relay_ValidateRemoteConfigURL_def demoRemote_def answer_def readLimited_def
        remoteConfigMaxBodyBytes_def PublicKeySize_def)
  show "bootConfig demoBoot demoChecks [7] [(answer [1], False)] = BootRunning (emptyConfig\<lparr>wc_ListenPort := 51820, wc_PrivateKey := KeyString tableDevice [7]\<rparr>)"
    using k by (simp add: bootConfig_def demoBoot_def demoChecks_def demo_settings fetchLoop.simps demo_load emptyConfig_def)
  show "bootConfig demoBadPeer demoChecks [7] [(answer [1], False)] = BootRunning (badPeerConfig\<lparr>wc_PrivateKey := KeyString tableDevice [7]\<rparr>)"
    using k by (simp add: bootConfig_def demoBadPeer_def demoBoot_def demoChecks_def demo_settings fetchLoop.simps bad emptyConfig_def)
qed

lemma demo_device:
  "fst (bootDevice demoBoot demoChecks (emptyConfig\<lparr>wc_ListenPort := p, wc_PrivateKey := k\<rparr>) demoHost) = Inr None"
  "fst (bootDevice demoBadPeer demoChecks (badPeerConfig\<lparr>wc_PrivateKey := k\<rparr>) demoHost) = Inr (Some BadPublicKey)"
  "nd_wg (snd (bootDevice demoBadPeer demoChecks (badPeerConfig\<lparr>wc_PrivateKey := k\<rparr>) demoHost)) = []"
proof -
  have i: "ensureWireguardInterface (ifCfgOf E demoChecks) c [] ([''wg0''], []) = (IfOk, [], ([''wg0''], []), [])"
    if "be_shell E = brokenTables" for E :: "(wgPeer list, string list, (string, RouteRecord option \<times> time) gomap) bootEnv" and c
    using that by (simp add: ensureWireguardInterface_def ifCfgOf_def demoChecks_def demo_settings brokenTables_def)
  have t: "bootIFB E demoChecks kw = (None, kw)" for E :: "(wgPeer list, string list, (string, RouteRecord option \<times> time) gomap) bootEnv" and kw
    by (simp add: bootIFB_def demoChecks_def demoSettings_def readSettings_def boolSetting_def flagVal_def demoEnviron_def)
  have d: "Device tableDevice [] = (Some [], [])" by (simp add: tableDevice_def)
  have k: "ParseKey tableDevice ''?'' = None" by (simp add: tableDevice_def)
  show "fst (bootDevice demoBoot demoChecks (emptyConfig\<lparr>wc_ListenPort := p, wc_PrivateKey := k\<rparr>) demoHost) = Inr None"
    by (simp add: bootDevice_def i t demoBoot_def demoHost_def ensureWireguardPeers_def nodeCfgOf_def d emptyConfig_def)
  show "fst (bootDevice demoBadPeer demoChecks (badPeerConfig\<lparr>wc_PrivateKey := k\<rparr>) demoHost) = Inr (Some BadPublicKey)"
    "nd_wg (snd (bootDevice demoBadPeer demoChecks (badPeerConfig\<lparr>wc_PrivateKey := k\<rparr>) demoHost)) = []"
    by (simp_all add: bootDevice_def i t demoBoot_def demoBadPeer_def demoHost_def ensureWireguardPeers_def nodeCfgOf_def d badPeerConfig_def
        addPeerInternal_def k)
qed

lemma demo_boot: "\<exists>r n'. boot demoBoot demoEnviron [] [(answer [1], False)] [] demoHost = (BootRunning r, n') \<and> rn_peerError r = None
    \<and> rn_checks r = demoChecks \<and> rn_key r = [7]"
proof -
  let ?c = "emptyConfig\<lparr>wc_ListenPort := 51820, wc_PrivateKey := KeyString tableDevice [7]\<rparr>"
  obtain n' where d: "bootDevice demoBoot demoChecks ?c demoHost = (Inr None, n')"
    using demo_device(1) [where p = 51820 and k = "KeyString tableDevice [7]"] by (cases "bootDevice demoBoot demoChecks ?c demoHost") auto
  obtain r where r: "bootServices demoBoot demoEnviron demoChecks [7] ?c None n' = BootRunning r" using demo_services by blast
  have c: "startChecks (be_start demoBoot) demoEnviron [] = Inr demoChecks" by (simp add: demoBoot_def demo_checks)
  show ?thesis by (simp add: boot_def c demo_key demo_config d r services_running [OF r])
qed

text \<open>A peer that cannot be set up does not keep the node from coming up without it.\<close>

theorem boot_ignores_peer_error:
  "\<exists>r n'. boot demoBadPeer demoEnviron [] [(answer [1], False)] [] demoHost = (BootRunning r, n')
    \<and> rn_peerError r = Some BadPublicKey \<and> wc_Peers (rn_config r) \<noteq> [] \<and> nd_wg n' = []"
proof -
  let ?c = "badPeerConfig\<lparr>wc_PrivateKey := KeyString tableDevice [7]\<rparr>"
  obtain n' where d: "bootDevice demoBadPeer demoChecks ?c demoHost = (Inr (Some BadPublicKey), n')" "nd_wg n' = []"
    using demo_device(2,3) [of "KeyString tableDevice [7]"] by (cases "bootDevice demoBadPeer demoChecks ?c demoHost") auto
  obtain r where r: "bootServices demoBadPeer demoEnviron demoChecks [7] ?c (Some BadPublicKey) n' = BootRunning r"
    using demo_services demo_same_services by metis
  have c: "startChecks (be_start demoBadPeer) demoEnviron [] = Inr demoChecks" by (simp add: demoBadPeer_def demoBoot_def demo_checks)
  have "wc_Peers ?c \<noteq> []" by (simp add: badPeerConfig_def)
  then show ?thesis by (simp add: boot_def c demo_key demo_config d r services_running [OF r])
qed

lemma demo_private: "KeyString (be_wg demoBoot) k \<noteq> []" by (simp add: demoBoot_def tableDevice_def)

theorem booted_node_safe_witness:
  "\<exists>r n'. boot demoBoot demoEnviron [] [(answer [1], False)] [] demoHost = (BootRunning r, n')
    \<and> 32 \<le> length (st_controlAPIToken (pl_settings (rn_checks r))) \<and> (IsLoopback (rn_listener r) \<or> IsPrivate (rn_listener r)) \<and> rn_relay r \<noteq> None"
proof -
  obtain r n' where r: "boot demoBoot demoEnviron [] [(answer [1], False)] [] demoHost = (BootRunning r, n')" "rn_checks r = demoChecks"
    using demo_boot by blast
  have "pl_remoteConfigURL (rn_checks r) \<noteq> []" by (simp add: r demoChecks_def)
  then show ?thesis using booted_node_safe [OF r(1) demo_private] r(1) by blast
qed



end
