(* ===== verification/Node_System.thy ===== *)
theory Node_System
  imports Boot
begin

text \<open>
  A running node as one system: requests to the control API, the relay with its reader, workers and
  background handlers, and the connections of the SNI proxy, in any interleaving after \<open>boot\<close>.

  The API and the relay share the server, the API and the SNI proxy share the proxy.  \<open>sy_life\<close> and
  \<open>sy_api\<close> both show the server; \<open>syncLife\<close> and \<open>syncRelay\<close> keep the two views the same after a request
  and after a step of the relay.  A panic ends all of it.

  Shown: a run of the node projects to a run of the relay (requests act on it as its background handlers
  do) and to a run of the proxy, so what holds in all their runs holds in the node, whatever requests
  arrive; in particular what the proxy dials and where the relay's buffers are.
\<close>

record ('w, 'k, 'c) system =
  sy_api :: "('w, 'k, 'c) apiState"
  sy_life :: "life option"
  sy_run :: "(string \<times> nat) list"

definition startSystem :: "('w, 'k, 'c) running \<Rightarrow> ('w, 'k, 'c) system" where
  "startSystem r = \<lparr>sy_api = rn_api r, sy_life = rn_relay r, sy_run = []\<rparr>"

definition processAlive :: "('w, 'k, 'c) system \<Rightarrow> bool" where
  "processAlive y = (case sy_life y of None \<Rightarrow> True | Some l \<Rightarrow> alive l)"

definition syncLife :: "('w, 'k, 'c) apiState \<Rightarrow> life option \<Rightarrow> life option" where
  "syncLife s life = (case (nd_relay (as_node s), life) of (Some server, Some l) \<Rightarrow> Some (l\<lparr>lf_server := server\<rparr>) | _ \<Rightarrow> life)"

definition syncRelay :: "life \<Rightarrow> ('w, 'k, 'c) apiState \<Rightarrow> ('w, 'k, 'c) apiState" where
  "syncRelay l s = setRelay (lf_server l) s"

text \<open>\<open>Es\<close> are the surroundings requests are handled in: they differ in the time, for instance.\<close>

inductive system_step :: "('w, 'k, 'c, 'd) apiEnv set \<Rightarrow> 'c cacheOps \<Rightarrow> ('w, 'k, 'c) system \<Rightarrow> ('w, 'k, 'c) system \<Rightarrow> bool" for Es C where
  sys_request: "processAlive y \<Longrightarrow> E \<in> Es \<Longrightarrow> ae_cache E = C \<Longrightarrow> apiMux E d r (sy_api y) w = Some (w', s) \<Longrightarrow>
     system_step Es C y (y\<lparr>sy_api := s, sy_life := syncLife s (sy_life y)\<rparr>)"
| sys_relay: "sy_life y = Some l \<Longrightarrow> life_step l l' \<Longrightarrow>
     system_step Es C y (y\<lparr>sy_life := Some l', sy_api := syncRelay l' (sy_api y)\<rparr>)"
| sys_connection: "processAlive y \<Longrightarrow> sni_step C (as_sni (sy_api y), sy_run y) (p, run) \<Longrightarrow>
     system_step Es C y (y\<lparr>sy_api := (sy_api y)\<lparr>as_sni := p\<rparr>, sy_run := run\<rparr>)"

text \<open>An API for the demonstration host.\<close>

definition demoHostApi :: "(wgPeer list, string list, (string, RouteRecord option \<times> time) gomap, string) apiEnv" where
  "demoHostApi = \<lparr>ae_cfg = nodeCfgOf demoBoot demoChecks, ae_env = wEnv 1, ae_cache = demoCache, ae_router = demoRouterEnv,
     ae_token = st_controlAPIToken demoSettings, ae_sha256 = demoSha, ae_notifyURL = [], ae_metricsPath = Some ''/metrics'',
     ae_decodePeer = (\<lambda>_. None), ae_decodeMapping = (\<lambda>_. None), ae_decodeDestinations = (\<lambda>_. None), ae_decodeSNIs = (\<lambda>_. Some [''own''])\<rparr>"

text \<open>What a request may do to the relay and to the proxy.\<close>

definition apiEffect :: "'c cacheOps \<Rightarrow> ('w, 'k, 'c) apiState \<Rightarrow> ('w, 'k, 'c) apiState \<Rightarrow> bool" where
  "apiEffect C s s' \<longleftrightarrow> rel_option background_step\<^sup>*\<^sup>* (nd_relay (as_node s)) (nd_relay (as_node s')) \<and>
     (as_sni s' = as_sni s \<or> (\<exists>ds. as_sni s' = UpdateLocalSNIs C ds (as_sni s)))"

definition projects :: "'c cacheOps \<Rightarrow> life option \<Rightarrow> 'c SNIProxy \<Rightarrow> ('w, 'k, 'c) system \<Rightarrow> bool" where
  "projects C l0 p0 y \<longleftrightarrow> nd_relay (as_node (sy_api y)) = map_option lf_server (sy_life y) \<and>
     rel_option life_step\<^sup>*\<^sup>* l0 (sy_life y) \<and> (sni_step C)\<^sup>*\<^sup>* (p0, []) (as_sni (sy_api y), sy_run y)"

subsection \<open>Requests act on the relay as its background handlers do\<close>

lemma rel_relay_refl [simp]: "rel_option background_step\<^sup>*\<^sup>* r r"
  by (cases r) auto

lemma fold_OnPeer: "background_step\<^sup>*\<^sup>* s (fold OnPeerAdded ips s)" "background_step\<^sup>*\<^sup>* s (fold OnPeerRemoved ips s)"
  by (induction ips arbitrary: s)
    (auto simp: OnPeerAdded_def OnPeerRemoved_def intro: converse_rtranclp_into_rtranclp [where r = background_step] bg_peer)

lemma addPeer_effect: "addPeerInternal cfg peer n = (e, n') \<Longrightarrow> rel_option background_step\<^sup>*\<^sup>* (nd_relay n) (nd_relay n')"
  by (cases "nd_relay n") (auto simp: addPeerInternal_def Let_def fold_OnPeer split: option.splits prod.splits bool.splits)

lemma removePeer_effect: "removePeerInternal cfg k n = (e, n') \<Longrightarrow> rel_option background_step\<^sup>*\<^sup>* (nd_relay n) (nd_relay n')"
  by (cases "nd_relay n") (auto simp: removePeerInternal_def Let_def fold_OnPeer split: option.splits prod.splits bool.splits)

lemma effect_frame [simp]: "apiEffect C s (record_call c t) = apiEffect C s t" "apiEffect C s (notifyPeerChange E a k t) = apiEffect C s t"
  by (simp_all add: apiEffect_def record_call_def notifyPeerChange_def)

lemma effect_refl [simp]: "apiEffect C s s"
  by (simp add: apiEffect_def)

lemma effect_calls: "apiEffect C s (fold record_call calls t) = apiEffect C s t"
  by (induction calls arbitrary: t) auto

lemma effect_node: "rel_option background_step\<^sup>*\<^sup>* (nd_relay (as_node s)) (nd_relay n) \<Longrightarrow> apiEffect C s (s\<lparr>as_node := n\<rparr>)"
  by (simp add: apiEffect_def)

lemma handleAddPeer_effect: "apiEffect C s (snd (handleAddPeer E r s w))"
proof (cases "ae_decodePeer E (limitedBody r)")
  case (Some peer)
  obtain e n where n: "addPeerInternal (ae_cfg E) peer (as_node s) = (e, n)" by force
  note eff = effect_node [OF addPeer_effect [OF n], of C]
  show ?thesis using eff by (cases e) (simp_all add: handleAddPeer_def Some addPeer_def n)
qed (simp add: handleAddPeer_def)

lemma handleRemovePeer_effect: "apiEffect C s (snd (handleRemovePeer E r s w))"
proof -
  let ?k = "case Load (rq_Query r) ''public_key'' of Some (v # _) \<Rightarrow> v | _ \<Rightarrow> []"
  obtain e n where n: "removePeerInternal (ae_cfg E) ?k (as_node s) = (e, n)" by force
  note eff = effect_node [OF removePeer_effect [OF n], of C]
  show ?thesis
  proof (cases "?k = []")
    case False
    then show ?thesis using eff by (cases e) (simp_all add: handleRemovePeer_def removePeer_def n)
  qed (simp add: handleRemovePeer_def)
qed

lemma effect_setRelay:
  "nd_relay (as_node s) = Some relay \<Longrightarrow> background_step relay relay' \<Longrightarrow> apiEffect C s (setRelay relay' s)"
  by (simp add: apiEffect_def setRelay_def r_into_rtranclp)

lemma handleUpdateProxyMapping_effect: "apiEffect C s (snd (handleUpdateProxyMapping E r s w))"
proof -
  have u: "apiEffect C s (setRelay relay' s)" if "nd_relay (as_node s) = Some relay" "UpdateDestinationInMappings F a b relay = (c, relay')" for relay relay' F a b c
    using effect_setRelay [OF that(1) bg_update [of relay F a b]] that(2) by simp
  show ?thesis by (auto simp: handleUpdateProxyMapping_def u split: option.split prod.split)
qed

lemma handleUpdateDestinations_effect: "apiEffect C s (snd (handleUpdateDestinations E r s w))"
  by (auto simp: handleUpdateDestinations_def effect_setRelay bg_mapping split: option.split)

lemma handleUpdateLocalSNIs_effect: "apiEffect (ae_cache E) s (snd (handleUpdateLocalSNIs E r s w))"
  by (auto simp: handleUpdateLocalSNIs_def apiEffect_def split: option.splits)

lemma handlers_effect:
  "apiEffect C s (snd (handlePeer E r s w))" "apiEffect C s (snd (handleHealthz r s w))"
  by (simp_all add: handlePeer_def handleHealthz_def handleAddPeer_effect handleRemovePeer_effect)

lemma measured_effect:
  "measured ep d h r s w = Some (w', s') \<Longrightarrow> (\<And>ww. apiEffect C s (snd (h r s ww))) \<Longrightarrow> apiEffect C s s'"
  by (auto simp: measured_def httpMetricsMiddleware_def Let_def effect_calls split: prod.splits) (metis snd_conv)

lemma router_effect:
  assumes "routerRoute E d r s w = Some (w', s')"
  shows "apiEffect C s s'"
proof -
  obtain ww wg' tried where
    "handleRouter (ae_router E) r (nd_wg (as_node s)) \<lparr>ResponseWriter = w, statusCode = 200\<rparr> = Some (ww, wg', tried)"
    using assms by (cases "handleRouter (ae_router E) r (nd_wg (as_node s)) \<lparr>ResponseWriter = w, statusCode = 200\<rparr>") (auto simp: routerRoute_def)
  with assms have "measured ''router'' d (\<lambda>_ s' _. (ww, s'\<lparr>as_node := (as_node s')\<lparr>nd_wg := wg'\<rparr>\<rparr>)) r s w = Some (w', s')"
    by (simp add: routerRoute_def)
  then show ?thesis by (rule measured_effect) (simp add: apiEffect_def)
qed

lemma mux_effect:
  assumes "apiMux E d r s w = Some (w', s')"
  shows "apiEffect (ae_cache E) s s'"
proof -
  have auth: "apiEffect (ae_cache E) s s'"
    if "requireControlAuth E (measured ep d h) r s w = Some (w', s')" "\<And>ww. apiEffect (ae_cache E) s (snd (h r s ww))" for ep h
    using that measured_effect [of ep d h r s w w' s'] by (auto simp: requireControlAuth_def split: if_splits)
  consider "requireControlAuth E (measured ''peer'' d (handlePeer E)) r s w = Some (w', s')"
    | "requireControlAuth E (measured ''update_proxy_mapping'' d (handleUpdateProxyMapping E)) r s w = Some (w', s')"
    | "requireControlAuth E (measured ''update_destinations'' d (handleUpdateDestinations E)) r s w = Some (w', s')"
    | "requireControlAuth E (measured ''update_local_snis'' d (handleUpdateLocalSNIs E)) r s w = Some (w', s')"
    | "measured ''healthz'' d handleHealthz r s w = Some (w', s')" | "routerRoute E d r s w = Some (w', s')" | "s' = s"
    using assms by (auto simp: apiMux_def requireControlAuth_def metricsHandler_def split: if_splits)
  then show ?thesis
    by cases (auto intro: auth handlers_effect handleUpdateProxyMapping_effect handleUpdateDestinations_effect
        handleUpdateLocalSNIs_effect measured_effect router_effect)
qed

subsection \<open>The projection\<close>

lemma background_life:
  assumes "background_step\<^sup>*\<^sup>* (lf_server l) s" "alive l"
  shows "life_step\<^sup>*\<^sup>* l (l\<lparr>lf_server := s\<rparr>)"
  using assms(1)
proof (induction rule: rtranclp_induct)
  case (step u v)
  have "life_step (l\<lparr>lf_server := u\<rparr>) (l\<lparr>lf_server := v\<rparr>)"
    using life_alive [OF _ lf_background [of "l\<lparr>lf_server := u\<rparr>" v]] step(2) assms(2) by (simp add: alive_def)
  with step.IH show ?case by (rule rtranclp.rtrancl_into_rtrancl)
qed simp

lemma sync_life:
  assumes "nd_relay (as_node s) = map_option lf_server life" "apiEffect C s s'" "\<And>l. life = Some l \<Longrightarrow> alive l"
  shows "nd_relay (as_node s') = map_option lf_server (syncLife s' life)" "rel_option life_step\<^sup>*\<^sup>* life (syncLife s' life)"
proof -
  have "nd_relay (as_node s') = map_option lf_server (syncLife s' life) \<and> rel_option life_step\<^sup>*\<^sup>* life (syncLife s' life)"
  proof (cases life)
    case None
    with assms(1,2) show ?thesis by (simp add: apiEffect_def syncLife_def)
  next
    case (Some l)
    with assms(1,2) obtain r where r: "nd_relay (as_node s') = Some r" "background_step\<^sup>*\<^sup>* (lf_server l) r"
      by (auto simp: apiEffect_def option_rel_Some1)
    with background_life [OF r(2) assms(3) [OF Some]] Some show ?thesis by (simp add: syncLife_def)
  qed
  then show "nd_relay (as_node s') = map_option lf_server (syncLife s' life)" "rel_option life_step\<^sup>*\<^sup>* life (syncLife s' life)" by blast+
qed

lemma rel_life_trans: "rel_option life_step\<^sup>*\<^sup>* a b \<Longrightarrow> rel_option life_step\<^sup>*\<^sup>* b c \<Longrightarrow> rel_option life_step\<^sup>*\<^sup>* a c"
  by (cases a; cases b; cases c) auto

interpretation node_sys: step_system "system_step Es C" "projects C l0 p0" for Es C l0 p0
proof
  fix y z assume "system_step Es C y z" and inv: "projects C l0 p0 y"
  then show "projects C l0 p0 z"
  proof cases
    case (sys_request E d r w w' s)
    have eff: "apiEffect C (sy_api y) s" using mux_effect [OF sys_request(5)] sys_request(4) by simp
    have al: "alive l" if "sy_life y = Some l" for l using sys_request(2) that by (simp add: processAlive_def)
    note sync = sync_life [OF _ eff al, of "sy_life y"]
    have "(sni_step C)\<^sup>*\<^sup>* (as_sni (sy_api y), sy_run y) (as_sni s, sy_run y)"
      using eff ss_update [of C "as_sni (sy_api y)" "sy_run y"] by (auto simp: apiEffect_def)
    with inv sync rel_life_trans show ?thesis unfolding sys_request(1) by (auto simp: projects_def)
  next
    case (sys_relay l l')
    have "rel_option life_step\<^sup>*\<^sup>* (sy_life y) (Some l')" using sys_relay(2,3) by simp
    with inv rel_life_trans show ?thesis unfolding sys_relay(1) by (auto simp: projects_def syncRelay_def setRelay_def)
  next
    case (sys_connection p run)
    with inv show ?thesis by (auto simp: projects_def)
  qed
qed

lemma start_projects: "boot E env args attempts fs n = (BootRunning r, n') \<Longrightarrow> projects C (rn_relay r) (as_sni (rn_api r)) (startSystem r)"
proof -
  assume "boot E env args attempts fs n = (BootRunning r, n')"
  note s = services_running [OF boot_running(5) [OF this]]
  have "rel_option life_step\<^sup>*\<^sup>* (rn_relay r) (rn_relay r)" by (cases "rn_relay r") auto
  then show ?thesis by (simp add: projects_def startSystem_def s(8))
qed

lemma boot_dials:
  assumes "bootSNI E env c key = Inr p0" "cache_laws C routeCacheTTL" "\<And>t h. co_Get C t h (be_cache E) = None"
    and "(sni_step C)\<^sup>*\<^sup>* (p0, []) (p, run)" "a \<in> set (sp_dials p)"
  shows "a = JoinHostPort (st_localProxyAddr (pl_settings c)) (Itoa (st_localProxyPort (pl_settings c))) \<or>
    (\<exists>ip nets net. parseNetworks (splitList (st_proxyAllowedCIDRsStr (pl_settings c))) = Inr nets \<and> net \<in> set nets
      \<and> Prefix_Contains net (Unmap ip) \<and> a = JoinHostPort (Addr_String ip) ''443'')"
proof -
  let ?st = "pl_settings c"
  have new: "NewSNIProxy (se_parseURL (be_start E)) (be_lookupIP E) (be_cache E)
      (loadSNITunnelIdleTimeout (vp_Duration (se_values (be_start E))) env) (st_sniProxyPort ?st) (pl_remoteConfigURL c) (be_public E key)
      (st_localProxyAddr ?st) (st_localProxyPort ?st) (splitList (st_localOverridesStr ?st)) (st_proxyProtocol ?st)
      (splitList (st_trustedUpstreamsStr ?st)) (splitList (st_proxyAllowedCIDRsStr ?st)) = Inr p0"
    using assms(1) by (auto simp: bootSNI_def Let_def split: sum.splits option.splits)
  have "sni_inv C p" using sni_sec.run_inv [OF assms(4)] NewSNIProxy_init(1) [OF new assms(2,3)] by simp
  then have "dial_ok p a" using assms(5) by (simp add: sni_inv_def)
  then have "dial_ok p0 a" using config_eqs(3) [OF sni_run_config [OF assms(4), simplified]] by simp
  moreover have "localDial p0 = JoinHostPort (st_localProxyAddr ?st) (Itoa (st_localProxyPort ?st))"
    using new by (auto simp: NewSNIProxy_def localDial_def split: if_splits sum.splits)
  ultimately show ?thesis using sni_running(1) [OF assms(1)] by (auto simp: dial_ok_def addrAllowed_def list_ex_iff)
qed

subsection \<open>Properties\<close>

text \<open>
  C3: in every state a booted node reaches, under any interleaving of control requests, packets, timers,
  connections and a stop of the relay: the API and the relay agree on the relay's tables; every address
  the SNI proxy dialled is the configured local proxy or port 443 of an address in the configured
  networks; and every packet buffer of the relay is in the pool once or held once, with the
  channel and the busy workers within their bounds.
\<close>

theorem node_system_safe:
  assumes "boot E env args attempts fs n = (BootRunning r, n')" "cache_laws C routeCacheTTL" "\<And>t h. co_Get C t h (be_cache E) = None"
    and "(system_step Es C)\<^sup>*\<^sup>* (startSystem r) y"
  shows "nd_relay (as_node (sy_api y)) = map_option lf_server (sy_life y)
    \<and> (\<forall>a \<in> set (sp_dials (as_sni (sy_api y))).
        a = JoinHostPort (st_localProxyAddr (pl_settings (rn_checks r))) (Itoa (st_localProxyPort (pl_settings (rn_checks r)))) \<or>
        (\<exists>ip nets net. parseNetworks (splitList (st_proxyAllowedCIDRsStr (pl_settings (rn_checks r)))) = Inr nets \<and> net \<in> set nets
          \<and> Prefix_Contains net (Unmap ip) \<and> a = JoinHostPort (Addr_String ip) ''443''))
    \<and> (\<forall>l. sy_life y = Some l \<longrightarrow>
        mset (s_pool (lf_server l)) + mset (inFlight l) = mset [0..<lf_next l] \<and> length (lf_chan l) \<le> 50000
        \<and> length (lf_busy l) \<le> max 20 (10 * be_numCPU E))"
proof -
  have p: "projects C (rn_relay r) (as_sni (rn_api r)) y" by (rule node_sys.run_inv [OF assms(4) start_projects [OF assms(1)]])
  note s = services_running [OF boot_running(5) [OF assms(1)]]
  have "mset (s_pool (lf_server l)) + mset (inFlight l) = mset [0..<lf_next l] \<and> length (lf_chan l) \<le> 50000
      \<and> length (lf_busy l) \<le> max 20 (10 * be_numCPU E)" if "sy_life y = Some l" for l
  proof -
    from p that obtain l0 where l0: "rn_relay r = Some l0" "life_step\<^sup>*\<^sup>* l0 l" by (auto simp: projects_def option_rel_Some2)
    from started_inv [OF relay_running l0(2)] s(1) l0(1) have "life_inv (workerCount (be_numCPU E)) l" by simp
    then show ?thesis by (simp add: life_inv_def packetChanCap_def workerCount_pos(2) [symmetric])
  qed
  moreover have "(sni_step C)\<^sup>*\<^sup>* (as_sni (rn_api r), []) (as_sni (sy_api y), sy_run y)" using p by (simp add: projects_def)
  note dials = boot_dials [OF s(2) assms(2,3) this]
  ultimately show ?thesis using p by (simp add: projects_def dials)
qed

theorem node_system_safe_witness:
  "\<exists>r n' y. boot demoBoot demoEnviron [] [(answer [1], False)] [] demoHost = (BootRunning r, n') \<and> (system_step {demoHostApi} demoCache)\<^sup>*\<^sup>* (startSystem r) y \<and>
     sy_life y \<noteq> None \<and> nd_relay (as_node (sy_api y)) = map_option lf_server (sy_life y)"
proof -
  obtain r n' where r: "boot demoBoot demoEnviron [] [(answer [1], False)] [] demoHost = (BootRunning r, n')" "rn_checks r = demoChecks"
    using demo_boot by blast
  note s = services_running [OF boot_running(5) [OF r(1)]]
  have "pl_remoteConfigURL (rn_checks r) \<noteq> []" by (simp add: r demoChecks_def)
  then obtain l where l: "rn_relay r = Some l" using relay_iff [OF s(1)] by auto
  have al: "alive l" "lf_reader l = AtTop" using relay_running [OF s(1) [unfolded l]] by (auto simp: Start_def alive_def)
  let ?y = "(startSystem r)\<lparr>sy_life := Some (readTop l), sy_api := syncRelay (readTop l) (sy_api (startSystem r))\<rparr>"
  have "system_step {demoHostApi} demoCache (startSystem r) ?y"
    by (rule sys_relay [of _ l]) (simp_all add: startSystem_def l life_alive [OF al(1) lf_top [OF al(2)]])
  then have run: "(system_step {demoHostApi} demoCache)\<^sup>*\<^sup>* (startSystem r) ?y" by blast
  have empty: "co_Get demoCache t h (be_cache demoBoot) = None" for t h by (simp add: demoCache_def demoBoot_def)
  from node_system_safe [OF r(1) demoCache_laws empty run] r(1) run show ?thesis by (intro exI [of _ r] exI [of _ n'] exI [of _ ?y]) simp
qed

end
