(* ===== verification/SNI_Accept.thy ===== *)
theory SNI_Accept
  imports SNI_ProxyProtocol
begin

text \<open>
  The accept loop of the SNI proxy (\<open>acceptConnections\<close> in \<open>proxy/proxy.go\<close>) against the
  goroutines that finish connections, with every atomic operation a step of its own.

  The accept loop is one goroutine: \<open>ac_pend\<close> is where it stands in its body.  A handler is a
  goroutine with the host and the counter it was started with, and where it stands: serving, or in
  its deferred calls.  A per-IP counter is an object (\<open>*atomic.Int64\<close>): a reference into
  \<open>ac_counter\<close>; \<open>ac_perIP\<close> is the \<open>sync.Map\<close> from hosts to references.

  Shown: the limit on all connections holds in every interleaving, no counter passes the limit per
  address, the gauge agrees with the number of connections up to the steps in flight, and the map of
  counters never has more entries than there are handlers and the pending accept.  The limit per
  address itself can be exceeded: a delayed \<open>CompareAndDelete\<close> drops a counter that is in use again.
\<close>

datatype acceptPC =
    Listening
  | Checked string
  | Loaded string nat
  | Admitted string nat
  | Counted string nat
  | Activated string nat

datatype handlerPC = Serving | Deactivated | Recorded | Zeroed

record handler =
  h_host :: string
  h_ref :: nat
  h_pc :: handlerPC

record acceptState =
  ac_active :: int
  ac_counter :: "nat \<Rightarrow> int"
  ac_next :: nat
  ac_perIP :: "(string, nat) gomap"
  ac_pend :: acceptPC
  ac_handlers :: "handler list"
  ac_mlog :: "call list"

definition remoteHostOf :: "NetAddr \<Rightarrow> string" where
  "remoteHostOf addr = (case SplitHostPort (NetAddr_String addr) of Some (h, _) \<Rightarrow> h | None \<Rightarrow> NetAddr_String addr)"

definition aclog :: "call \<Rightarrow> acceptState \<Rightarrow> acceptState" where
  "aclog c s = s\<lparr>ac_mlog := ac_mlog s @ [c]\<rparr>"

definition checkGlobal :: "int \<Rightarrow> NetAddr \<Rightarrow> acceptState \<Rightarrow> acceptState" where
  "checkGlobal maxSNIConnections addr s =
     (if maxSNIConnections \<le> ac_active s then aclog (RecordSNIConnection ''rejected_max_connections'') s
      else s\<lparr>ac_pend := Checked (remoteHostOf addr)\<rparr>)"

definition loadCounter :: "string \<Rightarrow> acceptState \<Rightarrow> acceptState" where
  "loadCounter host s =
     (let (ref, loaded, m) = loadOrStore host (ac_next s) (ac_perIP s) in
      s\<lparr>ac_perIP := m, ac_next := Suc (ac_next s), ac_pend := Loaded host ref\<rparr>)"

definition checkPerIP :: "int \<Rightarrow> string \<Rightarrow> nat \<Rightarrow> acceptState \<Rightarrow> acceptState" where
  "checkPerIP maxSNIConnectionsPerIP host ref s =
     (if maxSNIConnectionsPerIP \<le> ac_counter s ref
      then (aclog (RecordSNIConnection ''rejected_per_ip_limit'') s)\<lparr>ac_pend := Listening\<rparr>
      else s\<lparr>ac_pend := Admitted host ref\<rparr>)"

definition addCounter :: "nat \<Rightarrow> int \<Rightarrow> acceptState \<Rightarrow> acceptState" where
  "addCounter ref d s = s\<lparr>ac_counter := (ac_counter s)(ref := ac_counter s ref + d)\<rparr>"

definition spawn :: "string \<Rightarrow> nat \<Rightarrow> acceptState \<Rightarrow> acceptState" where
  "spawn host ref s = (aclog (RecordSNIActiveConnection 1) s)
     \<lparr>ac_pend := Listening, ac_handlers := ac_handlers s @ [\<lparr>h_host = host, h_ref = ref, h_pc = Serving\<rparr>]\<rparr>"

definition compareAndDelete :: "string \<Rightarrow> nat \<Rightarrow> acceptState \<Rightarrow> acceptState" where
  "compareAndDelete host ref s =
     (if Load (ac_perIP s) host = Some ref then s\<lparr>ac_perIP := Delete host (ac_perIP s)\<rparr> else s)"

text \<open>One step of the handler at position \<open>i\<close>.\<close>

definition handlerStep :: "nat \<Rightarrow> acceptState \<Rightarrow> acceptState" where
  "handlerStep i s =
     (let h = ac_handlers s ! i;
          goto = (\<lambda>pc. (ac_handlers s)[i := h\<lparr>h_pc := pc\<rparr>]);
          leave = take i (ac_handlers s) @ drop (Suc i) (ac_handlers s) in
      case h_pc h of
        Serving \<Rightarrow> s\<lparr>ac_active := ac_active s - 1, ac_handlers := goto Deactivated\<rparr>
      | Deactivated \<Rightarrow> (aclog (RecordSNIActiveConnection (- 1)) s)\<lparr>ac_handlers := goto Recorded\<rparr>
      | Recorded \<Rightarrow>
          let t = addCounter (h_ref h) (- 1) s in
          if ac_counter t (h_ref h) = 0 then t\<lparr>ac_handlers := goto Zeroed\<rparr> else t\<lparr>ac_handlers := leave\<rparr>
      | Zeroed \<Rightarrow> (compareAndDelete (h_host h) (h_ref h) s)\<lparr>ac_handlers := leave\<rparr>)"

text \<open>One step of the accept loop; \<open>addr\<close> is the remote address when a connection arrives.\<close>

definition acceptLoopStep :: "int \<Rightarrow> int \<Rightarrow> NetAddr \<Rightarrow> acceptState \<Rightarrow> acceptState" where
  "acceptLoopStep maxSNIConnections maxSNIConnectionsPerIP addr s =
     (case ac_pend s of
        Listening \<Rightarrow> checkGlobal maxSNIConnections addr s
      | Checked host \<Rightarrow> loadCounter host s
      | Loaded host ref \<Rightarrow> checkPerIP maxSNIConnectionsPerIP host ref s
      | Admitted host ref \<Rightarrow> (addCounter ref 1 s)\<lparr>ac_pend := Counted host ref\<rparr>
      | Counted host ref \<Rightarrow> s\<lparr>ac_active := ac_active s + 1, ac_pend := Activated host ref\<rparr>
      | Activated host ref \<Rightarrow> spawn host ref s)"

inductive accept_step :: "int \<Rightarrow> int \<Rightarrow> acceptState \<Rightarrow> acceptState \<Rightarrow> bool" for M P where
  as_loop: "accept_step M P s (acceptLoopStep M P addr s)"
| as_handler: "i < length (ac_handlers s) \<Longrightarrow> accept_step M P s (handlerStep i s)"
| as_order: "mset m = mset (ac_perIP s) \<Longrightarrow> accept_step M P s (s\<lparr>ac_perIP := m\<rparr>)"

definition acceptInit :: acceptState where
  "acceptInit = \<lparr>ac_active = 0, ac_counter = (\<lambda>_. 0), ac_next = 0, ac_perIP = [], ac_pend = Listening, ac_handlers = [], ac_mlog = []\<rparr>"

text \<open>A schedule: which goroutine moves next.\<close>

datatype move = Loop NetAddr | Handler nat

fun runMoves :: "int \<Rightarrow> int \<Rightarrow> move list \<Rightarrow> acceptState \<Rightarrow> acceptState" where
  "runMoves M P [] s = s"
| "runMoves M P (Loop addr # ms) s = runMoves M P ms (acceptLoopStep M P addr s)"
| "runMoves M P (Handler i # ms) s = (if i < length (ac_handlers s) then runMoves M P ms (handlerStep i s) else s)"

definition oneClient :: NetAddr where
  "oneClient = TCPAddr [10, 0, 0, 7] 4000 []"

definition lateDelete :: "move list" where
  "lateDelete = replicate 6 (Loop oneClient) @ replicate 3 (Handler 0) @ replicate 12 (Loop oneClient) @
     [Handler 0] @ replicate 12 (Loop oneClient)"

subsection \<open>Counting\<close>

definition serving :: "acceptState \<Rightarrow> int" where
  "serving s = int (length (filter (\<lambda>h. h_pc h = Serving) (ac_handlers s)))"

definition holders :: "nat \<Rightarrow> acceptState \<Rightarrow> int" where
  "holders r s = int (length (filter (\<lambda>h. h_ref h = r \<and> h_pc h \<noteq> Zeroed) (ac_handlers s)))"

fun pendRef :: "acceptPC \<Rightarrow> (string \<times> nat) option" where
  "pendRef Listening = None"
| "pendRef (Checked h) = None"
| "pendRef (Loaded h r) = Some (h, r)"
| "pendRef (Admitted h r) = Some (h, r)"
| "pendRef (Counted h r) = Some (h, r)"
| "pendRef (Activated h r) = Some (h, r)"

fun pendCounted :: "acceptPC \<Rightarrow> nat option" where
  "pendCounted (Counted h r) = Some r"
| "pendCounted (Activated h r) = Some r"
| "pendCounted _ = None"

definition activated :: "acceptPC \<Rightarrow> bool" where
  "activated pc \<longleftrightarrow> (case pc of Activated _ _ \<Rightarrow> True | _ \<Rightarrow> False)"

definition refPairs :: "acceptState \<Rightarrow> (string \<times> nat) set" where
  "refPairs s = set (ac_perIP s) \<union> (\<lambda>h. (h_host h, h_ref h)) ` set (ac_handlers s) \<union> set_option (pendRef (ac_pend s))"

definition zeroing :: "string \<Rightarrow> nat \<Rightarrow> acceptState \<Rightarrow> bool" where
  "zeroing h r s \<longleftrightarrow> (\<exists>k \<in> set (ac_handlers s). h_host k = h \<and> h_ref k = r \<and> h_pc k = Zeroed)"

definition entryLive :: "string \<Rightarrow> nat \<Rightarrow> acceptState \<Rightarrow> bool" where
  "entryLive h r s \<longleftrightarrow> 0 < ac_counter s r \<or> pendRef (ac_pend s) = Some (h, r) \<or> zeroing h r s"

definition active_inv :: "int \<Rightarrow> acceptState \<Rightarrow> bool" where
  "active_inv M s \<longleftrightarrow> ac_active s = serving s + (if activated (ac_pend s) then 1 else 0) \<and> ac_active s \<le> M \<and>
     (\<not> activated (ac_pend s) \<and> ac_pend s \<noteq> Listening \<longrightarrow> ac_active s < M)"

definition count_inv :: "int \<Rightarrow> acceptState \<Rightarrow> bool" where
  "count_inv P s \<longleftrightarrow> (\<forall>r. ac_counter s r = holders r s + (if pendCounted (ac_pend s) = Some r then 1 else 0)) \<and>
     (\<forall>r. ac_counter s r \<le> P) \<and> (\<forall>h r. ac_pend s = Admitted h r \<longrightarrow> ac_counter s r < P)"

definition map_inv :: "acceptState \<Rightarrow> bool" where
  "map_inv s \<longleftrightarrow> wf_map (ac_perIP s) \<and> (\<forall>(h, r) \<in> refPairs s. r < ac_next s) \<and>
     (\<forall>h h' r. (h, r) \<in> refPairs s \<longrightarrow> (h', r) \<in> refPairs s \<longrightarrow> h = h') \<and>
     (\<forall>(h, r) \<in> set (ac_perIP s). entryLive h r s)"

definition accept_inv :: "int \<Rightarrow> int \<Rightarrow> acceptState \<Rightarrow> bool" where
  "accept_inv M P s \<longleftrightarrow> 0 < P \<and> active_inv M s \<and> count_inv P s \<and> map_inv s"

definition gauge_inv :: "acceptState \<Rightarrow> bool" where
  "gauge_inv s \<longleftrightarrow> gauge (SniVar V_sniActiveConnections) (ac_mlog s) =
     serving s + int (length (filter (\<lambda>h. h_pc h = Deactivated) (ac_handlers s)))"

lemma aclog_fields [simp]:
  "ac_active (aclog c s) = ac_active s" "ac_counter (aclog c s) = ac_counter s" "ac_next (aclog c s) = ac_next s"
  "ac_perIP (aclog c s) = ac_perIP s" "ac_pend (aclog c s) = ac_pend s" "ac_handlers (aclog c s) = ac_handlers s"
  "ac_mlog (aclog c s) = ac_mlog s @ [c]"
  by (simp_all add: aclog_def)

lemma addCounter_fields [simp]:
  "ac_active (addCounter r d s) = ac_active s" "ac_next (addCounter r d s) = ac_next s"
  "ac_perIP (addCounter r d s) = ac_perIP s" "ac_pend (addCounter r d s) = ac_pend s"
  "ac_handlers (addCounter r d s) = ac_handlers s" "ac_mlog (addCounter r d s) = ac_mlog s"
  "ac_counter (addCounter r d s) = (ac_counter s)(r := ac_counter s r + d)"
  by (simp_all add: addCounter_def)

lemma compareAndDelete_fields [simp]:
  "ac_active (compareAndDelete h r s) = ac_active s" "ac_next (compareAndDelete h r s) = ac_next s"
  "ac_pend (compareAndDelete h r s) = ac_pend s" "ac_handlers (compareAndDelete h r s) = ac_handlers s"
  "ac_mlog (compareAndDelete h r s) = ac_mlog s" "ac_counter (compareAndDelete h r s) = ac_counter s"
  by (simp_all add: compareAndDelete_def)

lemma activated_simps [simp]:
  "\<not> activated Listening" "\<not> activated (Checked h)" "\<not> activated (Loaded h r)" "\<not> activated (Admitted h r)"
  "\<not> activated (Counted h r)" "activated (Activated h r)"
  by (simp_all add: activated_def)

lemma split_at:
  assumes "i < length hs"
  shows "\<exists>xs ys. hs = xs @ hs ! i # ys \<and> (\<forall>k. hs[i := k] = xs @ k # ys) \<and> take i hs @ drop (Suc i) hs = xs @ ys"
  using id_take_nth_drop [OF assms] upd_conv_take_nth_drop [OF assms] by blast

lemma wf_map_keys: "wf_map m \<Longrightarrow> (k, v) \<in> set m \<Longrightarrow> Load m k = Some v"
  by (simp add: wf_map_def)

lemma refPairs_fresh: "map_inv s \<Longrightarrow> (h, r) \<in> refPairs s \<Longrightarrow> r < ac_next s"
  by (auto simp: map_inv_def)

lemma map_invI:
  assumes "wf_map (ac_perIP s)" "\<And>h r. (h, r) \<in> refPairs s \<Longrightarrow> r < ac_next s"
    and "\<And>h h' r. (h, r) \<in> refPairs s \<Longrightarrow> (h', r) \<in> refPairs s \<Longrightarrow> h = h'"
    and "\<And>h r. (h, r) \<in> set (ac_perIP s) \<Longrightarrow> entryLive h r s"
  shows "map_inv s"
  unfolding map_inv_def using assms by fast

lemma refPairs_functional: "map_inv s \<Longrightarrow> (h, r) \<in> refPairs s \<Longrightarrow> (h', r) \<in> refPairs s \<Longrightarrow> h = h'"
  unfolding map_inv_def by blast

lemma fresh_counter:
  assumes "count_inv P s" "map_inv s" "ac_next s \<le> r"
  shows "ac_counter s r = 0"
proof -
  have a: "\<And>h. (h, r) \<notin> refPairs s" using refPairs_fresh [OF assms(2)] assms(3) by (meson not_less)
  then have "filter (\<lambda>h. h_ref h = r \<and> h_pc h \<noteq> Zeroed) (ac_handlers s) = []"
    by (force simp: refPairs_def filter_empty_conv)
  moreover have "pendCounted (ac_pend s) \<noteq> Some r"
    using a by (cases "ac_pend s") (auto simp: refPairs_def)
  ultimately show ?thesis using assms(1) by (simp add: count_inv_def holders_def)
qed

lemma map_inv_keep:
  assumes "map_inv s" "refPairs t \<subseteq> refPairs s" "set (ac_perIP t) \<subseteq> set (ac_perIP s)" "wf_map (ac_perIP t)" "ac_next s \<le> ac_next t"
    and "\<And>h r. (h, r) \<in> set (ac_perIP t) \<Longrightarrow> entryLive h r s \<Longrightarrow> entryLive h r t"
  shows "map_inv t"
proof -
  have "r < ac_next t" if "(h, r) \<in> refPairs t" for h r
    using refPairs_fresh [OF assms(1)] that assms(2,5) by fastforce
  moreover have "h = h'" if "(h, r) \<in> refPairs t" "(h', r) \<in> refPairs t" for h h' r
    using refPairs_functional [OF assms(1)] assms(2) that by blast
  moreover have "entryLive h r t" if "(h, r) \<in> set (ac_perIP t)" for h r
    using assms(1,3,6) that unfolding map_inv_def by blast
  ultimately show ?thesis using assms(4) by (intro map_invI)
qed

lemma map_inv_same:
  assumes "map_inv s" "refPairs t \<subseteq> refPairs s" "ac_perIP t = ac_perIP s" "ac_next s = ac_next t"
    and "\<And>h r. (h, r) \<in> set (ac_perIP s) \<Longrightarrow> entryLive h r s \<Longrightarrow> entryLive h r t"
  shows "map_inv t"
  by (rule map_inv_keep [OF assms(1,2)]) (use assms in \<open>auto simp: map_inv_def\<close>)

lemma count_invD:
  assumes "count_inv P s"
  shows "ac_counter s r \<le> P" "ac_counter s r = holders r s + (if pendCounted (ac_pend s) = Some r then 1 else 0)"
  using assms unfolding count_inv_def by blast+

subsection \<open>The accept loop\<close>

lemma loadCounter_active: "active_inv M s \<Longrightarrow> ac_pend s = Checked h \<Longrightarrow> active_inv M (loadCounter h s)"
  by (auto simp: active_inv_def loadCounter_def serving_def split: prod.splits)

lemma loadCounter_count: "count_inv P s \<Longrightarrow> ac_pend s = Checked h \<Longrightarrow> count_inv P (loadCounter h s)"
  by (auto simp: count_inv_def loadCounter_def holders_def split: prod.splits)

lemma loadCounter_map:
  assumes "map_inv s" "ac_pend s = Checked h"
  shows "map_inv (loadCounter h s)"
proof (cases "Load (ac_perIP s) h")
  case None
  let ?n = "ac_next s" and ?t = "loadCounter h s"
  have st: "ac_perIP ?t = ac_perIP s @ [(h, ?n)]"
    using None Store_new [of "ac_perIP s" h ?n] by (simp add: hasKey_def loadCounter_def loadOrStore_def)
  have w: "wf_map (ac_perIP ?t)"
    using assms(1) None by (auto simp: map_inv_def loadCounter_def loadOrStore_def)
  have f: "(h', ?n) \<notin> refPairs s" for h' using refPairs_fresh [OF assms(1)] by blast
  have p: "refPairs ?t = insert (h, ?n) (refPairs s)"
    using None st assms(2) by (auto simp: refPairs_def loadCounter_def loadOrStore_def)
  have n: "ac_next ?t = Suc ?n" by (simp add: loadCounter_def split: prod.splits)
  have e: "entryLive h' r ?t" if "(h', r) \<in> set (ac_perIP ?t)" for h' r
    using that assms None unfolding st
    by (auto simp: map_inv_def entryLive_def loadCounter_def loadOrStore_def zeroing_def)
  have "r < Suc ?n" if "(h', r) \<in> insert (h, ?n) (refPairs s)" for h' r
    using that refPairs_fresh [OF assms(1), of h' r] by auto
  moreover have "a = b" if "(a, r) \<in> insert (h, ?n) (refPairs s)" "(b, r) \<in> insert (h, ?n) (refPairs s)" for a b r
  proof (cases "r = ?n")
    case True
    then show ?thesis using that f [of a] f [of b] by simp
  next
    case False
    then show ?thesis using that refPairs_functional [OF assms(1), of a r b] by simp
  qed
  ultimately show ?thesis using w e by (intro map_invI) (auto simp only: p n)
next
  case (Some r)
  let ?t = "loadCounter h s"
  have m: "(h, r) \<in> set (ac_perIP s)" using Some by (rule map_of_SomeD)
  show ?thesis
  proof (rule map_inv_keep [OF assms(1)])
    show "refPairs ?t \<subseteq> refPairs s" using Some m by (auto simp: refPairs_def loadCounter_def loadOrStore_def)
    show "entryLive h' r' ?t" if "entryLive h' r' s" for h' r'
      using that Some assms(2) by (auto simp: entryLive_def loadCounter_def loadOrStore_def zeroing_def)
  qed (use Some assms(1) in \<open>auto simp: loadCounter_def loadOrStore_def map_inv_def\<close>)
qed

lemma loop_active: "active_inv M s \<Longrightarrow> active_inv M (acceptLoopStep M P addr s)"
  by (cases "ac_pend s")
    (simp_all add: acceptLoopStep_def loadCounter_active, auto simp: active_inv_def checkGlobal_def checkPerIP_def spawn_def serving_def)

lemma loop_count:
  assumes "count_inv P s"
  shows "count_inv P (acceptLoopStep M P addr s)"
proof (cases "ac_pend s")
  case (Checked h)
  then show ?thesis using assms by (simp add: acceptLoopStep_def loadCounter_count)
next
  case (Activated h r)
  have b: "ac_counter s x \<le> P" and c: "ac_counter s x = holders x s + (if r = x then 1 else 0)" for x
    using count_invD [OF assms, of x] Activated by simp_all
  have "count_inv P (spawn h r s)" unfolding count_inv_def
    using b c by (auto simp: spawn_def holders_def)
  with Activated show ?thesis by (simp add: acceptLoopStep_def)
next
  case (Counted h r)
  have b: "ac_counter s x \<le> P" and c: "ac_counter s x = holders x s + (if r = x then 1 else 0)" for x
    using count_invD [OF assms, of x] Counted by simp_all
  have "count_inv P (s\<lparr>ac_active := ac_active s + 1, ac_pend := Activated h r\<rparr>)" unfolding count_inv_def
    using b c by (auto simp: holders_def)
  with Counted show ?thesis by (simp add: acceptLoopStep_def)
qed (use assms in \<open>auto simp: acceptLoopStep_def count_inv_def checkGlobal_def checkPerIP_def holders_def\<close>)

lemma loop_map:
  assumes "map_inv s" "count_inv P s" "0 < P"
  shows "map_inv (acceptLoopStep M P addr s)"
proof (cases "ac_pend s")
  case (Checked h)
  then show ?thesis using assms by (simp add: acceptLoopStep_def loadCounter_map)
next
  case (Loaded h r)
  let ?t = "acceptLoopStep M P addr s"
  have t: "?t = checkPerIP P h r s" by (simp add: acceptLoopStep_def Loaded)
  show ?thesis unfolding t
  proof (rule map_inv_same [OF assms(1)])
    show "entryLive h' r' (checkPerIP P h r s)" if "entryLive h' r' s" for h' r'
      using that Loaded assms(3) by (auto simp: checkPerIP_def entryLive_def zeroing_def)
  qed (auto simp: checkPerIP_def refPairs_def Loaded)
next
  case (Activated h r)
  let ?t = "acceptLoopStep M P addr s"
  have pos: "0 < ac_counter s r" using assms(2) Activated by (simp add: count_inv_def holders_def)
  have t: "?t = spawn h r s" by (simp add: acceptLoopStep_def Activated)
  show ?thesis unfolding t
  proof (rule map_inv_same [OF assms(1)])
    show "entryLive h' r' (spawn h r s)" if "entryLive h' r' s" for h' r'
      using that Activated pos by (auto simp: spawn_def entryLive_def zeroing_def)
  qed (auto simp: spawn_def refPairs_def Activated)
next
  case Listening
  show ?thesis
    by (rule map_inv_same [OF assms(1)])
      (auto simp: acceptLoopStep_def Listening checkGlobal_def refPairs_def entryLive_def zeroing_def)
next
  case (Admitted h r)
  have "0 \<le> ac_counter s r" using assms(2) by (simp add: count_inv_def holders_def)
  then show ?thesis
    by (intro map_inv_same [OF assms(1)])
      (auto simp: acceptLoopStep_def Admitted refPairs_def entryLive_def zeroing_def)
next
  case (Counted h r)
  show ?thesis
    by (rule map_inv_same [OF assms(1)])
      (auto simp: acceptLoopStep_def Counted refPairs_def entryLive_def zeroing_def)
qed

subsection \<open>The handlers\<close>

lemma handler_active:
  assumes "active_inv M s" "i < length (ac_handlers s)"
  shows "active_inv M (handlerStep i s)"
proof -
  obtain xs ys where hs: "ac_handlers s = xs @ ac_handlers s ! i # ys" "\<And>k. (ac_handlers s)[i := k] = xs @ k # ys"
      "take i (ac_handlers s) @ drop (Suc i) (ac_handlers s) = xs @ ys"
    using split_at [OF assms(2)] by blast
  have f: "length (filter Q (ac_handlers s)) = length (filter Q xs) + (if Q (ac_handlers s ! i) then 1 else 0) + length (filter Q ys)" for Q
    by (subst hs(1)) simp
  show ?thesis using assms(1)
    by (cases "h_pc (ac_handlers s ! i)") (auto simp: handlerStep_def active_inv_def serving_def hs(2,3) f Let_def)
qed

lemma handler_count:
  assumes "count_inv P s" "i < length (ac_handlers s)"
  shows "count_inv P (handlerStep i s)"
proof -
  obtain xs ys where hs: "ac_handlers s = xs @ ac_handlers s ! i # ys" "\<And>k. (ac_handlers s)[i := k] = xs @ k # ys"
      "take i (ac_handlers s) @ drop (Suc i) (ac_handlers s) = xs @ ys"
    using split_at [OF assms(2)] by blast
  let ?h = "ac_handlers s ! i"
  have f: "length (filter Q (ac_handlers s)) = length (filter Q xs) + (if Q ?h then 1 else 0) + length (filter Q ys)" for Q
    by (subst hs(1)) simp
  have p: "ac_pend (handlerStep i s) = ac_pend s" by (simp add: handlerStep_def Let_def split: handlerPC.splits)
  define d where "d x = (if h_pc ?h = Recorded \<and> x = h_ref ?h then 1 else 0 :: int)" for x
  have c: "ac_counter (handlerStep i s) x = ac_counter s x - d x" for x
    by (auto simp: handlerStep_def d_def Let_def split: handlerPC.splits)
  have "holders x (handlerStep i s) = holders x s - d x" for x
    by (cases "h_pc ?h") (auto simp: handlerStep_def d_def holders_def hs(2,3) f Let_def)
  then have "ac_counter (handlerStep i s) x = holders x (handlerStep i s) + (if pendCounted (ac_pend s) = Some x then 1 else 0)" for x
    using c count_invD(2) [OF assms(1), of x] by simp
  moreover have le: "ac_counter (handlerStep i s) x \<le> ac_counter s x" for x unfolding c by (simp add: d_def)
  ultimately show ?thesis using assms(1) le unfolding count_inv_def p
    by (meson order_trans le_less_trans)
qed

lemma handlerStep_parts:
  "ac_pend (handlerStep i s) = ac_pend s" "ac_next (handlerStep i s) = ac_next s"
  "ac_perIP (handlerStep i s) = (if h_pc (ac_handlers s ! i) = Zeroed
     then ac_perIP (compareAndDelete (h_host (ac_handlers s ! i)) (h_ref (ac_handlers s ! i)) s) else ac_perIP s)"
  by (auto simp: handlerStep_def Let_def split: handlerPC.splits)

lemma handler_map:
  assumes "map_inv s" "count_inv P s" "i < length (ac_handlers s)"
  shows "map_inv (handlerStep i s)"
proof -
  obtain xs ys where hs: "ac_handlers s = xs @ ac_handlers s ! i # ys" "\<And>k. (ac_handlers s)[i := k] = xs @ k # ys"
      "take i (ac_handlers s) @ drop (Suc i) (ac_handlers s) = xs @ ys"
    using split_at [OF assms(3)] by blast
  let ?h = "ac_handlers s ! i" and ?t = "handlerStep i s"
  have mem: "set (ac_handlers s) = insert ?h (set xs \<union> set ys)" by (subst hs(1)) simp
  have sub: "set (ac_perIP ?t) \<subseteq> set (ac_perIP s)"
    by (auto simp: handlerStep_parts compareAndDelete_def AList.delete_eq)
  have "(\<lambda>h. (h_host h, h_ref h)) ` set (ac_handlers ?t) \<subseteq> (\<lambda>h. (h_host h, h_ref h)) ` set (ac_handlers s)"
    by (cases "h_pc ?h") (auto simp: handlerStep_def mem hs(2,3) Let_def)
  with sub have rp: "refPairs ?t \<subseteq> refPairs s" by (auto simp: refPairs_def handlerStep_parts)
  have live: "entryLive a r ?t" if e: "(a, r) \<in> set (ac_perIP ?t)" "entryLive a r s" for a r
  proof (cases "h_pc ?h")
    case Recorded
    show ?thesis
    proof (cases "r = h_ref ?h")
      case True
      have "(h_host ?h, h_ref ?h) \<in> refPairs s" using mem by (auto simp: refPairs_def)
      moreover have "(a, r) \<in> refPairs s" using e(1) sub by (auto simp: refPairs_def)
      ultimately have "a = h_host ?h" using refPairs_functional [OF assms(1)] True by blast
      moreover have "?h \<in> set (filter (\<lambda>h. h_ref h = r \<and> h_pc h \<noteq> Zeroed) (ac_handlers s))"
        using Recorded True mem by simp
      then have "0 < length (filter (\<lambda>h. h_ref h = r \<and> h_pc h \<noteq> Zeroed) (ac_handlers s))" by (rule length_pos_if_in_set)
      then have "0 < ac_counter s r" using count_invD(2) [OF assms(2), of r] by (simp add: holders_def)
      ultimately show ?thesis using Recorded True
        by (auto simp: handlerStep_def Let_def entryLive_def zeroing_def hs(2))
    next
      case False
      then show ?thesis using e(2) Recorded mem
        by (auto simp: handlerStep_def Let_def entryLive_def zeroing_def hs(2,3))
    qed
  next
    case Zeroed
    have "\<not> (a = h_host ?h \<and> r = h_ref ?h)"
      using e(1) Zeroed wf_map_keys [of "ac_perIP s"] assms(1)
      by (auto simp: handlerStep_parts compareAndDelete_def map_inv_def AList.delete_eq split: if_splits)
    then show ?thesis using e(2) Zeroed mem
      by (auto simp: handlerStep_def Let_def entryLive_def zeroing_def hs(3))
  qed (use e(2) mem in \<open>auto simp: handlerStep_def Let_def entryLive_def zeroing_def hs(2)\<close>)
  have "wf_map (ac_perIP ?t)" using assms(1) by (auto simp: handlerStep_parts compareAndDelete_def map_inv_def)
  then show ?thesis using map_inv_keep [OF assms(1) rp sub] live by (simp add: handlerStep_parts(2))
qed

lemma accept_step_inv: "accept_step M P s t \<Longrightarrow> accept_inv M P s \<Longrightarrow> accept_inv M P t"
proof (induction rule: accept_step.induct)
  case (as_loop s addr)
  then show ?case by (auto simp: accept_inv_def intro: loop_active loop_count loop_map)
next
  case (as_handler i s)
  then show ?case by (auto simp: accept_inv_def intro: handler_active handler_count handler_map)
next
  case (as_order m s)
  have m: "set m = set (ac_perIP s)" using as_order(1) by (rule mset_eq_setD)
  have "map_inv s" using as_order(2) by (simp add: accept_inv_def)
  then have "map_inv (s\<lparr>ac_perIP := m\<rparr>)"
  proof (rule map_inv_keep)
    show "wf_map (ac_perIP (s\<lparr>ac_perIP := m\<rparr>))" using \<open>map_inv s\<close> wf_map_mset [OF as_order(1)] by (simp add: map_inv_def)
  qed (simp_all add: refPairs_def m entryLive_def zeroing_def)
  moreover have "active_inv M (s\<lparr>ac_perIP := m\<rparr>) = active_inv M s" by (simp add: active_inv_def serving_def)
  moreover have "count_inv P (s\<lparr>ac_perIP := m\<rparr>) = count_inv P s" by (simp add: count_inv_def holders_def)
  ultimately show ?case using as_order(2) by (simp add: accept_inv_def)
qed

interpretation acc_sys: step_system "accept_step M P" "accept_inv M P" for M P
  by unfold_locales (rule accept_step_inv)

subsection \<open>The gauge\<close>

lemma gauge_sniActive [simp]:
  "gauge (SniVar V_sniActiveConnections) [RecordSNIActiveConnection d] = d"
  "gauge (SniVar V_sniActiveConnections) [RecordSNIConnection x] = 0"
  by (simp_all add: gauge_single Record_defs)

lemma loop_gauge: "gauge_inv s \<Longrightarrow> gauge_inv (acceptLoopStep M P addr s)"
  by (cases "ac_pend s")
    (auto simp: gauge_inv_def acceptLoopStep_def checkGlobal_def loadCounter_def checkPerIP_def spawn_def serving_def split: prod.splits)

lemma handler_gauge:
  assumes "gauge_inv s" "i < length (ac_handlers s)"
  shows "gauge_inv (handlerStep i s)"
proof -
  obtain xs ys where hs: "ac_handlers s = xs @ ac_handlers s ! i # ys" "\<And>k. (ac_handlers s)[i := k] = xs @ k # ys"
      "take i (ac_handlers s) @ drop (Suc i) (ac_handlers s) = xs @ ys"
    using split_at [OF assms(2)] by blast
  have f: "length (filter Q (ac_handlers s)) = length (filter Q xs) + (if Q (ac_handlers s ! i) then 1 else 0) + length (filter Q ys)" for Q
    by (subst hs(1)) simp
  show ?thesis using assms(1)
    by (cases "h_pc (ac_handlers s ! i)") (auto simp: handlerStep_def gauge_inv_def serving_def hs(2,3) f Let_def)
qed

lemma accept_step_gauge: "accept_step M P s t \<Longrightarrow> gauge_inv s \<Longrightarrow> gauge_inv t"
  by (induction rule: accept_step.induct) (auto intro: loop_gauge handler_gauge, simp add: gauge_inv_def serving_def)

interpretation acc_gauge: step_system "accept_step M P" gauge_inv for M P
  by unfold_locales (rule accept_step_gauge)

subsection \<open>Properties\<close>

lemma perIP_bounded:
  assumes "map_inv s" "count_inv P s"
  shows "length (ac_perIP s) \<le> length (ac_handlers s) + 1"
proof -
  let ?R = "h_ref ` set (ac_handlers s)" and ?p = "snd ` set_option (pendRef (ac_pend s))"
  have d: "distinct (ac_perIP s)" using assms(1) by (auto simp: map_inv_def wf_map_def distinct_map)
  have "inj_on snd (set (ac_perIP s))"
    by (rule inj_onI) (use refPairs_functional [OF assms(1)] in \<open>force simp: refPairs_def\<close>)
  then have "length (ac_perIP s) = card (snd ` set (ac_perIP s))"
    using d by (simp add: card_image distinct_card)
  also have "snd ` set (ac_perIP s) \<subseteq> ?R \<union> ?p"
  proof clarsimp
    fix h r assume hr: "(h, r) \<in> set (ac_perIP s)" "r \<notin> ?p"
    then have "entryLive h r s" "pendCounted (ac_pend s) \<noteq> Some r"
      using assms(1) by (auto simp: map_inv_def) (cases "ac_pend s"; simp)
    moreover have "pendRef (ac_pend s) \<noteq> Some (h, r)" using hr(2) by force
    ultimately show "r \<in> ?R"
      using count_invD(2) [OF assms(2), of r]
      by (auto simp: entryLive_def zeroing_def holders_def filter_empty_conv)
  qed
  then have "card (snd ` set (ac_perIP s)) \<le> card (?R \<union> ?p)" by (intro card_mono) auto
  also have "\<dots> \<le> card ?R + card ?p" by (rule card_Un_le)
  also have "\<dots> \<le> length (ac_handlers s) + 1"
  proof (intro add_mono)
    show "card ?R \<le> length (ac_handlers s)" using card_length [of "map h_ref (ac_handlers s)"] by simp
    show "card ?p \<le> 1" by (cases "pendRef (ac_pend s)") simp_all
  qed
  finally show ?thesis .
qed

lemma acceptInit_inv: "0 \<le> M \<Longrightarrow> 0 < P \<Longrightarrow> accept_inv M P acceptInit" "gauge_inv acceptInit"
  by (simp_all add: accept_inv_def active_inv_def count_inv_def map_inv_def acceptInit_def serving_def holders_def refPairs_def gauge_inv_def)

text \<open>
  C10: in every interleaving of the accept loop with the finishing connections, at most
  \<open>maxSNIConnections\<close> connections are served, no per-IP counter passes \<open>maxSNIConnectionsPerIP\<close>, the
  map of counters has at most one entry more than there are connections being served or finished, and
  the exported gauge is the number of connections served plus those whose end is not yet recorded.
\<close>

theorem accept_limits:
  assumes "0 \<le> M" "0 < P" "(accept_step M P)\<^sup>*\<^sup>* acceptInit s"
  shows "serving s \<le> M \<and> ac_active s \<le> M \<and> (\<forall>r. ac_counter s r \<le> P) \<and>
      length (ac_perIP s) \<le> length (ac_handlers s) + 1 \<and>
      gauge (SniVar V_sniActiveConnections) (ac_mlog s) =
        serving s + int (length (filter (\<lambda>h. h_pc h = Deactivated) (ac_handlers s)))"
proof -
  have inv: "accept_inv M P s" using acc_sys.run_inv [OF assms(3)] acceptInit_inv(1) [OF assms(1,2)] by simp
  then have "serving s \<le> ac_active s" "ac_active s \<le> M" by (auto simp: accept_inv_def active_inv_def)
  moreover have "ac_counter s r \<le> P" for r using inv count_invD(1) by (auto simp: accept_inv_def)
  moreover have "length (ac_perIP s) \<le> length (ac_handlers s) + 1"
    using inv by (intro perIP_bounded) (auto simp: accept_inv_def)
  moreover have "gauge_inv s" using acc_gauge.run_inv [OF assms(3)] acceptInit_inv(2) by simp
  ultimately show ?thesis by (simp add: gauge_inv_def)
qed

lemma runMoves_reach: "(accept_step M P)\<^sup>*\<^sup>* s (runMoves M P ms s)"
proof (induction M P ms s rule: runMoves.induct)
  case (2 M P addr ms s)
  then show ?case by (auto intro: converse_rtranclp_into_rtranclp as_loop)
next
  case (3 M P i ms s)
  then show ?case using as_handler [of i s M P] by (auto intro: converse_rtranclp_into_rtranclp)
qed simp

lemma oneClient_host: "remoteHostOf oneClient = ''10.0.0.7''"
  by (simp add: remoteHostOf_def oneClient_def NetAddr_String_def IP_String_def To4_def ip4String_def Itoa_def
      itoaNat.simps JoinHostPort_def SplitHostPort_def lastIndex_def)

lemmas run_defs = acceptLoopStep_def checkGlobal_def loadCounter_def loadOrStore_def checkPerIP_def addCounter_def
  spawn_def handlerStep_def compareAndDelete_def aclog_def acceptInit_def oneClient_host

theorem accept_limits_witness:
  "ac_active (runMoves 1 1 (replicate 7 (Loop oneClient)) acceptInit) \<le> 1 \<and>
   serving (runMoves 1 1 (replicate 7 (Loop oneClient)) acceptInit) = 1"
proof -
  let ?s = "runMoves 1 1 (replicate 7 (Loop oneClient)) acceptInit"
  have "ac_active ?s \<le> 1" using accept_limits [OF _ _ runMoves_reach, of 1 1 "replicate 7 (Loop oneClient)"] by simp
  moreover have "serving ?s = 1" by (simp add: numeral_eq_Suc run_defs serving_def)
  ultimately show ?thesis by simp
qed

text \<open>
  The limit per address is not kept.  With a limit of two, one address can be served four
  connections at once: a handler that brought the counter to zero deletes the map entry only after
  two new connections were counted on it, and the next ones start from a new counter.  The comment in
  the code says the race lets one connection through.
\<close>

theorem per_ip_limit_exceeded:
  "\<exists>s. (accept_step 4096 2)\<^sup>*\<^sup>* acceptInit s \<and>
     length (filter (\<lambda>h. h_host h = ''10.0.0.7'' \<and> h_pc h = Serving) (ac_handlers s)) = 4"
proof -
  have "length (filter (\<lambda>h. h_host h = ''10.0.0.7'' \<and> h_pc h = Serving) (ac_handlers (runMoves 4096 2 lateDelete acceptInit))) = 4"
    by (simp add: lateDelete_def numeral_eq_Suc run_defs)
  then show ?thesis using runMoves_reach by blast
qed

end
