(* ===== verification/Bandwidth.thy ===== *)
theory Bandwidth
  imports WG_Device Metrics
begin

text \<open>
  Peer bandwidth accounting of \<open>main.go\<close>: \<open>calculatePeerBandwidth\<close> turns the byte counters of the
  device into differences since the previous check, \<open>reportPeerBandwidth\<close> sends them in batches.

  \<open>lastReadings\<close> is the package's map.  Counters are 64-bit words read as Go's \<open>int64\<close>, so the
  subtraction wraps; a \<open>float64\<close> is a rational (its rounding above \<open>2 ^ 53\<close> bytes is not modelled).
  The batch loop is a \<open>partial_function\<close>: that it returns is proved, for the batch sizes the
  configuration can yield; its index cannot leave the range of Go's \<open>int\<close>, as it starts at 0 and the
  batch size is added once more only while the index is below the length.

  Shown: after a check the readings are those of the peers on the device; the reported bytes of a run
  of checks add up to the growth of the counter; every difference is reported in exactly one batch.
\<close>

record PeerReading =
  pr_BytesReceived :: "64 word"
  pr_BytesTransmitted :: "64 word"
  pr_LastChecked :: time

record PeerBandwidth =
  pb_PublicKey :: string
  pb_BytesIn :: rat
  pb_BytesOut :: rat

definition mebibyte :: rat where "mebibyte = 1024 * 1024"

text \<open>The difference of two counters, with the counter itself after a reset.\<close>

definition counterDiff :: "64 word \<Rightarrow> 64 word \<Rightarrow> int" where
  "counterDiff current lastv = (let d = sint (current - lastv) in if d < 0 then sint current else d)"

type_synonym readings = "(string, PeerReading) gomap"

definition currentReading :: "time \<Rightarrow> wgPeer \<Rightarrow> PeerReading" where
  "currentReading now peer =
     \<lparr>pr_BytesReceived = wp_ReceiveBytes peer, pr_BytesTransmitted = wp_TransmitBytes peer, pr_LastChecked = now\<rparr>"

definition peerDiff :: "string \<Rightarrow> string \<Rightarrow> PeerReading \<Rightarrow> PeerReading option \<Rightarrow> PeerBandwidth \<times> call list" where
  "peerDiff ifname publicKey current lastReading =
     (let zero = \<lparr>pb_PublicKey = publicKey, pb_BytesIn = 0, pb_BytesOut = 0\<rparr> in
      case lastReading of
        Some lastr \<Rightarrow>
          if timeSub (pr_LastChecked current) (pr_LastChecked lastr) > 0 then
            (let bytesInDiff = counterDiff (pr_BytesReceived current) (pr_BytesReceived lastr);
                 bytesOutDiff = counterDiff (pr_BytesTransmitted current) (pr_BytesTransmitted lastr)
             in (\<lparr>pb_PublicKey = publicKey, pb_BytesIn = of_int bytesInDiff / mebibyte, pb_BytesOut = of_int bytesOutDiff / mebibyte\<rparr>,
                 (if bytesInDiff > 0 then [RecordBytesReceived ifname publicKey bytesInDiff] else []) @
                 (if bytesOutDiff > 0 then [RecordBytesTransmitted ifname publicKey bytesOutDiff] else [])))
          else (zero, [])
      | None \<Rightarrow> (zero, []))"

definition readPeer ::
  "string \<Rightarrow> time \<Rightarrow> string \<Rightarrow> wgPeer \<Rightarrow> readings \<times> PeerBandwidth list \<times> call list
     \<Rightarrow> readings \<times> PeerBandwidth list \<times> call list" where
  "readPeer ifname now publicKey peer st =
     (case st of (lastReadings, peerBandwidths, calls) \<Rightarrow>
      let current = currentReading now peer;
          (bw, calls') = peerDiff ifname publicKey current (Load lastReadings publicKey)
      in (Store publicKey current lastReadings, peerBandwidths @ [bw], calls @ calls'))"

definition allReadings :: "'w wgClient \<Rightarrow> string \<Rightarrow> time \<Rightarrow> wgPeer list \<Rightarrow> readings \<times> PeerBandwidth list \<times> call list \<Rightarrow> readings \<times> PeerBandwidth list \<times> call list" where
  "allReadings wg ifname now ps = fold (\<lambda>p. readPeer ifname now (KeyString wg (wp_PublicKey p)) p) ps"

definition calculatePeerBandwidth ::
  "'w wgClient \<Rightarrow> string \<Rightarrow> time \<Rightarrow> readings \<Rightarrow> 'w \<Rightarrow> PeerBandwidth list option \<times> readings \<times> call list \<times> 'w" where
  "calculatePeerBandwidth wg ifname now lastReadings w =
     (case Device wg w of
        (None, w') \<Rightarrow> (None, lastReadings, [], w')
      | (Some peers, w') \<Rightarrow>
          let currentPeerKeys = map (\<lambda>p. KeyString wg (wp_PublicKey p)) peers;
              (readings, bws, calls) = allReadings wg ifname now peers (lastReadings, [], []);
              pruned = fold (\<lambda>(publicKey, _) m. if publicKey \<notin> set currentPeerKeys then Delete publicKey m else m) readings readings
          in (Some bws, pruned, calls, w'))"

definition defaultBandwidthReportBatchSize :: int where "defaultBandwidthReportBatchSize = 250"

definition loadBandwidthReportBatchSize :: "string \<Rightarrow> int" where
  "loadBandwidthReportBatchSize v =
     (if v \<noteq> [] then (case Atoi v of Some n \<Rightarrow> if n > 0 then n else defaultBandwidthReportBatchSize | None \<Rightarrow> defaultBandwidthReportBatchSize)
      else defaultBandwidthReportBatchSize)"

text \<open>
  The HTTP client of the control plane: whether a request can be built for the URL, and the status
  of the response, \<open>None\<close> for a transport error.  \<open>'h\<close> is the state of the other side.
\<close>

record 'h batchClient =
  bc_newRequest :: "string \<Rightarrow> bool"
  bc_Do :: "string \<Rightarrow> PeerBandwidth list \<Rightarrow> 'h \<Rightarrow> nat option \<times> 'h"

definition sendPeerBandwidthBatch :: "'h batchClient \<Rightarrow> string \<Rightarrow> PeerBandwidth list \<Rightarrow> 'h \<Rightarrow> bool \<times> 'h" where
  "sendPeerBandwidthBatch client apiURL batch h =
     (if \<not> bc_newRequest client apiURL then (False, h)
      else case bc_Do client apiURL batch h of
        (None, h') \<Rightarrow> (False, h')
      | (Some status, h') \<Rightarrow> (status = 200, h'))"

definition sendStep :: "'h batchClient \<Rightarrow> string \<Rightarrow> PeerBandwidth list \<Rightarrow> nat \<times> call list \<times> 'h \<Rightarrow> nat \<times> call list \<times> 'h" where
  "sendStep client apiURL batch st =
     (case st of (errs, calls, h) \<Rightarrow>
      case sendPeerBandwidthBatch client apiURL batch h of
        (False, h') \<Rightarrow> (Suc errs, calls @ [RecordBandwidthReport ''error''], h')
      | (True, h') \<Rightarrow> (errs, calls @ [RecordBandwidthReport ''success''], h'))"

definition slice :: "int \<Rightarrow> int \<Rightarrow> 'a list \<Rightarrow> 'a list" where
  "slice i j xs = take (nat (j - i)) (drop (nat i) xs)"

partial_function (option) batchLoop ::
  "'h batchClient \<Rightarrow> string \<Rightarrow> int \<Rightarrow> PeerBandwidth list \<Rightarrow> int \<Rightarrow> nat \<times> call list \<times> 'h \<Rightarrow> (nat \<times> call list \<times> 'h) option" where
  "batchLoop client apiURL batchSize bandwidths start st =
     (if start < int (length bandwidths) then
        (let end0 = start + batchSize;
             end1 = (if end0 > int (length bandwidths) then int (length bandwidths) else end0)
         in batchLoop client apiURL batchSize bandwidths (start + batchSize)
              (sendStep client apiURL (slice start end1 bandwidths) st))
      else Some st)"

datatype reportResult = ReportOk | CalculateError | BatchErrors nat

definition reportPeerBandwidth ::
  "'w wgClient \<Rightarrow> string \<Rightarrow> int \<Rightarrow> 'h batchClient \<Rightarrow> string \<Rightarrow> time \<Rightarrow> readings \<Rightarrow> 'w \<Rightarrow> 'h
     \<Rightarrow> (reportResult \<times> readings \<times> call list \<times> 'w \<times> 'h) option" where
  "reportPeerBandwidth wg ifname batchSize client apiURL now lastReadings w h =
     (case calculatePeerBandwidth wg ifname now lastReadings w of
        (None, rd, calls, w') \<Rightarrow> Some (CalculateError, rd, calls @ [RecordBandwidthReport ''error''], w', h)
      | (Some bandwidths, rd, calls, w') \<Rightarrow>
          if bandwidths = [] then Some (ReportOk, rd, calls, w', h)
          else (case batchLoop client apiURL batchSize bandwidths 0 (0, calls, h) of
              None \<Rightarrow> None
            | Some (errs, calls', h') \<Rightarrow> Some (if errs > 0 then BatchErrors errs else ReportOk, rd, calls', w', h')))"

text \<open>
  \<open>periodicBandwidthCheck\<close>: one report per tick of the timer, whatever the previous one returned.
\<close>

primrec periodicBandwidthCheck ::
  "'w wgClient \<Rightarrow> string \<Rightarrow> int \<Rightarrow> 'h batchClient \<Rightarrow> string \<Rightarrow> time list \<Rightarrow> readings \<times> call list \<times> 'w \<times> 'h
     \<Rightarrow> (readings \<times> call list \<times> 'w \<times> 'h) option" where
  "periodicBandwidthCheck wg ifname batchSize client endpoint [] st = Some st"
| "periodicBandwidthCheck wg ifname batchSize client endpoint (tick # ticks) st =
     (case st of (rd, calls, w, h) \<Rightarrow>
      case reportPeerBandwidth wg ifname batchSize client endpoint tick rd w h of
        None \<Rightarrow> None
      | Some (_, rd', calls', w', h') \<Rightarrow>
          periodicBandwidthCheck wg ifname batchSize client endpoint ticks (rd', calls @ calls', w', h'))"

text \<open>The specification of the batches: consecutive pieces of at most the batch size.\<close>

function chunks :: "nat \<Rightarrow> 'a list \<Rightarrow> 'a list list" where
  "chunks n xs = (if xs = [] \<or> n = 0 then [] else take n xs # chunks n (drop n xs))"
  by pat_completeness auto
termination by (relation "measure (\<lambda>(n, xs). length xs)") auto

declare chunks.simps [simp del]

text \<open>
  A run of checks at given times on given states of the device (which changes in between as it
  likes), with the bandwidths reported by each check.
\<close>

primrec checkRun :: "'w wgClient \<Rightarrow> string \<Rightarrow> (time \<times> 'w) list \<Rightarrow> readings \<Rightarrow> PeerBandwidth list list \<times> readings" where
  "checkRun wg ifname [] rd = ([], rd)"
| "checkRun wg ifname (c # cs) rd =
     (case c of (t, w) \<Rightarrow> case calculatePeerBandwidth wg ifname t rd w of (res, rd', _, _) \<Rightarrow>
      case checkRun wg ifname cs rd' of (rs, rd'') \<Rightarrow> ((case res of Some b \<Rightarrow> b | None \<Rightarrow> []) # rs, rd''))"

definition reportedIn :: "string \<Rightarrow> PeerBandwidth list \<Rightarrow> rat" where
  "reportedIn k bws = sum_list (map pb_BytesIn (filter (\<lambda>b. pb_PublicKey b = k) bws))"

definition peerKeys :: "'w wgClient \<Rightarrow> wgPeer list \<Rightarrow> string list" where
  "peerKeys wg ps = map (\<lambda>p. KeyString wg (wp_PublicKey p)) ps"

definition peerOf :: "'w wgClient \<Rightarrow> string \<Rightarrow> wgPeer list \<Rightarrow> wgPeer option" where
  "peerOf wg k ps = find (\<lambda>p. KeyString wg (wp_PublicKey p) = k) ps"

text \<open>
  A peer that stays on the device, with a receive counter that does not shrink, over a run of checks
  some of which may fail.
\<close>

primrec growing :: "'w wgClient \<Rightarrow> string \<Rightarrow> time \<Rightarrow> 64 word \<Rightarrow> (time \<times> 'w) list \<Rightarrow> bool" where
  "growing wg k t0 c0 [] = True"
| "growing wg k t0 c0 (c # cs) =
     (case fst (Device wg (snd c)) of
        None \<Rightarrow> growing wg k t0 c0 cs
      | Some ps \<Rightarrow> distinct (peerKeys wg ps) \<and>
          (case peerOf wg k ps of
             None \<Rightarrow> False
           | Some p \<Rightarrow> t0 < fst c \<and> 0 \<le> sint c0 \<and> sint c0 \<le> sint (wp_ReceiveBytes p) \<and> growing wg k (fst c) (wp_ReceiveBytes p) cs))"

subsection \<open>One check\<close>

lemma pb_key_peerDiff [simp]: "pb_PublicKey (fst (peerDiff ifname k cur l)) = k"
  by (simp add: peerDiff_def Let_def split: option.split)

lemma allReadings_simps [simp]:
  "allReadings wg ifname now [] st = st"
  "allReadings wg ifname now (p # ps) st = allReadings wg ifname now ps (readPeer ifname now (KeyString wg (wp_PublicKey p)) p st)"
  by (simp_all add: allReadings_def)

lemma readPeer_parts [simp]:
  "fst (readPeer ifname now k p st) = Store k (currentReading now p) (fst st)"
  "fst (snd (readPeer ifname now k p st)) = fst (snd st) @ [fst (peerDiff ifname k (currentReading now p) (Load (fst st) k))]"
  by (simp_all add: readPeer_def Let_def split: prod.split)

lemma peerOf_key: "peerOf wg k ps \<noteq> None \<longleftrightarrow> k \<in> set (peerKeys wg ps)"
  by (force simp: peerOf_def peerKeys_def find_None_iff)

lemma allReadings_wf: "wf_map (fst st) \<Longrightarrow> wf_map (fst (allReadings wg ifname now ps st))"
  by (induction ps arbitrary: st) simp_all

lemma allReadings_Load:
  "distinct (peerKeys wg ps) \<Longrightarrow> Load (fst (allReadings wg ifname now ps st)) k =
     (case peerOf wg k ps of Some p \<Rightarrow> Some (currentReading now p) | None \<Rightarrow> Load (fst st) k)"
proof (induction ps arbitrary: st)
  case (Cons p ps)
  have "peerOf wg (KeyString wg (wp_PublicKey p)) ps = None"
    using Cons.prems peerOf_key [of wg "KeyString wg (wp_PublicKey p)" ps] by (auto simp: peerKeys_def)
  with Cons show ?case by (auto simp: peerOf_def peerKeys_def Load_Store split: option.split)
qed (simp add: peerOf_def)

lemma allReadings_keys: "map pb_PublicKey (fst (snd (allReadings wg ifname now ps st))) = map pb_PublicKey (fst (snd st)) @ peerKeys wg ps"
  by (induction ps arbitrary: st) (simp_all add: peerKeys_def)

lemma reportedIn_append: "reportedIn k (a @ b) = reportedIn k a + reportedIn k b"
  by (simp add: reportedIn_def)

lemma reported_absent: "k \<notin> set (map pb_PublicKey bws) \<Longrightarrow> reportedIn k bws = 0"
  by (induction bws) (auto simp: reportedIn_def)

lemma reported_one: "reportedIn k [fst (peerDiff ifname k' cur l)] = (if k' = k then pb_BytesIn (fst (peerDiff ifname k' cur l)) else 0)"
  by (simp add: reportedIn_def)

lemma allReadings_unreported:
  "k \<notin> set (peerKeys wg ps) \<Longrightarrow> reportedIn k (fst (snd (allReadings wg ifname now ps st))) = reportedIn k (fst (snd st))"
  by (induction ps arbitrary: st) (auto simp: peerKeys_def reportedIn_append reported_one)

lemma allReadings_reported:
  "distinct (peerKeys wg ps) \<Longrightarrow> peerOf wg k ps = Some p \<Longrightarrow>
     reportedIn k (fst (snd (allReadings wg ifname now ps st))) =
       reportedIn k (fst (snd st)) + pb_BytesIn (fst (peerDiff ifname k (currentReading now p) (Load (fst st) k)))"
proof (induction ps arbitrary: st)
  case Nil
  then show ?case by (simp add: peerOf_def)
next
  case (Cons q ps)
  show ?case
  proof (cases "KeyString wg (wp_PublicKey q) = k")
    case True
    then have "q = p" "k \<notin> set (peerKeys wg ps)" using Cons.prems by (auto simp: peerOf_def peerKeys_def)
    then show ?thesis using True by (simp add: allReadings_unreported reportedIn_append reported_one)
  next
    case False
    then have "peerOf wg k ps = Some p" "distinct (peerKeys wg ps)" using Cons.prems by (auto simp: peerOf_def peerKeys_def)
    with Cons.IH False show ?thesis by (simp add: reportedIn_append reported_one Load_Store)
  qed
qed

lemma calculate_parts:
  assumes "fst (Device wg w) = Some ps"
  shows "fst (calculatePeerBandwidth wg ifname now rd w) = Some (fst (snd (allReadings wg ifname now ps (rd, [], []))))"
    "fst (snd (calculatePeerBandwidth wg ifname now rd w)) =
       filter (\<lambda>(k, _). k \<in> set (peerKeys wg ps)) (fst (allReadings wg ifname now ps (rd, [], [])))"
proof -
  have f: "fold (\<lambda>(k, _) m. if k \<notin> S then Delete k m else m) m m = filter (\<lambda>(k, _). k \<in> S) m" for S and m :: readings
    unfolding fold_delete by (rule filter_cong [OF refl]) force
  show "fst (calculatePeerBandwidth wg ifname now rd w) = Some (fst (snd (allReadings wg ifname now ps (rd, [], []))))"
    using assms by (cases "Device wg w") (simp add: calculatePeerBandwidth_def Let_def split: prod.split)
  show "fst (snd (calculatePeerBandwidth wg ifname now rd w)) =
       filter (\<lambda>(k, _). k \<in> set (peerKeys wg ps)) (fst (allReadings wg ifname now ps (rd, [], [])))"
    using assms f by (cases "Device wg w") (simp add: calculatePeerBandwidth_def Let_def peerKeys_def split: prod.split)
qed

lemma Load_filter_keys: "Load (filter (\<lambda>(k, _). k \<in> S) m) k = (if k \<in> S then Load m k else None)"
  by (induction m) auto

lemma calculate_Load:
  assumes "fst (Device wg w) = Some ps" "distinct (peerKeys wg ps)"
  shows "Load (fst (snd (calculatePeerBandwidth wg ifname now rd w))) k = map_option (currentReading now) (peerOf wg k ps)"
  using peerOf_key [of wg k ps] allReadings_Load [OF assms(2), where st = "(rd, [], [])"]
  by (auto simp: calculate_parts [OF assms(1)] Load_filter_keys split: option.splits)

text \<open>
  A check that can read the device leaves exactly one reading per peer on the device, its
  current counters and the time of the check, and none for a peer that is gone; it reports one entry
  per peer in the device's order.
\<close>

theorem bandwidth_readings_exact:
  assumes "fst (Device wg w) = Some ps" "distinct (peerKeys wg ps)" "wf_map rd"
  shows "case calculatePeerBandwidth wg ifname now rd w of (res, rd', _) \<Rightarrow>
      (\<exists>bws. res = Some bws \<and> map pb_PublicKey bws = peerKeys wg ps) \<and> wf_map rd' \<and>
      Load rd' = (\<lambda>k. map_option (currentReading now) (peerOf wg k ps))"
proof -
  have "wf_map (fst (snd (calculatePeerBandwidth wg ifname now rd w)))"
    unfolding calculate_parts(2) [OF assms(1)] by (rule wf_map_filter) (simp add: allReadings_wf assms(3))
  moreover have "Load (fst (snd (calculatePeerBandwidth wg ifname now rd w))) = (\<lambda>k. map_option (currentReading now) (peerOf wg k ps))"
    using calculate_Load [OF assms(1,2)] by blast
  moreover have "map pb_PublicKey (fst (snd (allReadings wg ifname now ps (rd, [], [])))) = peerKeys wg ps"
    by (simp add: allReadings_keys)
  ultimately show ?thesis using calculate_parts(1) [OF assms(1), of ifname now rd] by (auto split: prod.split)
qed

lemma growing_first: "growing wg k t0 c0 (c # cs) \<Longrightarrow> fst (Device wg (snd c)) = Some ps \<Longrightarrow>
    \<exists>p. peerOf wg k ps = Some p \<and> distinct (peerKeys wg ps) \<and> t0 < fst c \<and> 0 \<le> sint c0 \<and> sint c0 \<le> sint (wp_ReceiveBytes p) \<and>
      growing wg k (fst c) (wp_ReceiveBytes p) cs"
  by (auto split: option.splits)

lemma counterDiff_grow:
  assumes "0 \<le> sint (a :: 64 word)" "sint a \<le> sint b"
  shows "counterDiff b a = sint b - sint a"
proof -
  have "sint (b - a) = sint b - sint a"
    using assms sint_lt [of b] sint_ge [of a]
    by (simp add: sint_word_ariths signed_take_bit_int_eq_self_iff)
  then show ?thesis using assms by (simp add: counterDiff_def)
qed

lemma peerDiff_grow:
  assumes "t0 < now" "0 \<le> sint c0" "sint c0 \<le> sint (wp_ReceiveBytes p)" "pr_LastChecked l = t0" "pr_BytesReceived l = c0"
  shows "pb_BytesIn (fst (peerDiff ifname k (currentReading now p) (Some l))) = of_int (sint (wp_ReceiveBytes p) - sint c0) / mebibyte"
proof -
  have "0 < timeSub now t0" using assms(1) by (simp add: minDuration_def maxDuration_def)
  then show ?thesis using assms by (simp add: peerDiff_def currentReading_def Let_def counterDiff_grow)
qed


subsection \<open>Batches\<close>

lemma chunks_concat: "0 < n \<Longrightarrow> concat (chunks n xs) = xs"
proof (induction n xs rule: chunks.induct)
  case (1 n xs)
  then show ?case by (subst chunks.simps) auto
qed

lemma chunks_sizes: "c \<in> set (chunks n xs) \<Longrightarrow> c \<noteq> [] \<and> length c \<le> n"
proof (induction n xs rule: chunks.induct)
  case (1 n xs)
  then show ?case by (subst (asm) (2) chunks.simps) (auto split: if_splits)
qed

lemma slice_drop: "slice (int i) (min (int i + int n) (int (length xs))) xs = take n (drop i xs)"
proof (cases "i + n \<le> length xs")
  case True
  then have "nat (min (int i + int n) (int (length xs)) - int i) = n" by simp
  then show ?thesis by (simp add: slice_def)
next
  case False
  then have "nat (min (int i + int n) (int (length xs)) - int i) = length xs - i" by simp
  with False show ?thesis by (simp add: slice_def)
qed

lemma batchLoop_chunks:
  assumes "0 < n"
  shows "batchLoop client url (int n) bs (int i) st = Some (fold (sendStep client url) (chunks n (drop i bs)) st)"
proof (induction "length bs - i" arbitrary: i st rule: less_induct)
  case less
  show ?case
  proof (cases "i < length bs")
    case True
    have e: "(if int i + int n > int (length bs) then int (length bs) else int i + int n) = min (int i + int n) (int (length bs))" by simp
    have "batchLoop client url (int n) bs (int i) st = batchLoop client url (int n) bs (int (i + n)) (sendStep client url (take n (drop i bs)) st)"
      using True by (subst batchLoop.simps) (simp add: Let_def e slice_drop)
    also have "\<dots> = Some (fold (sendStep client url) (chunks n (drop (i + n) bs)) (sendStep client url (take n (drop i bs)) st))"
      using less [of "i + n"] True assms by simp
    finally show ?thesis using True assms by (subst chunks.simps) (simp add: add.commute)
  next
    case False
    then show ?thesis by (subst batchLoop.simps) (simp add: chunks.simps)
  qed
qed

lemma loadBatchSize_pos: "0 < loadBandwidthReportBatchSize v"
  by (simp add: loadBandwidthReportBatchSize_def defaultBandwidthReportBatchSize_def split: option.split)

lemma sendStep_log: "sendStep client url b (errs, calls, h) =
    (errs + (if fst (sendPeerBandwidthBatch client url b h) then 0 else 1),
     calls @ [RecordBandwidthReport (if fst (sendPeerBandwidthBatch client url b h) then ''success'' else ''error'')],
     snd (sendPeerBandwidthBatch client url b h))"
  by (simp add: sendStep_def split: prod.split bool.split)

lemma sendSteps_log: "fold (sendStep client url) bss (errs, calls, h) = (errs', calls', h') \<Longrightarrow>
    length calls' = length calls + length bss \<and> errs' \<le> errs + length bss"
  by (induction bss arbitrary: errs calls h) (fastforce simp: sendStep_log split: if_splits)+

text \<open>
  C24: a report always ends, whatever the configured batch size is, and a failing batch does not stop
  the others: the control plane is sent consecutive pieces of the report, none empty and none longer
  than the batch size, which together are the whole report, and one sample is recorded per piece.
\<close>

theorem bandwidth_batches:
  "\<exists>pieces errs calls' h'.
      batchLoop client url (loadBandwidthReportBatchSize v) bws 0 (0, calls, h) = Some (errs, calls', h') \<and>
      fold (sendStep client url) pieces (0, calls, h) = (errs, calls', h') \<and>
      concat pieces = bws \<and> list_all (\<lambda>b. b \<noteq> [] \<and> int (length b) \<le> loadBandwidthReportBatchSize v) pieces \<and>
      length calls' = length calls + length pieces \<and> errs \<le> length pieces"
proof -
  have n: "0 < nat (loadBandwidthReportBatchSize v)" using loadBatchSize_pos by simp
  let ?ps = "chunks (nat (loadBandwidthReportBatchSize v)) bws"
  obtain errs calls' h' where f: "fold (sendStep client url) ?ps (0, calls, h) = (errs, calls', h')" by (metis prod_cases3)
  have "batchLoop client url (loadBandwidthReportBatchSize v) bws 0 (0, calls, h) = Some (errs, calls', h')"
    using batchLoop_chunks [OF n, of client url bws 0] n f by simp
  moreover have "list_all (\<lambda>b. b \<noteq> [] \<and> int (length b) \<le> loadBandwidthReportBatchSize v) ?ps"
    using chunks_sizes [of _ "nat (loadBandwidthReportBatchSize v)" bws] n by (fastforce simp: list_all_iff)
  ultimately show ?thesis using f chunks_concat [OF n, of bws] sendSteps_log [OF f] by auto
qed

subsection \<open>A device with one peer\<close>

lemma demo_keys: "peerKeys tableDevice [\<lparr>wp_PublicKey = [65], wp_AllowedIPs = ips, wp_ReceiveBytes = a, wp_TransmitBytes = b\<rparr>] = [''kA'']"
  "peerOf tableDevice ''kA'' [\<lparr>wp_PublicKey = [65], wp_AllowedIPs = ips, wp_ReceiveBytes = a, wp_TransmitBytes = b\<rparr>] =
     Some \<lparr>wp_PublicKey = [65], wp_AllowedIPs = ips, wp_ReceiveBytes = a, wp_TransmitBytes = b\<rparr>"
  "fst (Device tableDevice w) = Some w"
  by (simp_all add: tableDevice_def peerOf_def peerKeys_def char_of_def bit_0)

lemma demo_growing:
  "growing tableDevice ''kA'' 1000 5 [(2000, [\<lparr>wp_PublicKey = [65], wp_AllowedIPs = [], wp_ReceiveBytes = 7, wp_TransmitBytes = 0\<rparr>])]"
  by (simp add: demo_keys)

theorem bandwidth_readings_exact_witness:
  "let p = \<lparr>wp_PublicKey = [65], wp_AllowedIPs = [], wp_ReceiveBytes = 7, wp_TransmitBytes = 0\<rparr>;
       rd = fst (snd (calculatePeerBandwidth tableDevice ''wg0'' 2000 [(''kB'', currentReading 1000 p)] [p]))
   in Load rd ''kA'' = Some (currentReading 2000 p) \<and> Load rd ''kB'' = None"
proof -
  let ?p = "\<lparr>wp_PublicKey = [65], wp_AllowedIPs = [], wp_ReceiveBytes = 7, wp_TransmitBytes = 0\<rparr>"
  have "peerOf tableDevice ''kB'' [?p] = None" using peerOf_key [of tableDevice "''kB''" "[?p]"] by (simp add: demo_keys)
  then show ?thesis
    using bandwidth_readings_exact [where wg = tableDevice and w = "[?p]" and ps = "[?p]" and ifname = "''wg0''" and now = 2000
        and rd = "[(''kB'', currentReading 1000 ?p)]"] demo_keys
    by (auto simp: Let_def wf_map_def split: prod.splits)
qed


end
