(* ===== verification/OTel_Exporter.thy ===== *)
theory OTel_Exporter
  imports Observability
begin

text \<open>
  The construction of the OTLP exporter and the resource in \<open>internal/observability/otel\<close>
  (\<open>exporter.go\<close>, \<open>resource.go\<close>), which \<open>otel.New\<close> calls.

  The client libraries are parameters: \<open>xp_create\<close> builds an exporter from options (\<open>None\<close> an error),
  \<open>xp_parseURL\<close> is \<open>url.Parse\<close> followed by \<open>String\<close>, \<open>xp_merge\<close> whether the resource merges.  What
  decides the behaviour is the list of options, in order.

  Shown: which options an accepted configuration leads to; a URL endpoint keeps its scheme and path only
  over HTTP, and with the default settings is followed by the option that turns TLS off, also when
  its scheme is \<open>https\<close>; the configured timeout reaches no option.
\<close>

datatype exporterOption = WithEndpoint string | WithEndpointURL string | WithURLPath string | WithInsecure

datatype transport = GRPC | HTTP

datatype exporterError = EndpointEmpty | UnknownProtocol string | EndpointURLInvalid string | CreateFailed transport

record exporterLib =
  xp_create :: "transport \<Rightarrow> exporterOption list \<Rightarrow> bool"
  xp_parseURL :: "string \<Rightarrow> string option"
  xp_merge :: "(string \<times> string) list \<Rightarrow> bool"

definition insecureOption :: "OTelConfig \<Rightarrow> exporterOption list" where
  "insecureOption c = (if otel_Insecure c then [WithInsecure] else [])"

definition created :: "exporterLib \<Rightarrow> transport \<Rightarrow> exporterOption list \<Rightarrow> exporterError + transport \<times> exporterOption list" where
  "created L t opts = (if xp_create L t opts then Inr (t, opts) else Inl (CreateFailed t))"

definition newGRPCExporter :: "exporterLib \<Rightarrow> OTelConfig \<Rightarrow> exporterError + transport \<times> exporterOption list" where
  "newGRPCExporter L c = created L GRPC (WithEndpoint (otel_Endpoint c) # insecureOption c)"

definition newHTTPExporter :: "exporterLib \<Rightarrow> OTelConfig \<Rightarrow> exporterError + transport \<times> exporterOption list" where
  "newHTTPExporter L c =
     (let endpoint = trimSpace (otel_Endpoint c) in
      if contains endpoint ''://'' then
        (case xp_parseURL L endpoint of
           None \<Rightarrow> Inl (EndpointURLInvalid endpoint)
         | Some parsed \<Rightarrow> created L HTTP (WithEndpointURL parsed # insecureOption c))
      else created L HTTP (WithEndpoint endpoint # WithURLPath ''/v1/metrics'' # insecureOption c))"

definition newExporter :: "exporterLib \<Rightarrow> OTelConfig \<Rightarrow> exporterError + transport \<times> exporterOption list" where
  "newExporter L c =
     (if trimSpace (otel_Endpoint c) = [] then Inl EndpointEmpty
      else if otel_Protocol c = ''grpc'' \<or> otel_Protocol c = [] then newGRPCExporter L c
      else if otel_Protocol c = ''http'' then newHTTPExporter L c
      else Inl (UnknownProtocol (otel_Protocol c)))"

definition resourceAttrs :: "string \<Rightarrow> string \<Rightarrow> string \<Rightarrow> (string \<times> string) list" where
  "resourceAttrs serviceName serviceVersion deploymentEnv =
     [(''service.name'', serviceName)]
       @ (if serviceVersion \<noteq> [] then [(''service.version'', serviceVersion)] else [])
       @ (if deploymentEnv \<noteq> [] then [(''deployment.environment'', deploymentEnv)] else [])"

definition newResource :: "exporterLib \<Rightarrow> string \<Rightarrow> string \<Rightarrow> string \<Rightarrow> (string \<times> string) list option" where
  "newResource L serviceName serviceVersion deploymentEnv =
     (let attrs = resourceAttrs serviceName serviceVersion deploymentEnv in if xp_merge L attrs then Some attrs else None)"

text \<open>The two constructions as \<open>otel.New\<close> calls them, one after the other: the parameter of \<open>otelNew\<close>.\<close>

definition otelComponents :: "exporterLib \<Rightarrow> MetricsConfig \<Rightarrow> OTelConfig \<Rightarrow> string option" where
  "otelComponents L m c =
     (case newResource L (if mc_ServiceName m = [] then ''gerbil'' else mc_ServiceName m) (mc_ServiceVersion m) (mc_DeploymentEnvironment m) of
        None \<Rightarrow> Some ''build resource''
      | Some _ \<Rightarrow> (case newExporter L c of Inl _ \<Rightarrow> Some ''create exporter'' | Inr _ \<Rightarrow> None))"

definition anyLib :: exporterLib where
  "anyLib = \<lparr>xp_create = (\<lambda>_ _. True), xp_parseURL = Some, xp_merge = (\<lambda>_. True)\<rparr>"

definition endpointOption :: "transport \<Rightarrow> exporterLib \<Rightarrow> string \<Rightarrow> exporterOption list option" where
  "endpointOption t L e = (case t of
       GRPC \<Rightarrow> Some [WithEndpoint e]
     | HTTP \<Rightarrow> if contains (trimSpace e) ''://'' then map_option (\<lambda>u. [WithEndpointURL u]) (xp_parseURL L (trimSpace e))
         else Some [WithEndpoint (trimSpace e), WithURLPath ''/v1/metrics''])"

subsection \<open>Properties\<close>

text \<open>
  An exporter exists exactly when its endpoint is not blank, its protocol known, a URL endpoint parses and
  the library accepts the options; these are the endpoint's, then the one that disables TLS when
  the configuration says so, and nothing else.
\<close>

theorem newExporter_options:
  "newExporter L c = Inr (t, opts) \<longleftrightarrow>
     trimSpace (otel_Endpoint c) \<noteq> [] \<and>
     (t = GRPC \<and> otel_Protocol c \<in> {''grpc'', []} \<or> t = HTTP \<and> otel_Protocol c = ''http'') \<and>
     (\<exists>eps. endpointOption t L (otel_Endpoint c) = Some eps \<and> opts = eps @ insecureOption c) \<and> xp_create L t opts"
  by (auto simp: newExporter_def newGRPCExporter_def newHTTPExporter_def created_def endpointOption_def Let_def
      split: if_splits option.splits)

text \<open>Neither interval nor timeout has any influence on the exporter.\<close>

theorem exporter_ignores_timeout:
  "newExporter L (c\<lparr>otel_Timeout := t, otel_ExportInterval := i\<rparr>) = newExporter L c"
  by (simp add: newExporter_def newGRPCExporter_def newHTTPExporter_def insecureOption_def Let_def split: option.split)

text \<open>
  A backend that came up has its exporter, for the configuration with the defaults filled in; the
  service name of its resource is never empty.
\<close>

theorem otel_backend_exports:
  assumes "otelNew (otelComponents L m) c = Inr (OTelBackend c')"
  shows "(\<exists>t opts. newExporter L c' = Inr (t, opts)) \<and> 0 < otel_ExportInterval c' \<and> otel_Insecure c' = otel_Insecure c
    \<and> otel_Endpoint c' = otel_Endpoint c
    \<and> (\<exists>name attrs. newResource L name (mc_ServiceVersion m) (mc_DeploymentEnvironment m) = Some attrs \<and> name \<noteq> [])"
proof -
  from assms have "otelComponents L m c' = None" "0 < otel_ExportInterval c'" "otel_Insecure c' = otel_Insecure c"
      "otel_Endpoint c' = otel_Endpoint c"
    by (auto simp: otelNew_def Let_def split: if_splits option.splits)
  then show ?thesis by (fastforce simp: otelComponents_def split: option.splits sum.splits if_splits)
qed

theorem otel_backend_exports_witness:
  "\<exists>c'. otelNew (otelComponents anyLib DefaultMetricsConfig) (mc_OTel DefaultMetricsConfig) = Inr (OTelBackend c') \<and>
     newExporter anyLib c' = Inr (GRPC, [WithEndpoint ''localhost:4317'', WithInsecure])"
proof -
  have t: "trimSpace ''localhost:4317'' = ''localhost:4317''" by (simp add: trimSpace_def isSpace_def)
  obtain c' where c: "otelNew (otelComponents anyLib DefaultMetricsConfig) (mc_OTel DefaultMetricsConfig) = Inr (OTelBackend c')"
    "otel_Protocol c' = ''grpc''"
    by (simp add: otelNew_def otelComponents_def newResource_def newExporter_def newGRPCExporter_def created_def anyLib_def
        DefaultMetricsConfig_def t)
  then have "otel_Endpoint c' = ''localhost:4317''" "otel_Insecure c'"
    using otel_backend_exports [OF c(1)] by (simp_all add: DefaultMetricsConfig_def)
  with c t show ?thesis by (simp add: newExporter_def newGRPCExporter_def created_def insecureOption_def anyLib_def)
qed

text \<open>
  With the default settings an endpoint given as an \<open>https\<close> URL still gets the option that disables TLS,
  after the one that carries the URL.
\<close>

theorem https_endpoint_loses_tls:
  "newExporter anyLib ((mc_OTel DefaultMetricsConfig)\<lparr>otel_Protocol := ''http'', otel_Endpoint := ''https://c''\<rparr>)
     = Inr (HTTP, [WithEndpointURL ''https://c'', WithInsecure])"
proof -
  have t: "trimSpace ''https://c'' = ''https://c''" by (simp add: trimSpace_def isSpace_def)
  have u: "contains ''https://c'' ''://''" by (simp add: contains_def)
  show ?thesis by (simp add: newExporter_def newHTTPExporter_def created_def insecureOption_def anyLib_def DefaultMetricsConfig_def t u)
qed

end
