(* ===== verification/Memory_Monitor.thy ===== *)
theory Memory_Monitor
  imports Metrics "HOL-Library.Word"
begin

text \<open>
  \<open>monitorMemory\<close> of \<open>main.go\<close>: the loop that watches the heap.

  A sample is what one round of the loop sees: the allocated bytes, and whether the directory and the
  profile file could be created.  \<open>monitorRound\<close> is the body, with the time it sleeps; \<open>monitorRun\<close> the
  loop over the samples it takes, each event with the time of its round.

  Shown: every spike is counted once, with the severity of its size; a profile counted as
  written was written for a spike; and two spikes are at least five minutes and five seconds apart, which
  bounds the profiles written in any span of time.
\<close>

type_synonym u64 = "64 word"

record memSample =
  ms_alloc :: u64
  ms_mkdirOK :: bool
  ms_createOK :: bool

definition severityOf :: "u64 \<Rightarrow> u64 \<Rightarrow> string" where
  "severityOf limit alloc = (if limit * 2 < alloc then ''critical'' else ''warning'')"

definition monitorRound :: "u64 \<Rightarrow> memSample \<Rightarrow> call list \<times> duration" where
  "monitorRound limit m =
     (if limit < ms_alloc m then
        (RecordMemorySpike (severityOf limit (ms_alloc m))
           # (if \<not> ms_mkdirOK m then [] else if \<not> ms_createOK m then [] else [RecordHeapProfileWritten]),
         5 * minute + 5 * second)
      else ([], 5 * second))"

fun monitorRun :: "u64 \<Rightarrow> time \<Rightarrow> memSample list \<Rightarrow> (time \<times> call) list" where
  "monitorRun limit t [] = []"
| "monitorRun limit t (m # ms) = (case monitorRound limit m of (calls, sleep) \<Rightarrow> map (Pair t) calls @ monitorRun limit (t + sleep) ms)"

definition spikes :: "(time \<times> call) list \<Rightarrow> time list" where
  "spikes es = map fst (filter (\<lambda>(_, c). c_var c = ApiVar V_memorySpikeTotal) es)"

definition profiles :: "(time \<times> call) list \<Rightarrow> time list" where
  "profiles es = map fst (filter (\<lambda>(_, c). c_var c = ApiVar V_heapProfilesWrittenTotal) es)"

definition memoryLimit :: u64 where "memoryLimit = 1024 * 1024 * 512"

lemma events_append [simp]: "spikes (a @ b) = spikes a @ spikes b" "profiles (a @ b) = profiles a @ profiles b"
  by (simp_all add: spikes_def profiles_def)

lemma round_events:
  "spikes (map (Pair t) (fst (monitorRound limit m))) = (if limit < ms_alloc m then [t] else [])"
  "profiles (map (Pair t) (fst (monitorRound limit m))) = (if limit < ms_alloc m \<and> ms_mkdirOK m \<and> ms_createOK m then [t] else [])"
  "snd (monitorRound limit m) = (if limit < ms_alloc m then 5 * minute + 5 * second else 5 * second)"
  by (simp_all add: monitorRound_def spikes_def profiles_def RecordMemorySpike_def RecordHeapProfileWritten_def)

lemma run_Cons:
  "monitorRun limit t (m # ms) = map (Pair t) (fst (monitorRound limit m)) @ monitorRun limit (t + snd (monitorRound limit m)) ms"
  by (simp add: case_prod_beta)

declare monitorRun.simps(2) [simp del]

lemma spikes_later: "x \<in> set (spikes (monitorRun limit t ms)) \<Longrightarrow> t \<le> x"
  by (induction ms arbitrary: t) (fastforce simp: spikes_def run_Cons round_events [unfolded spikes_def] split: if_splits)+

text \<open>
  However the heap moves, two spikes are at least 305 seconds apart, and every profile that is
  counted belongs to a spike.
\<close>

theorem spikes_apart:
  "sorted_wrt (\<lambda>a b. a + 305 * second \<le> b) (spikes (monitorRun limit t ms)) \<and>
   set (profiles (monitorRun limit t ms)) \<subseteq> set (spikes (monitorRun limit t ms))"
proof (induction ms arbitrary: t)
  case (Cons m ms)
  let ?u = "t + snd (monitorRound limit m)"
  have "t + 305 * second \<le> x" if "limit < ms_alloc m" "x \<in> set (spikes (monitorRun limit ?u ms))" for x
    using spikes_later [OF that(2)] that(1) by (simp add: round_events)
  with Cons.IH [of ?u] show ?case by (auto simp: run_Cons round_events sorted_wrt_append)
qed (simp add: spikes_def profiles_def)

text \<open>The severity of a spike, for the limit the node is started with.\<close>

theorem spike_severity:
  "monitorRound memoryLimit \<lparr>ms_alloc = a, ms_mkdirOK = d, ms_createOK = c\<rparr> =
     (if a \<le> memoryLimit then ([], 5 * second)
      else (RecordMemorySpike (if unat a \<le> 1073741824 then ''warning'' else ''critical'') # (if d \<and> c then [RecordHeapProfileWritten] else []),
            5 * minute + 5 * second))"
proof -
  have "memoryLimit * 2 < a \<longleftrightarrow> \<not> unat a \<le> 1073741824"
    by (auto simp: memoryLimit_def word_less_nat_alt)
  then show ?thesis by (auto simp: monitorRound_def severityOf_def)
qed

end
