(* ===== verification/Spec2Isabelle.thy ===== *)
theory Spec2Isabelle
  imports Node_System SNI_Accept Bandwidth Metrics_Backends Memory_Monitor
begin

text \<open>
  Verification of Gerbil, the WireGuard edge node of Pangolin (Go sources under \<open>src/\<close>).

  \<^bold>\<open>The program.\<close>  \<open>main.go\<close> reads its settings, obtains a key and a configuration (from a file
  or, signed, from a control plane), creates a WireGuard interface with firewall rules and traffic
  limits, keeps its peers in step with the configuration, reports their bandwidth, and serves a
  control API and a reverse proxy (\<open>/router/\<close>).  \<open>relay/relay.go\<close> is a UDP relay for clients that
  cannot reach a peer directly: it learns from hole-punch messages who talks to whom and forwards
  WireGuard packets.  \<open>proxy/proxy.go\<close> is a TLS proxy that routes by SNI, locally or to another node.
  \<open>internal/metrics\<close> and \<open>internal/observability\<close> export the metrics, \<open>logger\<close> writes the log.  The
  API changes peers (which clears relay sockets and traffic limits), relay mappings and the local
  hostnames of the SNI proxy; every component records metrics.

  \<^bold>\<open>Ground.\<close>  \<open>Gerbil_Prelude\<close>: time, Go maps as association lists in arbitrary order, the locales
  \<open>go_map\<close>, \<open>step_system\<close> and \<open>table_cleanup\<close>.  \<open>Go_Strings\<close>, \<open>Go_Net\<close>, \<open>Go_IP_RoundTrip\<close>: what the
  sources use of the Go library, with print/parse round trips.

  \<^bold>\<open>Metrics\<close> (\<open>internal/\<close>).  \<open>Observability\<close>: configuration, and label handling of both backends
  behind the locale \<open>label_backend\<close>.  \<open>OTel_Exporter\<close>: the options an OpenTelemetry configuration leads
  to.  \<open>Metrics\<close>: the instrument table and every \<open>Record\<close> function.  \<open>Metrics_Backends\<close>: the adapters,
  the no-op backend, registration; from the configuration to the samples nothing is dropped.
  \<open>Memory_Monitor\<close>: the watch on the heap.  \<open>Logger\<close>: \<open>logger/level.go\<close>, \<open>logger/logger.go\<close>.

  \<^bold>\<open>Relay\<close> (\<open>relay/relay.go\<close>).  \<open>Endpoint_Cache\<close>: the bounded cache, as a \<open>ttl_cache\<close>.
  \<open>Relay_State\<close>: the struct \<open>UDPProxyServer\<close> as the record \<open>server\<close>.  \<open>Relay_Pool\<close>: outbound sockets,
  one operation at a time and interleaved (\<open>pool_step\<close>).  \<open>Relay_Sessions\<close>: sessions over an explicit
  store.  \<open>Relay_Forward\<close>: \<open>handleWireGuardPacket\<close>, \<open>handleResponses\<close>.  \<open>Relay_Mappings\<close>: who may send
  where.  \<open>Relay_HolePunch\<close>: \<open>packetWorker\<close>, rate limit, notifications, and the running relay
  \<open>relay_step\<close>.  \<open>Relay_Lifecycle\<close>: \<open>Start\<close>, reader, channel, workers and \<open>Stop\<close> interleaved
  (\<open>life_step\<close>).  Shown: gauges and bounds in every reachable state, no socket leaks under any
  interleaving, packets only go where mappings and sessions allow, no buffer is lost or returned twice, a
  stopped relay drains, the rate limit, session rebuilding.

  \<^bold>\<open>SNI proxy\<close> (\<open>proxy/proxy.go\<close>).  \<open>SNI_ProxyProtocol\<close>: parsing and building headers.
  \<open>SNI_Routing\<close>: routes, dialling, tunnels (\<open>sni_step\<close>).  \<open>SNI_Accept\<close>: the accept loop against its
  handlers, one atomic operation per step.  \<open>SNI_Tunnel\<close>: peeking at the ClientHello, and \<open>pipe\<close> with
  its idle deadline as two copying goroutines (\<open>pipe_step\<close>).  \<open>Control_Plane\<close>: URLs and redirects of both
  HTTP clients.  Shown: only allowed addresses are dialled, local hostnames stay local, the tunnel
  table is exact, tunnels are transparent, end, and time out exactly when idle, connection limits hold,
  headers round-trip.

  \<^bold>\<open>Router\<close> (\<open>main.go\<close>).  \<open>Router_Trie\<close>, \<open>Router_Networks\<close>: which addresses the peers' networks
  allow.  \<open>HTTP_Server\<close>: response writers and the metrics middleware.  \<open>Router\<close>: the reverse proxy.
  Shown: the loop over the networks ends, the check is membership in a peer network, requests only
  reach allowed addresses, what is forwarded.

  \<^bold>\<open>Node\<close> (\<open>main.go\<close>).  \<open>WG_Device\<close>: the WireGuard client as a parameter with its laws.
  \<open>Commands\<close>: external programs in the state monad.  \<open>Traffic_Shaping\<close>, \<open>Firewall\<close>, \<open>WG_Interface\<close>:
  the commands and calls that set the kernel up.  \<open>Peers\<close>: adding, removing and reconciling.
  \<open>Bandwidth\<close>: accounting and reports.  \<open>Control_API\<close>: authentication, handlers, routes, over the
  state \<open>apiState\<close> that joins the node and the SNI proxy.  \<open>Node_Refinement\<close>: the API against its
  abstract specification \<open>nodeSpec\<close>.  \<open>Remote_Config\<close>: key file and signed configuration.
  \<open>Startup\<close>: settings and the checks before the node runs.  \<open>Boot\<close>: bring-up in the order of \<open>main\<close> as
  one function (\<open>boot\<close>) over the components, and the shutdown.  \<open>Node_System\<close>: the running node, with
  API, relay and SNI proxy interleaved (\<open>system_step\<close>).  Shown across the components: what holds of every
  node that came up, that it starts in the initial state of \<open>nodeSpec\<close>, that its runs project to runs of
  the relay and of the proxy, and how it ends.

  \<^bold>\<open>Conventions.\<close>  A struct is a record, an error a value of an error datatype or \<open>None\<close>; a panic
  is \<open>None\<close> of the whole function or an explicit flag.  Code outside the repository (cryptography,
  JSON, HTTP exchanges, \<open>wgctrl\<close>, \<open>netlink\<close>, \<open>iptables\<close>, \<open>tc\<close>, go-cache, the resolver) is a
  parameter; what is relied on is a named hypothesis (\<open>wg_laws\<close>, \<open>iptables_laws\<close>, \<open>cache_laws\<close>,
  \<open>atomicConfigure\<close>), shown to be satisfiable by a concrete instance in the witnesses.  Go's map order
  is arbitrary.  A word or an explicit range check stands for a machine integer where wrapping
  matters (packet indices, byte counters, hashes, \<open>Atoi\<close>).

  \<^bold>\<open>Loops.\<close>  Loops over data are structural; the loop over the networks is a \<open>function\<close> with a
  termination proof; the batch loop is a \<open>partial_function\<close> that is proved to return for every batch
  size the settings can yield; loops that run as long as the process does (workers, sweeps, the
  accept loop, the periodic report, the fetch loop) are step relations or run over the list of
  events they see, for every such list.  No definition uses fuel.

  Bounds: \<open>tunnel_ends\<close> needs four actions of a goroutine, \<open>relay_drains\<close> three steps per queued packet,
  two per busy worker and one per idle one (\<open>drainRank\<close>).

  \<^bold>\<open>Not modelled.\<close>  The pprof server and the serving of HTTP requests by \<open>net/http\<close>, the contents of
  packets and certificates beyond what the code looks at, log texts, the rounding of \<open>float64\<close>, the data
  races that Go's memory model leaves open (a step is one operation on shared state).

  \<^bold>\<open>What could follow.\<close>  The bandwidth reports and the router as further steps of the running node; the
  relay's gauges in it, which the initial load of the mappings disturbs.
\<close>

end
